(* ===== verification/Prelude.thy ===== *)
theory Prelude
  imports Main "HOL-Library.Word"
begin

text \<open>
  Shared vocabulary of the development: machine integers, the C++ computation type (a state
  transformer that returns or throws), a small Hoare calculus for it, rules that evaluate it on a
  concrete state, and \<open>std::map\<close> as a key-sorted association list with the laws its clients use.
\<close>

unbundle bit_operations_syntax

section \<open>Machine integers and bytes\<close>

type_synonym u8 = "8 word"
type_synonym u16 = "16 word"
type_synonym u32 = "32 word"
type_synonym u64 = "64 word"
type_synonym byte_seq = "u8 list"

text \<open>C integer division and the narrowing of a 64-bit count to \<open>int\<close>.\<close>

definition cdiv :: "int \<Rightarrow> int \<Rightarrow> int" where
  "cdiv a b = (if (a < 0) = (b < 0) then \<bar>a\<bar> div \<bar>b\<bar> else - (\<bar>a\<bar> div \<bar>b\<bar>))"

definition to_int32 :: "int \<Rightarrow> int" where
  "to_int32 i = sint (word_of_int i :: 32 word)"

lemma sint_u32: "sint (w :: u32) = (if uint w < 2 ^ 31 then uint w else uint w - 2 ^ 32)"
proof -
  have b: "0 \<le> uint w" "uint w < 2 ^ 32" using unsigned_less [of w, where 'a = int] by simp_all
  have s: "sint w = (uint w + 2 ^ 31) mod 2 ^ 32 - 2 ^ 31"
    by (simp add: sint_uint signed_take_bit_eq_take_bit_shift take_bit_eq_mod)
  show ?thesis
  proof (cases "uint w < 2 ^ 31")
    case True
    with b s show ?thesis by simp
  next
    case False
    have "(uint w + 2 ^ 31) mod 2 ^ 32 = ((uint w - 2 ^ 31) + 2 ^ 32) mod 2 ^ 32"
      by (simp add: add.commute)
    also have "\<dots> = (uint w - 2 ^ 31) mod 2 ^ 32" by (rule mod_add_self2)
    also have "\<dots> = uint w - 2 ^ 31" using False b by (intro mod_pos_pos_trivial) simp_all
    finally show ?thesis using False s by simp
  qed
qed

lemma uint_sum_u64: "uint (24 + word_of_int k :: u64) = (24 + k) mod 2 ^ 64"
proof -
  have "24 + word_of_int k = (word_of_int (24 + k) :: u64)" by simp
  then show ?thesis by (simp only: uint_word_of_int) (simp add: take_bit_eq_mod)
qed

text \<open>Decimal text, as \<open>%d\<close> prints it.\<close>

definition digit_char :: "nat \<Rightarrow> char" where
  "digit_char d = char_of (48 + d)"

fun dec_nat :: "nat \<Rightarrow> string" where
  "dec_nat n = (if n < 10 then [digit_char n] else dec_nat (n div 10) @ [digit_char (n mod 10)])"

declare dec_nat.simps [simp del]

definition dec_int :: "int \<Rightarrow> string" where
  "dec_int i = (if i < 0 then ''-'' @ dec_nat (nat (- i)) else dec_nat (nat i))"

definition dec_value :: "string \<Rightarrow> nat" where
  "dec_value t = foldl (\<lambda>a c. a * 10 + (of_char c - 48)) 0 t"

lemma dec_value_dec_nat [simp]: "dec_value (dec_nat n) = n"
proof (induction n rule: dec_nat.induct)
  case (1 n)
  have digit: "of_char (digit_char d) - 48 = d" if "d < 10" for d :: nat
    using that by (simp add: digit_char_def)
  show ?case
  proof (cases "n < 10")
    case True
    then show ?thesis by (simp add: dec_nat.simps [of n] dec_value_def digit)
  next
    case False
    with 1 have "dec_value (dec_nat (n div 10)) = n div 10" by simp
    with False show ?thesis by (simp add: dec_nat.simps [of n] dec_value_def digit)
  qed
qed

lemma dec_nat_inject [simp]: "dec_nat m = dec_nat n \<longleftrightarrow> m = n"
  by (metis dec_value_dec_nat)

text \<open>The ports of the default settings, printed.\<close>

lemma dec_nat_ports: "dec_nat 1470 = ''1470''" "dec_nat 4242 = ''4242''"
proof -
  have "map digit_char [0, 1, 2, 4, 7] = ''01247''" by code_simp
  then show "dec_nat 1470 = ''1470''" "dec_nat 4242 = ''4242''"
    by (simp_all add: dec_nat.simps [of 1470] dec_nat.simps [of 147] dec_nat.simps [of 14] dec_nat.simps [of "Suc 0"]
        dec_nat.simps [of 4242] dec_nat.simps [of 424] dec_nat.simps [of 42] dec_nat.simps [of 4])
qed

text \<open>White space and digits, as \<open>isspace\<close> and \<open>isdigit\<close> have them.\<close>

definition isSpace :: "char \<Rightarrow> bool" where
  "isSpace c \<longleftrightarrow> (let n = of_char c :: nat in (9 \<le> n \<and> n \<le> 13) \<or> n = 32)"

definition is_digit :: "char \<Rightarrow> bool" where
  "is_digit c \<longleftrightarrow> (let n = of_char c :: nat in 48 \<le> n \<and> n \<le> 57)"

lemma dec_digits: "set (dec_nat n) \<subseteq> set ''0123456789''"
proof (induction n rule: dec_nat.induct)
  case (1 n)
  have d: "digit_char k \<in> set ''0123456789''" if "k < 10" for k
  proof -
    have "k \<in> set [0..<10]" using that by simp
    moreover have "\<forall>k \<in> set [0..<10]. digit_char k \<in> set ''0123456789''" by code_simp
    ultimately show ?thesis by blast
  qed
  show ?case
  proof (cases "n < 10")
    case True
    with d show ?thesis by (simp add: dec_nat.simps [of n])
  next
    case False
    with 1 d [of "n mod 10"] show ?thesis by (simp add: dec_nat.simps [of n])
  qed
qed

lemma dec_char:
  assumes "c \<notin> set ''0123456789''"
  shows "c \<notin> set (dec_nat n)"
  using dec_digits assms by blast

lemma dec_nat_not_Nil [simp]: "dec_nat n \<noteq> []"
  by (simp add: dec_nat.simps [of n])

lemma dec_not_space: "c \<in> set (dec_nat n) \<Longrightarrow> \<not> isSpace c"
  using dec_digits [of n] by (auto simp: isSpace_def)

lemma dec_nat_digit: "c \<in> set (dec_nat n) \<Longrightarrow> is_digit c \<and> c \<noteq> CHR 0x00"
  using dec_digits [of n] by (auto simp: is_digit_def)

section \<open>Exceptions and computations\<close>

text \<open>
  \<open>Poco\<close> is a \<open>Poco::Exception\<close> with its class, text and error code: the only value a
  \<open>catch\<close> clause of the program stops. \<open>UB\<close> is undefined behaviour (use of a destroyed
  object, an access outside an array), \<open>Diverge\<close> a loop that used up its fuel. Neither can
  be caught.
\<close>

datatype exc_class =
    NetException | IOException | InvalidSocketException | InvalidArgumentException
  | TimeoutException | ConnectionAbortedException | ConnectionResetException
  | ConnectionRefusedException | DNSException | HostNotFoundException | NoAddressFoundException
  | InvalidAddressException | ServiceNotFoundException | AddressFamilyMismatchException
  | AssertionViolationException | NotImplementedException

datatype exn = Poco exc_class string int | UB string | Diverge

type_synonym ('w, 'a) cpp = "'w \<Rightarrow> (exn + 'a) \<times> 'w"

definition ret :: "'a \<Rightarrow> ('w, 'a) cpp" where
  "ret a = (\<lambda>w. (Inr a, w))"

definition throw :: "exn \<Rightarrow> ('w, 'a) cpp" where
  "throw e = (\<lambda>w. (Inl e, w))"

definition bnd :: "('w, 'a) cpp \<Rightarrow> ('a \<Rightarrow> ('w, 'b) cpp) \<Rightarrow> ('w, 'b) cpp" where
  "bnd m f = (\<lambda>w. case m w of (Inl e, w') \<Rightarrow> (Inl e, w') | (Inr a, w') \<Rightarrow> f a w')"

definition andthen :: "('w, 'a) cpp \<Rightarrow> ('w, 'b) cpp \<Rightarrow> ('w, 'b) cpp" where
  "andthen m k = bnd m (\<lambda>_. k)"

definition gets :: "('w \<Rightarrow> 'a) \<Rightarrow> ('w, 'a) cpp" where
  "gets f = (\<lambda>w. (Inr (f w), w))"

definition modify :: "('w \<Rightarrow> 'w) \<Rightarrow> ('w, unit) cpp" where
  "modify f = (\<lambda>w. (Inr (), f w))"

definition skip :: "('w, unit) cpp" where
  "skip = ret ()"

text \<open>\<open>try { m } catch (Poco::Exception& e) { h e }\<close>\<close>

definition catch_poco :: "('w, 'a) cpp \<Rightarrow> (exn \<Rightarrow> ('w, 'a) cpp) \<Rightarrow> ('w, 'a) cpp" where
  "catch_poco m h = (\<lambda>w. case m w of
      (Inl (Poco c t n), w') \<Rightarrow> h (Poco c t n) w'
    | (Inl (UB t), w') \<Rightarrow> (Inl (UB t), w')
    | (Inl Diverge, w') \<Rightarrow> (Inl Diverge, w')
    | (Inr a, w') \<Rightarrow> (Inr a, w'))"

text \<open>A destructor's or clean-up's update of the state, run on every way out of \<open>m\<close>.\<close>

definition finally_upd :: "('w, 'a) cpp \<Rightarrow> ('w \<Rightarrow> 'w) \<Rightarrow> ('w, 'a) cpp" where
  "finally_upd m g = (\<lambda>w. case m w of (r, w') \<Rightarrow> (r, g w'))"

text \<open>A \<open>for\<close> loop over a container's elements; a throw leaves the loop.\<close>

fun for_each :: "'x list \<Rightarrow> ('x \<Rightarrow> ('w, unit) cpp) \<Rightarrow> ('w, unit) cpp" where
  "for_each [] f = skip"
| "for_each (x # xs) f = andthen (f x) (for_each xs f)"

definition when_do :: "bool \<Rightarrow> ('w, unit) cpp \<Rightarrow> ('w, unit) cpp" where
  "when_do b m = (if b then m else skip)"

named_theorems comp_simps "unfolding of the computation combinators"

lemmas [comp_simps] = ret_def throw_def bnd_def andthen_def gets_def modify_def skip_def
  catch_poco_def when_do_def finally_upd_def

section \<open>Hoare triples\<close>

text \<open>
  \<open>valid P m Q E\<close>: started in a state with \<open>P\<close>, \<open>m\<close> has no undefined behaviour, returns
  only in states with \<open>Q\<close> and throws a \<open>Poco::Exception\<close> only in states with \<open>E\<close>.
\<close>

fun outcome ::
  "('a \<Rightarrow> 'w \<Rightarrow> bool) \<Rightarrow> ('w \<Rightarrow> bool) \<Rightarrow> (exn + 'a) \<times> 'w \<Rightarrow> bool" where
  "outcome Q E (Inr a, w) = Q a w"
| "outcome Q E (Inl (Poco c t n), w) = E w"
| "outcome Q E (Inl (UB t), w) = False"
| "outcome Q E (Inl Diverge, w) = True"

definition valid ::
  "('w \<Rightarrow> bool) \<Rightarrow> ('w, 'a) cpp \<Rightarrow> ('a \<Rightarrow> 'w \<Rightarrow> bool) \<Rightarrow> ('w \<Rightarrow> bool) \<Rightarrow> bool" where
  "valid P m Q E \<longleftrightarrow> (\<forall>w. P w \<longrightarrow> outcome Q E (m w))"

lemma result_cases [case_names Returns Throws Undefined Diverges]:
  obtains a w where "r = (Inr a, w)"
  | c t n w where "r = (Inl (Poco c t n), w)"
  | t w where "r = (Inl (UB t), w)"
  | w where "r = (Inl Diverge, w)"
proof (cases r)
  case (Pair q w)
  with that show thesis by (cases q; cases "projl q") auto
qed

lemma outcome_mono:
  "outcome Q E r \<Longrightarrow> (\<And>a w. Q a w \<Longrightarrow> Q' a w) \<Longrightarrow> (\<And>w. E w \<Longrightarrow> E' w) \<Longrightarrow> outcome Q' E' r"
  by (cases r rule: result_cases) auto

lemma validI: "(\<And>w. P w \<Longrightarrow> outcome Q E (m w)) \<Longrightarrow> valid P m Q E"
  by (simp add: valid_def)

lemma validD: "valid P m Q E \<Longrightarrow> P w \<Longrightarrow> outcome Q E (m w)"
  by (simp add: valid_def)

named_theorems vc "rules of the Hoare calculus"

lemma valid_ret [vc]: "(\<And>w. P w \<Longrightarrow> Q a w) \<Longrightarrow> valid P (ret a) Q E"
  by (simp add: valid_def ret_def)

lemma valid_skip [vc]: "(\<And>w. P w \<Longrightarrow> Q () w) \<Longrightarrow> valid P skip Q E"
  by (simp add: skip_def valid_ret)

lemma valid_throw [vc]: "(\<And>w. P w \<Longrightarrow> E w) \<Longrightarrow> valid P (throw (Poco c t n)) Q E"
  by (simp add: valid_def throw_def)

lemma valid_diverge [vc]: "valid P (throw Diverge) Q E"
  by (simp add: valid_def throw_def)

lemma valid_gets [vc]: "(\<And>w. P w \<Longrightarrow> Q (f w) w) \<Longrightarrow> valid P (gets f) Q E"
  by (simp add: valid_def gets_def)

lemma valid_modify [vc]: "(\<And>w. P w \<Longrightarrow> Q () (f w)) \<Longrightarrow> valid P (modify f) Q E"
  by (simp add: valid_def modify_def)

lemma valid_bnd:
  assumes "valid P m R E" and "\<And>a. valid (R a) (f a) Q E"
  shows "valid P (bnd m f) Q E"
proof (rule validI)
  fix w assume "P w"
  with assms(1) have "outcome R E (m w)" by (rule validD)
  then show "outcome Q E (bnd m f w)"
    by (cases "m w" rule: result_cases) (auto simp: bnd_def validD [OF assms(2)])
qed

lemma valid_andthen:
  "valid P m (\<lambda>_. R) E \<Longrightarrow> valid R k Q E \<Longrightarrow> valid P (andthen m k) Q E"
  unfolding andthen_def by (rule valid_bnd)

lemma valid_pre: "valid P m Q E \<Longrightarrow> (\<And>w. P' w \<Longrightarrow> P w) \<Longrightarrow> valid P' m Q E"
  by (simp add: valid_def)

lemma valid_post:
  assumes "valid P m Q E" and "\<And>a w. Q a w \<Longrightarrow> Q' a w" and "\<And>w. E w \<Longrightarrow> E' w"
  shows "valid P m Q' E'"
  by (rule validI, rule outcome_mono, rule validD [OF assms(1)]) (auto simp: assms)

lemma valid_catch:
  assumes "valid P m Q R" and "\<And>c t n. valid R (h (Poco c t n)) Q E"
  shows "valid P (catch_poco m h) Q E"
proof (rule validI)
  fix w assume "P w"
  with assms(1) have "outcome Q R (m w)" by (rule validD)
  then show "outcome Q E (catch_poco m h w)"
    by (cases "m w" rule: result_cases) (auto simp: catch_poco_def validD [OF assms(2)])
qed

lemma valid_for_each:
  assumes "\<And>x. x \<in> set xs \<Longrightarrow> valid P (f x) (\<lambda>_. P) P"
  shows "valid P (for_each xs f) (\<lambda>_. P) P"
  using assms by (induction xs) (auto intro!: valid_andthen vc)

lemma valid_when_do: "(b \<Longrightarrow> valid P m (\<lambda>_. P) P) \<Longrightarrow> valid P (when_do b m) (\<lambda>_. P) P"
  by (auto simp: when_do_def intro!: vc)

lemma valid_if:
  "(b \<Longrightarrow> valid P m Q E) \<Longrightarrow> (\<not> b \<Longrightarrow> valid P k Q E) \<Longrightarrow> valid P (if b then m else k) Q E"
  by simp

text \<open>
  \<open>keeps P m\<close>: \<open>m\<close> has no undefined behaviour and preserves \<open>P\<close> on every way out.
\<close>

definition keeps :: "('w \<Rightarrow> bool) \<Rightarrow> ('w, 'a) cpp \<Rightarrow> bool" where
  "keeps P m = valid P m (\<lambda>_. P) P"

named_theorems keep "rules for the preservation of an invariant"

lemma keeps_ret [keep]: "keeps P (ret a)"
  by (simp add: keeps_def valid_ret)

lemma keeps_skip [keep]: "keeps P skip"
  by (simp add: keeps_def valid_skip)

lemma keeps_throw [keep]: "keeps P (throw (Poco c t n))"
  by (simp add: keeps_def valid_throw)

lemma keeps_diverge [keep]: "keeps P (throw Diverge)"
  by (simp add: keeps_def valid_diverge)

lemma keeps_gets [keep]: "keeps P (gets f)"
  by (simp add: keeps_def valid_gets)

lemma keeps_modify: "(\<And>w. P w \<Longrightarrow> P (f w)) \<Longrightarrow> keeps P (modify f)"
  by (simp add: keeps_def valid_modify)

lemma keeps_bnd [keep]: "keeps P m \<Longrightarrow> (\<And>a. keeps P (f a)) \<Longrightarrow> keeps P (bnd m f)"
  unfolding keeps_def by (rule valid_bnd)

lemma keeps_andthen [keep]: "keeps P m \<Longrightarrow> keeps P k \<Longrightarrow> keeps P (andthen m k)"
  unfolding keeps_def by (rule valid_andthen)

lemma keeps_catch [keep]: "keeps P m \<Longrightarrow> (\<And>c t n. keeps P (h (Poco c t n))) \<Longrightarrow> keeps P (catch_poco m h)"
  unfolding keeps_def by (rule valid_catch)

lemma keeps_finally [keep]:
  assumes "keeps P m" and "\<And>w. P w \<Longrightarrow> P (g w)"
  shows "keeps P (finally_upd m g)"
  unfolding keeps_def
proof (rule validI)
  fix w assume "P w"
  with assms(1) have "outcome (\<lambda>_. P) P (m w)" unfolding keeps_def by (rule validD)
  with assms(2) show "outcome (\<lambda>_. P) P (finally_upd m g w)"
    by (cases "m w" rule: result_cases) (auto simp: finally_upd_def)
qed

lemma keeps_for_each [keep]: "(\<And>x. x \<in> set xs \<Longrightarrow> keeps P (f x)) \<Longrightarrow> keeps P (for_each xs f)"
  unfolding keeps_def by (rule valid_for_each)

lemma keeps_when_do [keep]: "(b \<Longrightarrow> keeps P m) \<Longrightarrow> keeps P (when_do b m)"
  unfolding keeps_def by (rule valid_when_do)

lemma keeps_if [keep]:
  "(b \<Longrightarrow> keeps P m) \<Longrightarrow> (\<not> b \<Longrightarrow> keeps P k) \<Longrightarrow> keeps P (if b then m else k)"
  by simp

lemma keepsD_UB: "keeps P m \<Longrightarrow> P w \<Longrightarrow> fst (m w) \<noteq> Inl (UB t)"
  unfolding keeps_def by (drule (1) validD) (cases "m w" rule: result_cases; simp)

lemma keepsD: "keeps P m \<Longrightarrow> P w \<Longrightarrow> m w = (r, w') \<Longrightarrow> r \<noteq> Inl Diverge \<Longrightarrow> P w'"
  unfolding keeps_def by (drule (1) validD) (cases "m w" rule: result_cases; auto)

text \<open>\<open>returns P m Q\<close>: started with \<open>P\<close>, \<open>m\<close> returns, in a state with \<open>Q\<close>.\<close>

definition returns :: "('w \<Rightarrow> bool) \<Rightarrow> ('w, 'a) cpp \<Rightarrow> ('a \<Rightarrow> 'w \<Rightarrow> bool) \<Rightarrow> bool" where
  "returns P m Q \<longleftrightarrow> (\<forall>w. P w \<longrightarrow> (\<exists>a w'. m w = (Inr a, w') \<and> Q a w'))"

lemma returnsI: "(\<And>w. P w \<Longrightarrow> \<exists>a w'. m w = (Inr a, w') \<and> Q a w') \<Longrightarrow> returns P m Q"
  by (simp add: returns_def)

lemma returnsE:
  assumes "returns P m Q" and "P w"
  obtains a w' where "m w = (Inr a, w')" "Q a w'"
  using assms unfolding returns_def by blast

lemma returns_valid: "returns P m Q \<Longrightarrow> valid P m Q E"
  unfolding returns_def valid_def by fastforce

lemma returns_pre: "returns P m Q \<Longrightarrow> (\<And>w. P' w \<Longrightarrow> P w) \<Longrightarrow> returns P' m Q"
  unfolding returns_def by blast

lemma returns_skip: "(\<And>w. P w \<Longrightarrow> Q () w) \<Longrightarrow> returns P skip Q"
  by (simp add: returns_def skip_def ret_def)

lemma returns_modify: "(\<And>w. P w \<Longrightarrow> Q () (f w)) \<Longrightarrow> returns P (modify f) Q"
  by (simp add: returns_def modify_def)

lemma returns_andthen:
  assumes "returns P m (\<lambda>_. R)" and "returns R k Q"
  shows "returns P (andthen m k) Q"
proof (rule returnsI)
  fix w assume "P w"
  with assms(1) obtain a w1 where "m w = (Inr a, w1)" "R w1" by (rule returnsE)
  moreover from assms(2) \<open>R w1\<close> obtain b w2 where "k w1 = (Inr b, w2)" "Q b w2" by (rule returnsE)
  ultimately show "\<exists>b w'. andthen m k w = (Inr b, w') \<and> Q b w'" by (simp add: andthen_def bnd_def)
qed

text \<open>\<open>preserves f m\<close>: on every way out the observation \<open>f\<close> of the state is what it was.\<close>

definition preserves :: "('w \<Rightarrow> 'x) \<Rightarrow> ('w, 'a) cpp \<Rightarrow> bool" where
  "preserves f m \<longleftrightarrow> (\<forall>w. f (snd (m w)) = f w)"

named_theorems frame "rules for what a computation leaves alone"

lemma preservesD: "preserves f m \<Longrightarrow> m w = (r, w') \<Longrightarrow> f w' = f w"
  unfolding preserves_def by (metis snd_conv)

lemma preserves_ret [frame]: "preserves f (ret a)"
  by (simp add: preserves_def ret_def)

lemma preserves_skip [frame]: "preserves f skip"
  by (simp add: skip_def preserves_ret)

lemma preserves_throw [frame]: "preserves f (throw e)"
  by (simp add: preserves_def throw_def)

lemma preserves_gets [frame]: "preserves f (gets g)"
  by (simp add: preserves_def gets_def)

lemma preserves_modify: "(\<And>w. f (g w) = f w) \<Longrightarrow> preserves f (modify g)"
  by (simp add: preserves_def modify_def)

lemma preserves_bnd [frame]: "preserves f m \<Longrightarrow> (\<And>a. preserves f (k a)) \<Longrightarrow> preserves f (bnd m k)"
  unfolding preserves_def bnd_def by (auto split: prod.split sum.split) (metis snd_conv)+

lemma preserves_andthen [frame]: "preserves f m \<Longrightarrow> preserves f k \<Longrightarrow> preserves f (andthen m k)"
  unfolding andthen_def by (rule preserves_bnd)

lemma preserves_catch [frame]:
  assumes "preserves f m" and "\<And>e. preserves f (h e)"
  shows "preserves f (catch_poco m h)"
  unfolding preserves_def
proof
  fix w
  show "f (snd (catch_poco m h w)) = f w"
  proof (cases "m w" rule: result_cases)
    case (Throws c t n w')
    have "f w' = f w" by (rule preservesD [OF assms(1) Throws])
    moreover have "f (snd (h (Poco c t n) w')) = f w'" using assms(2) by (simp add: preserves_def)
    ultimately show ?thesis by (simp add: catch_poco_def Throws)
  qed (simp_all add: catch_poco_def preservesD [OF assms(1)])
qed

lemma preserves_finally [frame]:
  assumes "preserves f m" and "\<And>w. f (g w) = f w"
  shows "preserves f (finally_upd m g)"
  using assms preservesD [OF assms(1)] by (auto simp: preserves_def finally_upd_def split: prod.split)

lemma preserves_when_do [frame]: "preserves f m \<Longrightarrow> preserves f (when_do b m)"
  by (simp add: when_do_def preserves_skip)

lemma preserves_if [frame]: "preserves f m \<Longrightarrow> preserves f k \<Longrightarrow> preserves f (if b then m else k)"
  by simp

lemma preserves_for_each [frame]: "(\<And>x. preserves f (k x)) \<Longrightarrow> preserves f (for_each xs k)"
  by (induction xs) (simp_all add: preserves_skip preserves_andthen)

section \<open>Evaluation on a concrete state\<close>

text \<open>
  Rules that run a computation by rewriting, in the order of its statements: the congruence rules
  keep the rest of a computation untouched until the state it starts in is known. \<open>eval\<close> collects
  the rules and \<open>eval_cong\<close> the congruences.
\<close>

definition bnd_on :: "(exn + 'a) \<times> 'w \<Rightarrow> ('a \<Rightarrow> ('w, 'b) cpp) \<Rightarrow> (exn + 'b) \<times> 'w" where
  "bnd_on r f = bnd (\<lambda>_. r) f (snd r)"

definition catch_on :: "(exn + 'a) \<times> 'w \<Rightarrow> (exn \<Rightarrow> ('w, 'a) cpp) \<Rightarrow> (exn + 'a) \<times> 'w" where
  "catch_on r h = catch_poco (\<lambda>_. r) h (snd r)"

definition finally_on :: "(exn + 'a) \<times> 'w \<Rightarrow> ('w \<Rightarrow> 'w) \<Rightarrow> (exn + 'a) \<times> 'w" where
  "finally_on r g = (fst r, g (snd r))"

lemma eval_on: "bnd m f w = bnd_on (m w) f" "andthen m k w = bnd_on (m w) (\<lambda>_. k)"
  "catch_poco m h w = catch_on (m w) h" "finally_upd m g w = finally_on (m w) g"
  by (simp_all add: bnd_on_def catch_on_def finally_on_def comp_simps case_prod_beta)

lemma eval_result: "bnd_on (Inr a, w) f = f a w" "bnd_on (Inl e, w) f = (Inl e, w)"
  "catch_on (Inr a, w) h = (Inr a, w)" "catch_on (Inl (Poco c t n), w) h = h (Poco c t n) w"
  "catch_on (Inl (UB t), w) h = (Inl (UB t), w)" "catch_on (Inl Diverge, w) h = (Inl Diverge, w)"
  "finally_on (r, w) g = (r, g w)"
  by (simp_all add: bnd_on_def catch_on_def finally_on_def comp_simps)

lemma eval_basic: "ret a w = (Inr a, w)" "throw e w = (Inl e, w)" "gets f w = (Inr (f w), w)"
  "modify g w = (Inr (), g w)" "skip w = (Inr (), w)" "when_do b m w = (if b then m w else (Inr (), w))"
  by (simp_all add: comp_simps)

lemmas eval = eval_on eval_result eval_basic

lemma eval_cong:
  "r = r' \<Longrightarrow> bnd_on r f = bnd_on r' f" "r = r' \<Longrightarrow> catch_on r h = catch_on r' h"
  "r = r' \<Longrightarrow> finally_on r g = finally_on r' g" "bnd m f = bnd m f" "andthen m k = andthen m k"
  "catch_poco m h = catch_poco m h" "finally_upd m g = finally_upd m g" "b = b' \<Longrightarrow> when_do b m = when_do b' m"
  by simp_all

section \<open>\<open>std::map\<close>\<close>

text \<open>A \<open>std::map\<close> is the list of its pairs in the order its iterators visit them.\<close>

type_synonym ('k, 'v) omap = "('k \<times> 'v) list"

fun omap_put :: "'k::linorder \<Rightarrow> 'v \<Rightarrow> ('k, 'v) omap \<Rightarrow> ('k, 'v) omap" where
  "omap_put k v [] = [(k, v)]"
| "omap_put k v ((k', v') # m) =
     (if k < k' then (k, v) # (k', v') # m
      else if k = k' then (k, v) # m
      else (k', v') # omap_put k v m)"

definition omap_erase :: "'k \<Rightarrow> ('k, 'v) omap \<Rightarrow> ('k, 'v) omap" where
  "omap_erase k m = filter (\<lambda>p. fst p \<noteq> k) m"

definition omap_ok :: "('k::linorder, 'v) omap \<Rightarrow> bool" where
  "omap_ok m \<longleftrightarrow> sorted_wrt (<) (map fst m)"

lemma omap_ok_Nil [simp]: "omap_ok []"
  by (simp add: omap_ok_def)

lemma keys_put [simp]: "fst ` set (omap_put k v m) = insert k (fst ` set m)"
  by (induction k v m rule: omap_put.induct) auto

lemma get_put_at: "map_of (omap_put k v m) x = (if x = k then Some v else map_of m x)"
  by (induction k v m rule: omap_put.induct) auto

lemma get_put [simp]: "map_of (omap_put k v m) = (map_of m)(k \<mapsto> v)"
  by (rule ext) (simp add: get_put_at)

lemma put_ok [simp]: "omap_ok m \<Longrightarrow> omap_ok (omap_put k v m)"
proof (induction k v m rule: omap_put.induct)
  case (2 k v k' v' m)
  then have "\<forall>x \<in> fst ` set m. k' < x" by (simp add: omap_ok_def)
  moreover from 2 have "k' < k \<Longrightarrow> omap_ok (omap_put k v m)" by (simp add: omap_ok_def)
  ultimately show ?case
    using "2.prems" keys_put [of k v m] by (auto simp: omap_ok_def simp del: keys_put)
qed (simp add: omap_ok_def)

lemma get_erase_at: "map_of (omap_erase k m) x = (if x = k then None else map_of m x)"
  by (induction m) (auto simp: omap_erase_def)

lemma get_erase [simp]: "map_of (omap_erase k m) = (map_of m)(k := None)"
  by (rule ext) (simp add: get_erase_at)

lemma erase_ok [simp]: "omap_ok m \<Longrightarrow> omap_ok (omap_erase k m)"
  unfolding omap_ok_def omap_erase_def sorted_wrt_map by (rule sorted_wrt_filter)

lemma keys_erase [simp]: "fst ` set (omap_erase k m) = fst ` set m - {k}"
  by (auto simp: omap_erase_def)

lemma put_not_Nil [simp]: "omap_put k v m \<noteq> []"
  by (cases m) (auto split: if_splits)

end
