(* ===== verification/Sockets.thy ===== *)
theory Sockets
  imports Prelude
begin

text \<open>
  The sockets of the POCO Net library on Windows: \<open>SocketImpl\<close> and \<open>StreamSocketImpl\<close>
  (\<open>poco/Net/src/SocketImpl.cpp\<close>, \<open>StreamSocketImpl.cpp\<close>). The Winsock calls are a
  parameter: a record of functions that give the outcome of the n-th system call of a run.
\<close>

section \<open>The operating system\<close>

type_synonym poco_socket_t = u64
type_synonym sid = nat

definition POCO_INVALID_SOCKET :: poco_socket_t where
  "POCO_INVALID_SOCKET = - 1"

datatype errno =
    ENOERR | ESYSNOTREADY | ENOTINIT | EINTR | EACCES | EFAULT | EINVAL | EMFILE | EWOULDBLOCK
  | EINPROGRESS | EALREADY | ENOTSOCK | EDESTADDRREQ | EMSGSIZE | EPROTOTYPE | ENOPROTOOPT
  | EPROTONOSUPPORT | ESOCKTNOSUPPORT | ENOTSUP | EPFNOSUPPORT | EAFNOSUPPORT | EADDRINUSE
  | EADDRNOTAVAIL | ENETDOWN | ENETUNREACH | ENETRESET | ECONNABORTED | ECONNRESET | ENOBUFS
  | EISCONN | ENOTCONN | ESHUTDOWN | ETIMEDOUT | ECONNREFUSED | EHOSTDOWN | EHOSTUNREACH
  | EOTHER int

text \<open>On Windows \<open>POCO_EAGAIN\<close> and \<open>POCO_EWOULDBLOCK\<close> are one code.\<close>

abbreviation EAGAIN :: errno where
  "EAGAIN \<equiv> EWOULDBLOCK"

datatype 'a sysres = Ok 'a | Err errno

text \<open>A \<open>SocketAddress\<close>: the text of its host and its port.\<close>

record addr =
  a_host :: string
  a_port :: u16

definition addr_toString :: "addr \<Rightarrow> string" where
  "addr_toString a = a_host a @ '':'' @ dec_nat (unat (a_port a))"

text \<open>
  A \<open>pollfd\<close> and the flag values of \<open>winsock2.h\<close>.
\<close>

record pollfd =
  pfd_fd :: poco_socket_t
  pfd_events :: u16
  pfd_revents :: u16

definition POLLIN :: u16 where "POLLIN = 0x300"
definition POLLOUT :: u16 where "POLLOUT = 0x10"
definition POLLERR :: u16 where "POLLERR = 0x1"
definition POLLHUP :: u16 where "POLLHUP = 0x2"

lemmas poll_flags = POLLIN_def POLLOUT_def POLLERR_def POLLHUP_def

record os =
  os_recv :: "nat \<Rightarrow> poco_socket_t \<Rightarrow> nat \<Rightarrow> byte_seq sysres"
  os_send :: "nat \<Rightarrow> poco_socket_t \<Rightarrow> byte_seq \<Rightarrow> nat sysres"
  os_accept :: "nat \<Rightarrow> poco_socket_t \<Rightarrow> poco_socket_t sysres"
  os_socket :: "nat \<Rightarrow> poco_socket_t sysres"
  os_connect :: "nat \<Rightarrow> poco_socket_t \<Rightarrow> addr \<Rightarrow> unit sysres"
  os_bind :: "nat \<Rightarrow> poco_socket_t \<Rightarrow> addr \<Rightarrow> unit sysres"
  os_listen :: "nat \<Rightarrow> poco_socket_t \<Rightarrow> int \<Rightarrow> unit sysres"
  os_shutdown :: "nat \<Rightarrow> poco_socket_t \<Rightarrow> int \<Rightarrow> unit sysres"
  os_ioctl :: "nat \<Rightarrow> poco_socket_t \<Rightarrow> unit sysres"
  os_setsockopt :: "nat \<Rightarrow> poco_socket_t \<Rightarrow> unit sysres"
  os_getsockopt :: "nat \<Rightarrow> poco_socket_t \<Rightarrow> errno sysres"
  os_peername :: "nat \<Rightarrow> poco_socket_t \<Rightarrow> addr sysres"
  os_sockname :: "nat \<Rightarrow> poco_socket_t \<Rightarrow> addr sysres"
  os_poll :: "nat \<Rightarrow> (poco_socket_t \<times> u16) list \<Rightarrow> int \<Rightarrow> (int \<times> u16 list) sysres"
  os_waited :: "nat \<Rightarrow> int"
  os_version :: "(nat \<times> nat) option"
  os_fuel :: nat

section \<open>State\<close>

text \<open>
  Socket objects live in a heap: a \<open>Socket\<close> is a handle, the index of its \<open>SocketImpl\<close>.
  \<open>wire\<close> is the history of the bytes the system accepted and delivered and of the
  descriptors closed; \<open>clk\<close> counts system calls.
\<close>

record socket_impl =
  sockfd :: poco_socket_t
  blocking :: bool
  isBrokenTimeout :: bool
  recvTimeout :: int
  sndTimeout :: int

datatype io_event = Sent sid byte_seq | Received sid byte_seq | ClosedFd poco_socket_t

record sock_world =
  clk :: nat
  nsock :: nat
  socks :: "nat \<Rightarrow> socket_impl"
  wire :: "io_event list"

definition syscall :: "(nat \<Rightarrow> 'r) \<Rightarrow> ('a sock_world_scheme, 'r) cpp" where
  "syscall f = (\<lambda>w. (Inr (f (clk w)), w\<lparr>clk := Suc (clk w)\<rparr>))"

definition record_io :: "io_event \<Rightarrow> ('a sock_world_scheme, unit) cpp" where
  "record_io e = modify (\<lambda>w. w\<lparr>wire := wire w @ [e]\<rparr>)"

definition upd_sock :: "sid \<Rightarrow> (socket_impl \<Rightarrow> socket_impl) \<Rightarrow> ('a sock_world_scheme, unit) cpp" where
  "upd_sock s f = modify (\<lambda>w. w\<lparr>socks := (socks w)(s := f (socks w s))\<rparr>)"

fun sent_bytes :: "sid \<Rightarrow> io_event list \<Rightarrow> byte_seq" where
  "sent_bytes s [] = []"
| "sent_bytes s (Sent s' bs # es) = (if s = s' then bs @ sent_bytes s es else sent_bytes s es)"
| "sent_bytes s (_ # es) = sent_bytes s es"

fun received_bytes :: "sid \<Rightarrow> io_event list \<Rightarrow> byte_seq" where
  "received_bytes s [] = []"
| "received_bytes s (Received s' bs # es) =
     (if s = s' then bs @ received_bytes s es else received_bytes s es)"
| "received_bytes s (_ # es) = received_bytes s es"

lemma sent_bytes_append [simp]: "sent_bytes s (xs @ ys) = sent_bytes s xs @ sent_bytes s ys"
  by (induction s xs rule: sent_bytes.induct) auto

lemma received_bytes_append [simp]:
  "received_bytes s (xs @ ys) = received_bytes s xs @ received_bytes s ys"
  by (induction s xs rule: received_bytes.induct) auto

section \<open>Errors: \<open>SocketImpl::error\<close>\<close>

definition withArg :: "string \<Rightarrow> string \<Rightarrow> string" where
  "withArg msg arg = (if arg = [] then msg else msg @ '': '' @ arg)"

fun wsa_code :: "errno \<Rightarrow> int" where
  "wsa_code ENOERR = 0"
| "wsa_code EINTR = 10004"
| "wsa_code EACCES = 10013"
| "wsa_code EFAULT = 10014"
| "wsa_code EINVAL = 10022"
| "wsa_code EMFILE = 10024"
| "wsa_code EWOULDBLOCK = 10035"
| "wsa_code EINPROGRESS = 10036"
| "wsa_code EALREADY = 10037"
| "wsa_code ENOTSOCK = 10038"
| "wsa_code EDESTADDRREQ = 10039"
| "wsa_code EMSGSIZE = 10040"
| "wsa_code EPROTOTYPE = 10041"
| "wsa_code ENOPROTOOPT = 10042"
| "wsa_code EPROTONOSUPPORT = 10043"
| "wsa_code ESOCKTNOSUPPORT = 10044"
| "wsa_code ENOTSUP = 10045"
| "wsa_code EPFNOSUPPORT = 10046"
| "wsa_code EAFNOSUPPORT = 10047"
| "wsa_code EADDRINUSE = 10048"
| "wsa_code EADDRNOTAVAIL = 10049"
| "wsa_code ENETDOWN = 10050"
| "wsa_code ENETUNREACH = 10051"
| "wsa_code ENETRESET = 10052"
| "wsa_code ECONNABORTED = 10053"
| "wsa_code ECONNRESET = 10054"
| "wsa_code ENOBUFS = 10055"
| "wsa_code EISCONN = 10056"
| "wsa_code ENOTCONN = 10057"
| "wsa_code ESHUTDOWN = 10058"
| "wsa_code ETIMEDOUT = 10060"
| "wsa_code ECONNREFUSED = 10061"
| "wsa_code EHOSTDOWN = 10064"
| "wsa_code EHOSTUNREACH = 10065"
| "wsa_code ESYSNOTREADY = 10091"
| "wsa_code ENOTINIT = 10093"
| "wsa_code (EOTHER n) = n"

text \<open>The exception \<open>error\<close> throws for a code; \<open>None\<close> where it returns.\<close>

definition error_exn :: "errno \<Rightarrow> string \<Rightarrow> exn option" where
  "error_exn code arg =
    (let c = wsa_code code in
     case code of
       ENOERR \<Rightarrow> None
     | ESYSNOTREADY \<Rightarrow> Some (Poco NetException ''Net subsystem not ready'' c)
     | ENOTINIT \<Rightarrow> Some (Poco NetException ''Net subsystem not initialized'' c)
     | EINTR \<Rightarrow> Some (Poco IOException ''Interrupted'' c)
     | EACCES \<Rightarrow> Some (Poco IOException ''Permission denied'' c)
     | EFAULT \<Rightarrow> Some (Poco IOException ''Bad address'' c)
     | EINVAL \<Rightarrow> Some (Poco InvalidArgumentException [] c)
     | EMFILE \<Rightarrow> Some (Poco IOException ''Too many open files'' c)
     | EWOULDBLOCK \<Rightarrow> Some (Poco IOException ''Operation would block'' c)
     | EINPROGRESS \<Rightarrow> Some (Poco IOException ''Operation now in progress'' c)
     | EALREADY \<Rightarrow> Some (Poco IOException ''Operation already in progress'' c)
     | ENOTSOCK \<Rightarrow> Some (Poco IOException ''Socket operation attempted on non-socket'' c)
     | EDESTADDRREQ \<Rightarrow> Some (Poco NetException ''Destination address required'' c)
     | EMSGSIZE \<Rightarrow> Some (Poco NetException ''Message too long'' c)
     | EPROTOTYPE \<Rightarrow> Some (Poco NetException ''Wrong protocol type'' c)
     | ENOPROTOOPT \<Rightarrow> Some (Poco NetException ''Protocol not available'' c)
     | EPROTONOSUPPORT \<Rightarrow> Some (Poco NetException ''Protocol not supported'' c)
     | ESOCKTNOSUPPORT \<Rightarrow> Some (Poco NetException ''Socket type not supported'' c)
     | ENOTSUP \<Rightarrow> Some (Poco NetException ''Operation not supported'' c)
     | EPFNOSUPPORT \<Rightarrow> Some (Poco NetException ''Protocol family not supported'' c)
     | EAFNOSUPPORT \<Rightarrow> Some (Poco NetException ''Address family not supported'' c)
     | EADDRINUSE \<Rightarrow> Some (Poco NetException (withArg ''Address already in use'' arg) c)
     | EADDRNOTAVAIL \<Rightarrow>
         Some (Poco NetException (withArg ''Cannot assign requested address'' arg) c)
     | ENETDOWN \<Rightarrow> Some (Poco NetException ''Network is down'' c)
     | ENETUNREACH \<Rightarrow> Some (Poco NetException ''Network is unreachable'' c)
     | ENETRESET \<Rightarrow> Some (Poco NetException ''Network dropped connection on reset'' c)
     | ECONNABORTED \<Rightarrow> Some (Poco ConnectionAbortedException [] c)
     | ECONNRESET \<Rightarrow> Some (Poco ConnectionResetException [] c)
     | ENOBUFS \<Rightarrow> Some (Poco IOException ''No buffer space available'' c)
     | EISCONN \<Rightarrow> Some (Poco NetException ''Socket is already connected'' c)
     | ENOTCONN \<Rightarrow> Some (Poco NetException ''Socket is not connected'' c)
     | ESHUTDOWN \<Rightarrow> Some (Poco NetException ''Cannot send after socket shutdown'' c)
     | ETIMEDOUT \<Rightarrow> Some (Poco TimeoutException [] c)
     | ECONNREFUSED \<Rightarrow> Some (Poco ConnectionRefusedException arg c)
     | EHOSTDOWN \<Rightarrow> Some (Poco NetException (withArg ''Host is down'' arg) c)
     | EHOSTUNREACH \<Rightarrow> Some (Poco NetException (withArg ''No route to host'' arg) c)
     | EOTHER n \<Rightarrow> Some (Poco IOException (withArg (dec_int n) arg) c))"

definition SocketImpl_error :: "errno \<Rightarrow> string \<Rightarrow> ('w, unit) cpp" where
  "SocketImpl_error code arg =
     (case error_exn code arg of None \<Rightarrow> skip | Some e \<Rightarrow> throw e)"

lemma error_exn_Poco: "error_exn code arg = Some e \<Longrightarrow> \<exists>c t n. e = Poco c t n"
  by (cases code) (auto simp: error_exn_def)

lemma error_exn_code: "code \<noteq> ENOERR \<Longrightarrow> \<exists>c t. error_exn code arg = Some (Poco c t (wsa_code code))"
  by (cases code) (auto simp: error_exn_def)

text \<open>
  After \<open>error()\<close> the callers fall through to their \<open>return\<close>: with a failing call whose
  \<open>lastError()\<close> is 0 they return the call's result code.
\<close>

definition check :: "'a \<Rightarrow> 'a sysres \<Rightarrow> string \<Rightarrow> ('w, 'a) cpp" where
  "check d r arg =
     (case r of Ok a \<Rightarrow> ret a | Err e \<Rightarrow> andthen (SocketImpl_error e arg) (ret d))"

definition invalidSocket :: exn where
  "invalidSocket = Poco InvalidSocketException [] 0"

definition guard_fd :: "sid \<Rightarrow> (poco_socket_t \<Rightarrow> ('a sock_world_scheme, 'b) cpp)
    \<Rightarrow> ('a sock_world_scheme, 'b) cpp" where
  "guard_fd s f = bnd (gets (\<lambda>w. sockfd (socks w s)))
     (\<lambda>fd. if fd = POCO_INVALID_SOCKET then throw invalidSocket else f fd)"

section \<open>A system for examples\<close>

text \<open>
  A system in which every call succeeds: \<open>send\<close> accepts at most three bytes, \<open>recv\<close> delivers
  five, \<open>poll\<close> reports every descriptor readable and writable. Examples override its fields.
\<close>

definition sample_addr :: addr where
  "sample_addr = \<lparr>a_host = ''10.0.0.1'', a_port = 4242\<rparr>"

definition sample_os :: os where
  "sample_os = \<lparr>os_recv = \<lambda>_ _ l. Ok (take l [1, 2, 3, 4, 5]), os_send = \<lambda>_ _ b. Ok (min 3 (length b)),
     os_accept = \<lambda>n _. Ok (of_nat (n + 1)), os_socket = \<lambda>n. Ok (of_nat (n + 1)),
     os_connect = \<lambda>_ _ _. Err EWOULDBLOCK, os_bind = \<lambda>_ _ _. Ok (), os_listen = \<lambda>_ _ _. Ok (),
     os_shutdown = \<lambda>_ _ _. Ok (), os_ioctl = \<lambda>_ _. Ok (), os_setsockopt = \<lambda>_ _. Ok (),
     os_getsockopt = \<lambda>_ _. Ok ENOERR, os_peername = \<lambda>_ _. Ok sample_addr,
     os_sockname = \<lambda>_ _. Ok sample_addr,
     os_poll = \<lambda>_ fds _. Ok (int (length fds), map (\<lambda>_. POLLIN OR POLLOUT) fds),
     os_waited = \<lambda>_. 100000, os_version = Some (10, 0), os_fuel = 10\<rparr>"

definition sample_sock :: socket_impl where
  "sample_sock = \<lparr>sockfd = 7, blocking = True, isBrokenTimeout = False, recvTimeout = 0, sndTimeout = 0\<rparr>"

definition sample_sock_world :: sock_world where
  "sample_sock_world = \<lparr>clk = 0, nsock = 2, socks = (\<lambda>_. sample_sock), wire = []\<rparr>"

end
