(* ===== verification/Socket_Impl.thy ===== *)
theory Socket_Impl
  imports Sockets
begin

text \<open>
  The operations of \<open>SocketImpl\<close> and \<open>StreamSocketImpl\<close>, one definition per member
  function. A loop that retries an interrupted call, and the send loop, run on fuel
  (\<open>os_fuel\<close>); \<open>Diverge\<close> is a loop that has not ended by then.
\<close>

section \<open>Construction and destruction\<close>

definition checkIsBrokenTimeout :: "os \<Rightarrow> bool" where
  "checkIsBrokenTimeout S = (case os_version S of
      None \<Rightarrow> True
    | Some (major, minor) \<Rightarrow> major < 6 \<or> (major = 6 \<and> minor < 2))"

definition new_socket_impl :: "os \<Rightarrow> poco_socket_t \<Rightarrow> socket_impl" where
  "new_socket_impl S fd = \<lparr>sockfd = fd, blocking = True,
     isBrokenTimeout = checkIsBrokenTimeout S, recvTimeout = 0, sndTimeout = 0\<rparr>"

definition alloc_socket :: "os \<Rightarrow> poco_socket_t \<Rightarrow> ('a sock_world_scheme, sid) cpp" where
  "alloc_socket S fd = bnd (gets nsock) (\<lambda>s.
     andthen (modify (\<lambda>w. w\<lparr>nsock := Suc s, socks := (socks w)(s := new_socket_impl S fd)\<rparr>))
     (ret s))"

definition SocketImpl_close :: "sid \<Rightarrow> ('a sock_world_scheme, unit) cpp" where
  "SocketImpl_close s = bnd (gets (\<lambda>w. sockfd (socks w s))) (\<lambda>fd.
     when_do (fd \<noteq> POCO_INVALID_SOCKET)
       (andthen (record_io (ClosedFd fd))
                (upd_sock s (\<lambda>i. i\<lparr>sockfd := POCO_INVALID_SOCKET\<rparr>))))"

section \<open>Options\<close>

definition SocketImpl_setRawOption :: "os \<Rightarrow> sid \<Rightarrow> ('a sock_world_scheme, unit) cpp" where
  "SocketImpl_setRawOption S s = guard_fd s (\<lambda>fd.
     bnd (syscall (\<lambda>n. os_setsockopt S n fd)) (\<lambda>r. check () r []))"

definition SocketImpl_socketError :: "os \<Rightarrow> sid \<Rightarrow> ('a sock_world_scheme, errno) cpp" where
  "SocketImpl_socketError S s = guard_fd s (\<lambda>fd.
     bnd (syscall (\<lambda>n. os_getsockopt S n fd)) (\<lambda>r. check ENOERR r []))"

definition SocketImpl_ioctl :: "os \<Rightarrow> sid \<Rightarrow> ('a sock_world_scheme, unit) cpp" where
  "SocketImpl_ioctl S s = bnd (gets (\<lambda>w. sockfd (socks w s))) (\<lambda>fd.
     bnd (syscall (\<lambda>n. os_ioctl S n fd)) (\<lambda>r. check () r []))"

definition SocketImpl_setBlocking :: "os \<Rightarrow> sid \<Rightarrow> bool \<Rightarrow> ('a sock_world_scheme, unit) cpp" where
  "SocketImpl_setBlocking S s flag =
     andthen (SocketImpl_ioctl S s) (upd_sock s (\<lambda>i. i\<lparr>blocking := flag\<rparr>))"

definition SocketImpl_initSocket :: "os \<Rightarrow> sid \<Rightarrow> ('a sock_world_scheme, unit) cpp" where
  "SocketImpl_initSocket S s = bnd (syscall (os_socket S)) (\<lambda>r. case r of
      Ok fd \<Rightarrow> upd_sock s (\<lambda>i. i\<lparr>sockfd := fd\<rparr>)
    | Err e \<Rightarrow> andthen (upd_sock s (\<lambda>i. i\<lparr>sockfd := POCO_INVALID_SOCKET\<rparr>)) (SocketImpl_error e []))"

definition ensure_init :: "os \<Rightarrow> sid \<Rightarrow> ('a sock_world_scheme, unit) cpp" where
  "ensure_init S s = bnd (gets (\<lambda>w. sockfd (socks w s))) (\<lambda>fd.
     when_do (fd = POCO_INVALID_SOCKET) (SocketImpl_initSocket S s))"

section \<open>Polling one socket\<close>

text \<open>\<open>remainingTime\<close> after an interrupted wait of \<open>waited\<close> microseconds.\<close>

definition remaining_after :: "int \<Rightarrow> int \<Rightarrow> int" where
  "remaining_after remaining waited = (if waited < remaining then remaining - waited else 0)"

definition SELECT_READ :: nat where "SELECT_READ = 1"
definition SELECT_WRITE :: nat where "SELECT_WRITE = 2"
definition SELECT_ERROR :: nat where "SELECT_ERROR = 4"

lemmas select_modes = SELECT_READ_def SELECT_WRITE_def SELECT_ERROR_def

definition poll_events :: "nat \<Rightarrow> u16" where
  "poll_events mode =
     (if mode AND SELECT_READ \<noteq> 0 then POLLIN else 0)
     OR (if mode AND SELECT_WRITE \<noteq> 0 then POLLOUT else 0)"

fun poll_loop ::
  "nat \<Rightarrow> os \<Rightarrow> poco_socket_t \<Rightarrow> u16 \<Rightarrow> int \<Rightarrow> ('a sock_world_scheme, int sysres) cpp" where
  "poll_loop 0 S fd events remaining = throw Diverge"
| "poll_loop (Suc k) S fd events remaining =
     bnd (gets clk) (\<lambda>n.
     bnd (syscall (\<lambda>n. os_poll S n [(fd, events)] (to_int32 (cdiv remaining 1000)))) (\<lambda>r.
     case r of
       Ok p \<Rightarrow> ret (Ok (fst p))
     | Err e \<Rightarrow> if e = EINTR then poll_loop k S fd events (remaining_after remaining (os_waited S n))
               else ret (Err e)))"

definition SocketImpl_poll :: "os \<Rightarrow> sid \<Rightarrow> int \<Rightarrow> nat \<Rightarrow> ('a sock_world_scheme, bool) cpp" where
  "SocketImpl_poll S s timeout mode = guard_fd s (\<lambda>fd.
     bnd (poll_loop (os_fuel S) S fd (poll_events mode) timeout) (\<lambda>r.
     bnd (check 0 r []) (\<lambda>rc. ret (0 < rc))))"

definition SocketImpl_checkBrokenTimeout ::
  "os \<Rightarrow> sid \<Rightarrow> nat \<Rightarrow> ('a sock_world_scheme, unit) cpp" where
  "SocketImpl_checkBrokenTimeout S s mode = bnd (gets (\<lambda>w. socks w s)) (\<lambda>i.
     when_do (isBrokenTimeout i)
       (let timeout = (if mode = SELECT_READ then recvTimeout i else sndTimeout i)
        in when_do (timeout \<noteq> 0)
             (bnd (SocketImpl_poll S s timeout mode) (\<lambda>ready.
              if ready then skip else throw (Poco TimeoutException [] 0)))))"

section \<open>Connecting, binding, accepting\<close>

fun connect_loop :: "nat \<Rightarrow> os \<Rightarrow> poco_socket_t \<Rightarrow> addr \<Rightarrow> ('a sock_world_scheme, unit sysres) cpp" where
  "connect_loop 0 S fd a = throw Diverge"
| "connect_loop (Suc k) S fd a = bnd (syscall (\<lambda>n. os_connect S n fd a)) (\<lambda>r.
     if r = Err EINTR then connect_loop k S fd a else ret r)"

definition SocketImpl_connect :: "os \<Rightarrow> sid \<Rightarrow> addr \<Rightarrow> ('a sock_world_scheme, unit) cpp" where
  "SocketImpl_connect S s a = andthen (ensure_init S s)
     (bnd (gets (\<lambda>w. sockfd (socks w s))) (\<lambda>fd.
      bnd (connect_loop (os_fuel S) S fd a) (\<lambda>r. check () r (addr_toString a))))"

definition SocketImpl_connect_timeout ::
  "os \<Rightarrow> sid \<Rightarrow> addr \<Rightarrow> int \<Rightarrow> ('a sock_world_scheme, unit) cpp" where
  "SocketImpl_connect_timeout S s a timeout =
     andthen (ensure_init S s)
     (andthen (SocketImpl_setBlocking S s False)
     (andthen (catch_poco
        (bnd (gets (\<lambda>w. sockfd (socks w s))) (\<lambda>fd.
         bnd (syscall (\<lambda>n. os_connect S n fd a)) (\<lambda>r. case r of
            Ok _ \<Rightarrow> skip
          | Err e \<Rightarrow>
              andthen (when_do (e \<noteq> EINPROGRESS \<and> e \<noteq> EWOULDBLOCK)
                         (SocketImpl_error e (addr_toString a)))
              (bnd (SocketImpl_poll S s timeout (SELECT_READ OR SELECT_WRITE OR SELECT_ERROR)) (\<lambda>ready.
               andthen (when_do (\<not> ready)
                  (throw (Poco TimeoutException (withArg ''connect timed out'' (addr_toString a)) 0)))
               (bnd (SocketImpl_socketError S s) (\<lambda>e.
                  when_do (e \<noteq> ENOERR) (SocketImpl_error e []))))))))
        (\<lambda>e. andthen (SocketImpl_setBlocking S s True) (throw e)))
     (SocketImpl_setBlocking S s True)))"

definition SocketImpl_connectNB :: "os \<Rightarrow> sid \<Rightarrow> addr \<Rightarrow> ('a sock_world_scheme, unit) cpp" where
  "SocketImpl_connectNB S s a =
     andthen (ensure_init S s)
     (andthen (SocketImpl_setBlocking S s False)
     (bnd (gets (\<lambda>w. sockfd (socks w s))) (\<lambda>fd.
      bnd (syscall (\<lambda>n. os_connect S n fd a)) (\<lambda>r. case r of
         Ok _ \<Rightarrow> skip
       | Err e \<Rightarrow> when_do (e \<noteq> EINPROGRESS \<and> e \<noteq> EWOULDBLOCK)
                    (SocketImpl_error e (addr_toString a))))))"

text \<open>\<open>setReusePort\<close> does nothing on Windows, where \<open>SO_REUSEPORT\<close> is not defined.\<close>

definition SocketImpl_bind :: "os \<Rightarrow> sid \<Rightarrow> addr \<Rightarrow> bool \<Rightarrow> ('a sock_world_scheme, unit) cpp" where
  "SocketImpl_bind S s a reuseAddress =
     andthen (ensure_init S s)
     (andthen (when_do reuseAddress (SocketImpl_setRawOption S s))
     (bnd (gets (\<lambda>w. sockfd (socks w s))) (\<lambda>fd.
      bnd (syscall (\<lambda>n. os_bind S n fd a)) (\<lambda>r. check () r (addr_toString a)))))"

definition SocketImpl_listen :: "os \<Rightarrow> sid \<Rightarrow> int \<Rightarrow> ('a sock_world_scheme, unit) cpp" where
  "SocketImpl_listen S s backlog = guard_fd s (\<lambda>fd.
     bnd (syscall (\<lambda>n. os_listen S n fd backlog)) (\<lambda>r. check () r []))"

fun accept_loop :: "nat \<Rightarrow> os \<Rightarrow> poco_socket_t \<Rightarrow> ('a sock_world_scheme, poco_socket_t sysres) cpp" where
  "accept_loop 0 S fd = throw Diverge"
| "accept_loop (Suc k) S fd = bnd (syscall (\<lambda>n. os_accept S n fd)) (\<lambda>r.
     if r = Err EINTR then accept_loop k S fd else ret r)"

text \<open>
  The null pointer \<open>acceptConnection\<close> would return after an \<open>error()\<close> that does not throw
  reaches \<open>Socket\<close>'s constructor, whose \<open>poco_check_ptr\<close> throws.
\<close>

definition SocketImpl_acceptConnection :: "os \<Rightarrow> sid \<Rightarrow> ('a sock_world_scheme, sid) cpp" where
  "SocketImpl_acceptConnection S s = guard_fd s (\<lambda>fd.
     bnd (accept_loop (os_fuel S) S fd) (\<lambda>r. case r of
        Ok sd \<Rightarrow> alloc_socket S sd
      | Err e \<Rightarrow> andthen (SocketImpl_error e []) (throw (Poco InvalidArgumentException ''null'' 0))))"

definition SocketImpl_shutdown :: "os \<Rightarrow> sid \<Rightarrow> int \<Rightarrow> ('a sock_world_scheme, unit) cpp" where
  "SocketImpl_shutdown S s how = guard_fd s (\<lambda>fd.
     bnd (syscall (\<lambda>n. os_shutdown S n fd how)) (\<lambda>r. check () r []))"

definition SocketImpl_peerAddress :: "os \<Rightarrow> sid \<Rightarrow> ('a sock_world_scheme, addr) cpp" where
  "SocketImpl_peerAddress S s = guard_fd s (\<lambda>fd.
     bnd (syscall (\<lambda>n. os_peername S n fd)) (\<lambda>r. check \<lparr>a_host = [], a_port = 0\<rparr> r []))"

definition SocketImpl_address :: "os \<Rightarrow> sid \<Rightarrow> ('a sock_world_scheme, addr) cpp" where
  "SocketImpl_address S s = guard_fd s (\<lambda>fd.
     bnd (syscall (\<lambda>n. os_sockname S n fd)) (\<lambda>r. check \<lparr>a_host = [], a_port = 0\<rparr> r []))"

section \<open>Sending and receiving\<close>

text \<open>
  \<open>rc = ::send(...)\<close>, retried while a blocking socket is interrupted. What the system
  accepted goes to the wire.
\<close>

fun send_loop :: "nat \<Rightarrow> os \<Rightarrow> sid \<Rightarrow> byte_seq \<Rightarrow> ('a sock_world_scheme, nat sysres) cpp" where
  "send_loop 0 S s buffer = throw Diverge"
| "send_loop (Suc k) S s buffer = guard_fd s (\<lambda>fd.
     bnd (gets (\<lambda>w. blocking (socks w s))) (\<lambda>block.
     bnd (syscall (\<lambda>n. os_send S n fd buffer)) (\<lambda>r. case r of
        Ok n \<Rightarrow> andthen (record_io (Sent s (take n buffer))) (ret r)
      | Err e \<Rightarrow> if block \<and> e = EINTR then send_loop k S s buffer else ret r)))"

definition SocketImpl_sendBytes :: "os \<Rightarrow> sid \<Rightarrow> byte_seq \<Rightarrow> ('a sock_world_scheme, int) cpp" where
  "SocketImpl_sendBytes S s buffer =
     andthen (SocketImpl_checkBrokenTimeout S s SELECT_WRITE)
     (bnd (send_loop (os_fuel S) S s buffer) (\<lambda>r. case r of
        Ok n \<Rightarrow> ret (int n)
      | Err e \<Rightarrow> andthen (SocketImpl_error e []) (ret (- 1))))"

fun recv_loop :: "nat \<Rightarrow> os \<Rightarrow> sid \<Rightarrow> nat \<Rightarrow> ('a sock_world_scheme, byte_seq sysres) cpp" where
  "recv_loop 0 S s len = throw Diverge"
| "recv_loop (Suc k) S s len = guard_fd s (\<lambda>fd.
     bnd (gets (\<lambda>w. blocking (socks w s))) (\<lambda>block.
     bnd (syscall (\<lambda>n. os_recv S n fd len)) (\<lambda>r. case r of
        Ok bs \<Rightarrow> andthen (record_io (Received s bs)) (ret r)
      | Err e \<Rightarrow> if block \<and> e = EINTR then recv_loop k S s len else ret r)))"

text \<open>
  The result is \<open>rc\<close> and the bytes now in the buffer. A would-block result of a non-blocking
  socket is returned as \<open>- 1\<close>, not thrown.
\<close>

definition SocketImpl_receiveBytes ::
  "os \<Rightarrow> sid \<Rightarrow> nat \<Rightarrow> ('a sock_world_scheme, int \<times> byte_seq) cpp" where
  "SocketImpl_receiveBytes S s len =
     andthen (SocketImpl_checkBrokenTimeout S s SELECT_READ)
     (bnd (recv_loop (os_fuel S) S s len) (\<lambda>r. case r of
        Ok bs \<Rightarrow> ret (int (length bs), bs)
      | Err e \<Rightarrow> bnd (gets (\<lambda>w. blocking (socks w s))) (\<lambda>block.
          if e = EAGAIN \<and> \<not> block then ret (- 1, [])
          else if e = EAGAIN \<or> e = ETIMEDOUT then throw (Poco TimeoutException [] (wsa_code e))
          else andthen (SocketImpl_error e []) (ret (- 1, [])))))"

section \<open>\<open>StreamSocketImpl::sendBytes\<close>\<close>

text \<open>
  \<open>p\<close> is the rest of the buffer. In a release build \<open>poco_assert_dbg (n >= 0)\<close> is nothing;
  \<open>n\<close> is negative only when \<open>send\<close> failed with \<open>lastError() = 0\<close>, and then the pointer
  \<open>p += n\<close> leaves the buffer.
\<close>

fun stream_send_loop ::
  "nat \<Rightarrow> os \<Rightarrow> sid \<Rightarrow> bool \<Rightarrow> byte_seq \<Rightarrow> int \<Rightarrow> ('a sock_world_scheme, int) cpp" where
  "stream_send_loop 0 S s block p sent = throw Diverge"
| "stream_send_loop (Suc k) S s block p sent =
     (if p = [] then ret sent
      else bnd (SocketImpl_sendBytes S s p) (\<lambda>n.
        if n < 0 then (if block then throw (UB ''sendBytes: p before the buffer'') else ret (sent + n))
        else let p' = drop (nat n) p in
          if block \<and> p' \<noteq> [] then stream_send_loop k S s block p' (sent + n)
          else ret (sent + n)))"

definition StreamSocketImpl_sendBytes ::
  "os \<Rightarrow> sid \<Rightarrow> byte_seq \<Rightarrow> ('a sock_world_scheme, int) cpp" where
  "StreamSocketImpl_sendBytes S s buffer =
     bnd (gets (\<lambda>w. blocking (socks w s))) (\<lambda>block.
     stream_send_loop (os_fuel S) S s block buffer 0)"

section \<open>\<open>ServerSocket\<close>\<close>

definition wildcard_addr :: "u16 \<Rightarrow> addr" where
  "wildcard_addr port = \<lparr>a_host = ''0.0.0.0'', a_port = port\<rparr>"

text \<open>A failed \<open>bind\<close> or \<open>listen\<close> throws out of the constructor: the socket is destroyed, so closed.\<close>

definition ServerSocket_ctor :: "os \<Rightarrow> u16 \<Rightarrow> int \<Rightarrow> ('a sock_world_scheme, sid) cpp" where
  "ServerSocket_ctor S port backlog =
     bnd (alloc_socket S POCO_INVALID_SOCKET) (\<lambda>s.
     andthen (catch_poco
        (andthen (SocketImpl_bind S s (wildcard_addr port) True) (SocketImpl_listen S s backlog))
        (\<lambda>e. andthen (SocketImpl_close s) (throw e)))
     (ret s))"

section \<open>Frame: what the operations leave alone\<close>

text \<open>
  \<open>sock_stable P\<close>: \<open>P\<close> does not depend on the system call counter, the sockets' contents or
  the history, and survives the allocation of sockets.
\<close>

definition sock_stable :: "('a sock_world_scheme \<Rightarrow> bool) \<Rightarrow> bool" where
  "sock_stable P \<longleftrightarrow> (\<forall>w c n f t. P w \<longrightarrow> nsock w \<le> n \<longrightarrow>
     P (w\<lparr>clk := c, nsock := n, socks := f, wire := t\<rparr>))"

lemma sock_stableD:
  "sock_stable P \<Longrightarrow> P w \<Longrightarrow> nsock w \<le> n \<Longrightarrow> P (w\<lparr>clk := c, nsock := n, socks := f, wire := t\<rparr>)"
  by (simp add: sock_stable_def)

lemma sock_stable_clk: "sock_stable P \<Longrightarrow> P w \<Longrightarrow> P (w\<lparr>clk := c\<rparr>)"
  by (drule sock_stableD [where n = "nsock w" and c = c and f = "socks w" and t = "wire w"]) auto

lemma sock_stable_socks: "sock_stable P \<Longrightarrow> P w \<Longrightarrow> P (w\<lparr>socks := f\<rparr>)"
  by (drule sock_stableD [where n = "nsock w" and c = "clk w" and f = f and t = "wire w"]) auto

lemma sock_stable_wire: "sock_stable P \<Longrightarrow> P w \<Longrightarrow> P (w\<lparr>wire := t\<rparr>)"
  by (drule sock_stableD [where n = "nsock w" and c = "clk w" and f = "socks w" and t = t]) auto

lemma sock_stable_alloc: "sock_stable P \<Longrightarrow> P w \<Longrightarrow> nsock w \<le> n \<Longrightarrow> P (w\<lparr>nsock := n, socks := f\<rparr>)"
  by (drule sock_stableD [where n = n and c = "clk w" and f = f and t = "wire w"]) auto

lemma keeps_syscall [keep]: "sock_stable P \<Longrightarrow> keeps P (syscall f)"
  by (auto simp: keeps_def valid_def syscall_def sock_stable_clk)

lemma keeps_record_io [keep]: "sock_stable P \<Longrightarrow> keeps P (record_io e)"
  by (auto simp: record_io_def sock_stable_wire intro!: keeps_modify)

lemma keeps_upd_sock [keep]: "sock_stable P \<Longrightarrow> keeps P (upd_sock s f)"
  by (auto simp: upd_sock_def sock_stable_socks intro!: keeps_modify)

lemma keeps_error [keep]: "keeps P (SocketImpl_error code arg)"
  unfolding SocketImpl_error_def
  by (auto split: option.split dest!: error_exn_Poco intro: keep)

lemma keeps_invalidSocket [keep]: "keeps P (throw invalidSocket)"
  by (simp add: invalidSocket_def keeps_throw)

lemma keeps_check [keep]: "keeps P (check d r arg)"
  by (cases r) (auto simp: check_def intro!: keep)

lemma keeps_guard_fd [keep]: "(\<And>fd. keeps P (f fd)) \<Longrightarrow> keeps P (guard_fd s f)"
  unfolding guard_fd_def by (intro keep)

lemma keeps_let [keep]: "keeps P (f x) \<Longrightarrow> keeps P (let y = x in f y)"
  by simp

lemma keeps_sysres [keep]:
  "(\<And>a. keeps P (f a)) \<Longrightarrow> (\<And>e. keeps P (g e)) \<Longrightarrow>
   keeps P (case r of Ok a \<Rightarrow> f a | Err e \<Rightarrow> g e)"
  by (cases r) auto

lemma keeps_alloc_socket [keep]: "sock_stable P \<Longrightarrow> keeps P (alloc_socket S fd)"
  by (auto simp: keeps_def valid_def alloc_socket_def comp_simps sock_stable_alloc)

lemma keeps_close [keep]: "sock_stable P \<Longrightarrow> keeps P (SocketImpl_close s)"
  unfolding SocketImpl_close_def by (intro keep)

lemma keeps_ensure_init [keep]: "sock_stable P \<Longrightarrow> keeps P (ensure_init S s)"
  unfolding ensure_init_def SocketImpl_initSocket_def by (intro keep)

lemma keeps_setBlocking [keep]: "sock_stable P \<Longrightarrow> keeps P (SocketImpl_setBlocking S s b)"
  unfolding SocketImpl_setBlocking_def SocketImpl_ioctl_def by (intro keep)

lemma keeps_setRawOption [keep]: "sock_stable P \<Longrightarrow> keeps P (SocketImpl_setRawOption S s)"
  unfolding SocketImpl_setRawOption_def by (intro keep)

lemma keeps_poll_loop [keep]: "sock_stable P \<Longrightarrow> keeps P (poll_loop k S fd ev rem)"
  by (induction k arbitrary: rem) (auto intro!: keep)

lemma keeps_poll [keep]: "sock_stable P \<Longrightarrow> keeps P (SocketImpl_poll S s t m)"
  unfolding SocketImpl_poll_def by (intro keep)

lemma keeps_checkBrokenTimeout [keep]:
  "sock_stable P \<Longrightarrow> keeps P (SocketImpl_checkBrokenTimeout S s m)"
  unfolding SocketImpl_checkBrokenTimeout_def by (intro keep)

lemma keeps_accept_loop [keep]: "sock_stable P \<Longrightarrow> keeps P (accept_loop k S fd)"
  by (induction k) (auto intro!: keep)

lemma keeps_acceptConnection [keep]: "sock_stable P \<Longrightarrow> keeps P (SocketImpl_acceptConnection S s)"
  unfolding SocketImpl_acceptConnection_def by (intro keep)

lemma keeps_connectNB [keep]: "sock_stable P \<Longrightarrow> keeps P (SocketImpl_connectNB S s a)"
  unfolding SocketImpl_connectNB_def by (intro keep)

lemma keeps_peerAddress [keep]: "sock_stable P \<Longrightarrow> keeps P (SocketImpl_peerAddress S s)"
  unfolding SocketImpl_peerAddress_def by (intro keep)

lemma keeps_recv_loop [keep]: "sock_stable P \<Longrightarrow> keeps P (recv_loop k S s len)"
  by (induction k) (auto intro!: keep)

lemma keeps_receiveBytes [keep]: "sock_stable P \<Longrightarrow> keeps P (SocketImpl_receiveBytes S s len)"
  unfolding SocketImpl_receiveBytes_def by (intro keep)

lemma keeps_send_loop [keep]: "sock_stable P \<Longrightarrow> keeps P (send_loop k S s b)"
  by (induction k) (auto intro!: keep)

lemma keeps_sendBytes [keep]: "sock_stable P \<Longrightarrow> keeps P (SocketImpl_sendBytes S s b)"
  unfolding SocketImpl_sendBytes_def by (intro keep)

end
