(* ===== verification/Notifications.thy ===== *)
theory Notifications
  imports Socket_Impl "HOL-Library.Multiset"
begin

text \<open>
  Notifications: \<open>Poco::Observer\<close>, \<open>NotificationCenter\<close> (\<open>poco/Foundation\<close>) and
  \<open>SocketNotifier\<close> (\<open>poco/Net\<close>). Observers are shared objects: the list a notification is
  posted to is a copy of pointers, so an observer disabled by a callback is seen disabled by
  the rest of the loop. The objects called back are references that stay opaque here.
\<close>

section \<open>Observers and their state\<close>

datatype nkind = Readable | Writable | Error | Timeout | Idle | Shutdown

datatype objref = SessionObj nat | AcceptorObj

datatype callback =
    OnFrontWritable | OnFrontReadable | OnFrontShutdown | OnFrontError | OnFrontTimeout | OnFrontIdle
  | OnBackWritable | OnBackReadable | OnBackShutdown | OnBackError | OnBackTimeout | OnBackIdle
  | OnAccept

text \<open>
  \<open>Observer<C, N>\<close>: \<open>ob_kind\<close> is \<open>N\<close>, \<open>ob_obj\<close> the pointer \<open>_pObject\<close> (\<open>None\<close> once
  disabled; its constructor stands for \<open>C\<close>) and \<open>ob_method\<close> the member pointer.
\<close>

record observer =
  ob_kind :: nkind
  ob_obj :: "objref option"
  ob_method :: callback

record notifier =
  nf_events :: "nkind list"
  nf_observers :: "nat list"
  nf_socket :: sid

record notif_world = sock_world +
  nobs :: nat
  observers :: "nat \<Rightarrow> observer"
  nnotif :: nat
  notifiers :: "nat \<Rightarrow> notifier"
  nf_refs :: "nkind \<Rightarrow> int"
  nf_current :: "nkind \<Rightarrow> sid option"

type_synonym 'w dispatcher = "objref \<Rightarrow> callback \<Rightarrow> nkind \<Rightarrow> ('w, unit) cpp"

definition mkObserver :: "objref \<Rightarrow> nkind \<Rightarrow> callback \<Rightarrow> observer" where
  "mkObserver p k m = \<lparr>ob_kind = k, ob_obj = Some p, ob_method = m\<rparr>"

definition Observer_equals :: "observer \<Rightarrow> observer \<Rightarrow> bool" where
  "Observer_equals a b \<longleftrightarrow> ob_kind b = ob_kind a \<and> ob_obj b = ob_obj a \<and> ob_method b = ob_method a"

definition Observer_accepts :: "observer \<Rightarrow> nkind \<Rightarrow> bool" where
  "Observer_accepts a k \<longleftrightarrow> ob_kind a = k"

definition Observer_disable :: "nat \<Rightarrow> 'a notif_world_scheme \<Rightarrow> 'a notif_world_scheme" where
  "Observer_disable i w = w\<lparr>observers := (observers w)(i := (observers w i)\<lparr>ob_obj := None\<rparr>)\<rparr>"

definition nf_duplicate :: "nkind \<Rightarrow> 'a notif_world_scheme \<Rightarrow> 'a notif_world_scheme" where
  "nf_duplicate k w = w\<lparr>nf_refs := (nf_refs w)(k := nf_refs w k + 1)\<rparr>"

definition nf_release :: "nkind \<Rightarrow> 'a notif_world_scheme \<Rightarrow> 'a notif_world_scheme" where
  "nf_release k w = w\<lparr>nf_refs := (nf_refs w)(k := nf_refs w k - 1)\<rparr>"

definition nf_setSocket :: "nkind \<Rightarrow> sid option \<Rightarrow> 'a notif_world_scheme \<Rightarrow> 'a notif_world_scheme" where
  "nf_setSocket k s w = w\<lparr>nf_current := (nf_current w)(k := s)\<rparr>"

definition Observer_notify ::
  "('a notif_world_scheme) dispatcher \<Rightarrow> nkind \<Rightarrow> nat \<Rightarrow> ('a notif_world_scheme, unit) cpp" where
  "Observer_notify cb k i = bnd (gets (\<lambda>w. observers w i)) (\<lambda>ob.
     case ob_obj ob of
       None \<Rightarrow> skip
     | Some p \<Rightarrow>
         when_do (Observer_accepts ob k)
           (andthen (modify (nf_duplicate k)) (cb p (ob_method ob) k)))"

section \<open>\<open>NotificationCenter\<close>\<close>

text \<open>The center of notifier \<open>i\<close> is its list of observer pointers.\<close>

definition upd_notifier ::
  "nat \<Rightarrow> (notifier \<Rightarrow> notifier) \<Rightarrow> 'a notif_world_scheme \<Rightarrow> 'a notif_world_scheme" where
  "upd_notifier i f w = w\<lparr>notifiers := (notifiers w)(i := f (notifiers w i))\<rparr>"

definition NotificationCenter_addObserver ::
  "nat \<Rightarrow> observer \<Rightarrow> 'a notif_world_scheme \<Rightarrow> 'a notif_world_scheme" where
  "NotificationCenter_addObserver i ob w =
    (let j = nobs w in
     upd_notifier i (\<lambda>n. n\<lparr>nf_observers := nf_observers n @ [j]\<rparr>)
       (w\<lparr>nobs := Suc j, observers := (observers w)(j := ob)\<rparr>))"

definition find_observer :: "(nat \<Rightarrow> observer) \<Rightarrow> observer \<Rightarrow> nat list \<Rightarrow> nat option" where
  "find_observer obs ob is = find (\<lambda>j. Observer_equals ob (obs j)) is"

definition NotificationCenter_removeObserver ::
  "nat \<Rightarrow> observer \<Rightarrow> 'a notif_world_scheme \<Rightarrow> 'a notif_world_scheme" where
  "NotificationCenter_removeObserver i ob w =
    (case find_observer (observers w) ob (nf_observers (notifiers w i)) of
       None \<Rightarrow> w
     | Some j \<Rightarrow> upd_notifier i (\<lambda>n. n\<lparr>nf_observers := remove1 j (nf_observers n)\<rparr>)
                  (Observer_disable j w))"

definition NotificationCenter_hasObserver :: "nat \<Rightarrow> observer \<Rightarrow> 'a notif_world_scheme \<Rightarrow> bool" where
  "NotificationCenter_hasObserver i ob w =
     list_ex (\<lambda>j. Observer_equals ob (observers w j)) (nf_observers (notifiers w i))"

definition NotificationCenter_postNotification ::
  "('a notif_world_scheme) dispatcher \<Rightarrow> nat \<Rightarrow> nkind \<Rightarrow> ('a notif_world_scheme, unit) cpp" where
  "NotificationCenter_postNotification cb i k = finally_upd
     (bnd (gets (\<lambda>w. nf_observers (notifiers w i))) (\<lambda>observersToNotify.
        for_each observersToNotify (Observer_notify cb k)))
     (nf_release k)"

definition NotificationCenter_hasObservers :: "nat \<Rightarrow> 'a notif_world_scheme \<Rightarrow> bool" where
  "NotificationCenter_hasObservers i w \<longleftrightarrow> nf_observers (notifiers w i) \<noteq> []"

definition NotificationCenter_countObservers :: "nat \<Rightarrow> 'a notif_world_scheme \<Rightarrow> nat" where
  "NotificationCenter_countObservers i w = length (nf_observers (notifiers w i))"

section \<open>\<open>SocketNotifier\<close>\<close>

definition new_SocketNotifier :: "sid \<Rightarrow> 'a notif_world_scheme \<Rightarrow> nat \<times> 'a notif_world_scheme" where
  "new_SocketNotifier s w =
    (nnotif w, w\<lparr>nnotif := Suc (nnotif w),
       notifiers := (notifiers w)(nnotif w := \<lparr>nf_events = [], nf_observers = [], nf_socket = s\<rparr>)\<rparr>)"

text \<open>
  The multiset \<open>_events\<close> of the notifier, as a list: the first kind of the else-if chain that
  the observer accepts.
\<close>

definition event_of :: "observer \<Rightarrow> nkind option" where
  "event_of ob =
    (if Observer_accepts ob Readable then Some Readable
     else if Observer_accepts ob Writable then Some Writable
     else if Observer_accepts ob Error then Some Error
     else if Observer_accepts ob Timeout then Some Timeout
     else None)"

definition SocketNotifier_addObserver ::
  "nat \<Rightarrow> observer \<Rightarrow> 'a notif_world_scheme \<Rightarrow> 'a notif_world_scheme" where
  "SocketNotifier_addObserver i ob w =
    (let w' = NotificationCenter_addObserver i ob w in
     case event_of ob of
       None \<Rightarrow> w'
     | Some k \<Rightarrow> upd_notifier i (\<lambda>n. n\<lparr>nf_events := k # nf_events n\<rparr>) w')"

definition SocketNotifier_removeObserver ::
  "nat \<Rightarrow> observer \<Rightarrow> 'a notif_world_scheme \<Rightarrow> 'a notif_world_scheme" where
  "SocketNotifier_removeObserver i ob w =
    (let w' = NotificationCenter_removeObserver i ob w in
     case event_of ob of
       None \<Rightarrow> w'
     | Some k \<Rightarrow> upd_notifier i (\<lambda>n. n\<lparr>nf_events := remove1 k (nf_events n)\<rparr>) w')"

definition SocketNotifier_accepts :: "nat \<Rightarrow> nkind \<Rightarrow> 'a notif_world_scheme \<Rightarrow> bool" where
  "SocketNotifier_accepts i k w \<longleftrightarrow> k \<in> set (nf_events (notifiers w i))"

definition SocketNotifier_dispatch ::
  "('a notif_world_scheme) dispatcher \<Rightarrow> nat \<Rightarrow> nkind \<Rightarrow> ('a notif_world_scheme, unit) cpp" where
  "SocketNotifier_dispatch cb i k = finally_upd
     (andthen (modify (\<lambda>w. nf_duplicate k (nf_setSocket k (Some (nf_socket (notifiers w i))) w)))
       (NotificationCenter_postNotification cb i k))
     (nf_setSocket k None)"

section \<open>Lemmas\<close>

lemmas nf_defs = nf_duplicate_def nf_release_def nf_setSocket_def

lemma Observer_equals_eq: "Observer_equals a b \<longleftrightarrow> a = b"
  by (cases a; cases b) (auto simp: Observer_equals_def)

lemma find_observer_Some:
  "find_observer obs ob is = Some j \<Longrightarrow> j \<in> set is \<and> obs j = ob"
  by (auto simp: find_observer_def find_Some_iff Observer_equals_eq)

lemma find_observer_None:
  "find_observer obs ob is = None \<longleftrightarrow> (\<forall>j \<in> set is. obs j \<noteq> ob)"
  by (auto simp: find_observer_def find_None_iff Observer_equals_eq)

lemma hasObserver_iff:
  "NotificationCenter_hasObserver i ob w \<longleftrightarrow> (\<exists>j \<in> set (nf_observers (notifiers w i)). observers w j = ob)"
  by (auto simp: NotificationCenter_hasObserver_def list_ex_iff Observer_equals_eq)

lemma hasObserver_find:
  "NotificationCenter_hasObserver i ob w \<longleftrightarrow>
   find_observer (observers w) ob (nf_observers (notifiers w i)) \<noteq> None"
  by (auto simp: hasObserver_iff find_observer_None)

text \<open>
  The notifier's events count its observers: what \<open>accepts\<close> answers is whether an observer of
  that kind is registered.
\<close>

definition watched :: "nkind \<Rightarrow> bool" where
  "watched k \<longleftrightarrow> k \<in> {Readable, Writable, Error, Timeout}"

definition notifier_ok :: "nat \<Rightarrow> 'a notif_world_scheme \<Rightarrow> bool" where
  "notifier_ok i w \<longleftrightarrow>
     mset (nf_events (notifiers w i)) =
       mset (filter watched (map (\<lambda>j. ob_kind (observers w j)) (nf_observers (notifiers w i))))
     \<and> distinct (nf_observers (notifiers w i))
     \<and> (\<forall>j \<in> set (nf_observers (notifiers w i)). j < nobs w)"

lemma event_of_eq: "event_of ob = (if watched (ob_kind ob) then Some (ob_kind ob) else None)"
  by (cases "ob_kind ob") (auto simp: event_of_def Observer_accepts_def watched_def)

lemma accepts_iff:
  assumes "notifier_ok i w" and "watched k"
  shows "SocketNotifier_accepts i k w \<longleftrightarrow>
    (\<exists>j \<in> set (nf_observers (notifiers w i)). ob_kind (observers w j) = k)"
proof -
  from assms(1) have "set (nf_events (notifiers w i)) =
      set (filter watched (map (\<lambda>j. ob_kind (observers w j)) (nf_observers (notifiers w i))))"
    unfolding notifier_ok_def by (metis set_mset_mset)
  with assms(2) show ?thesis by (auto simp: SocketNotifier_accepts_def)
qed

lemma upd_notifier_sel [simp]:
  "notifiers (upd_notifier i f w) = (notifiers w)(i := f (notifiers w i))"
  "observers (upd_notifier i f w) = observers w" "nobs (upd_notifier i f w) = nobs w"
  "nnotif (upd_notifier i f w) = nnotif w"
  "socks (upd_notifier i f w) = socks w" "nsock (upd_notifier i f w) = nsock w"
  "clk (upd_notifier i f w) = clk w" "wire (upd_notifier i f w) = wire w"
  "nf_refs (upd_notifier i f w) = nf_refs w"
  by (simp_all add: upd_notifier_def)

lemma disable_sel [simp]:
  "observers (Observer_disable j w) = (observers w)(j := (observers w j)\<lparr>ob_obj := None\<rparr>)"
  "notifiers (Observer_disable j w) = notifiers w" "nobs (Observer_disable j w) = nobs w"
  "nnotif (Observer_disable j w) = nnotif w"
  "socks (Observer_disable j w) = socks w" "nsock (Observer_disable j w) = nsock w"
  "clk (Observer_disable j w) = clk w" "wire (Observer_disable j w) = wire w"
  "nf_refs (Observer_disable j w) = nf_refs w"
  by (simp_all add: Observer_disable_def)

lemma SocketNotifier_addObserver_sel:
  "observers (SocketNotifier_addObserver i ob w) = (observers w)(nobs w := ob)"
  "nobs (SocketNotifier_addObserver i ob w) = Suc (nobs w)"
  "notifiers (SocketNotifier_addObserver i ob w) = (notifiers w)(i :=
     (notifiers w i)\<lparr>nf_observers := nf_observers (notifiers w i) @ [nobs w],
       nf_events := (if watched (ob_kind ob) then ob_kind ob # nf_events (notifiers w i)
                     else nf_events (notifiers w i))\<rparr>)"
  "nnotif (SocketNotifier_addObserver i ob w) = nnotif w"
  by (simp_all add: SocketNotifier_addObserver_def NotificationCenter_addObserver_def event_of_eq
      Let_def)

lemma SocketNotifier_removeObserver_found:
  assumes "find_observer (observers w) ob (nf_observers (notifiers w i)) = Some j"
  shows "observers (SocketNotifier_removeObserver i ob w) =
           (observers w)(j := (observers w j)\<lparr>ob_obj := None\<rparr>)"
    and "nobs (SocketNotifier_removeObserver i ob w) = nobs w"
    and "nnotif (SocketNotifier_removeObserver i ob w) = nnotif w"
    and "notifiers (SocketNotifier_removeObserver i ob w) = (notifiers w)(i :=
     (notifiers w i)\<lparr>nf_observers := remove1 j (nf_observers (notifiers w i)),
       nf_events := (if watched (ob_kind ob) then remove1 (ob_kind ob) (nf_events (notifiers w i))
                     else nf_events (notifiers w i))\<rparr>)"
  using assms
  by (simp_all add: SocketNotifier_removeObserver_def NotificationCenter_removeObserver_def
      event_of_eq Let_def)

lemma add_notifier_ok:
  assumes "notifier_ok i w"
  shows "notifier_ok i (SocketNotifier_addObserver i ob w)"
proof -
  let ?js = "nf_observers (notifiers w i)"
  have lt: "\<forall>j \<in> set ?js. j < nobs w" and d: "distinct ?js"
    using assms by (auto simp: notifier_ok_def)
  have "{#ob_kind (if j = nobs w then ob else observers w j). j \<in># mset ?js#} =
      {#ob_kind (observers w j). j \<in># mset ?js#}"
    using lt by (intro image_mset_cong) auto
  with assms lt d show ?thesis
    by (auto simp: notifier_ok_def SocketNotifier_addObserver_sel less_Suc_eq)
qed

lemma mset_filter_remove1:
  assumes "j \<in> set js"
  shows "mset (filter p (map f (remove1 j js))) =
    (if p (f j) then mset (filter p (map f js)) - {#f j#} else mset (filter p (map f js)))"
  using assms by (induction js) auto

lemma remove_notifier_ok:
  assumes "notifier_ok i w" and "NotificationCenter_hasObserver i ob w"
  shows "notifier_ok i (SocketNotifier_removeObserver i ob w)"
proof -
  let ?js = "nf_observers (notifiers w i)"
  obtain j where j: "find_observer (observers w) ob ?js = Some j"
    using assms(2) by (auto simp: hasObserver_find)
  then have m: "j \<in> set ?js" "observers w j = ob" by (auto dest: find_observer_Some)
  have kinds: "ob_kind (if a = j then (observers w j)\<lparr>ob_obj := None\<rparr> else observers w a) =
      ob_kind (observers w a)" for a
    by simp
  show ?thesis
    using assms(1) m mset_filter_remove1 [OF m(1), of watched "\<lambda>a. ob_kind (observers w a)"]
    by (auto simp: notifier_ok_def SocketNotifier_removeObserver_found [OF j] kinds
        dest: set_remove1_subset [THEN subsetD])
qed

end
