(* ===== verification/Poll_Set.thy ===== *)
theory Poll_Set
  imports Notifications
begin

text \<open>
  \<open>PollSet\<close> (\<open>poco/Net/src/PollSet.cpp\<close>): the implementation over \<open>WSAPoll\<close> that Windows
  builds use, and the fallback over \<open>select\<close>. The locale \<open>poll_registry\<close> is the contract of
  the registration operations; the two implementations differ in the key they register a
  socket under, its descriptor or its object.
\<close>

section \<open>Modes\<close>

definition POLL_READ :: nat where "POLL_READ = 1"
definition POLL_WRITE :: nat where "POLL_WRITE = 2"
definition POLL_ERROR :: nat where "POLL_ERROR = 4"

lemmas poll_modes = POLL_READ_def POLL_WRITE_def POLL_ERROR_def

lemma mode_bits:
  "m AND POLL_READ \<noteq> 0 \<longleftrightarrow> bit m 0" "m AND POLL_WRITE \<noteq> 0 \<longleftrightarrow> bit m 1"
  "m AND POLL_ERROR \<noteq> 0 \<longleftrightarrow> bit m 2"
  using and_exp_eq_0_iff_not_bit [of m 0] and_exp_eq_0_iff_not_bit [of m 1]
    and_exp_eq_0_iff_not_bit [of m 2]
  by (simp_all add: poll_modes)

section \<open>The \<open>WSAPoll\<close> implementation\<close>

record pollset =
  ps_socketMap :: "(poco_socket_t, sid) omap"
  ps_wantPOLLOUT :: "poco_socket_t set"
  ps_addMap :: "(poco_socket_t, nat) omap"
  ps_removeSet :: "poco_socket_t set"
  ps_pollfds :: "pollfd list"

definition empty_pollset :: pollset where
  "empty_pollset = \<lparr>ps_socketMap = [], ps_wantPOLLOUT = {}, ps_addMap = [], ps_removeSet = {},
     ps_pollfds = []\<rparr>"

text \<open>The descriptor argument is \<open>socket.impl()->sockfd()\<close> at the time of the call.\<close>

definition PollSet_add :: "poco_socket_t \<Rightarrow> sid \<Rightarrow> nat \<Rightarrow> pollset \<Rightarrow> pollset" where
  "PollSet_add fd s mode p = p\<lparr>ps_addMap := omap_put fd mode (ps_addMap p),
     ps_removeSet := ps_removeSet p - {fd},
     ps_socketMap := omap_put fd s (ps_socketMap p)\<rparr>"

definition PollSet_remove :: "poco_socket_t \<Rightarrow> pollset \<Rightarrow> pollset" where
  "PollSet_remove fd p = p\<lparr>ps_removeSet := insert fd (ps_removeSet p),
     ps_addMap := omap_erase fd (ps_addMap p),
     ps_socketMap := omap_erase fd (ps_socketMap p)\<rparr>"

definition PollSet_has :: "poco_socket_t \<Rightarrow> pollset \<Rightarrow> bool" where
  "PollSet_has fd p \<longleftrightarrow> map_of (ps_socketMap p) fd \<noteq> None"

definition PollSet_empty :: "pollset \<Rightarrow> bool" where
  "PollSet_empty p \<longleftrightarrow> ps_socketMap p = []"

definition PollSet_clear :: "pollset \<Rightarrow> pollset" where
  "PollSet_clear p = p\<lparr>ps_socketMap := [], ps_addMap := [], ps_removeSet := {}, ps_pollfds := []\<rparr>"

definition PollSet_setMode ::
  "poco_socket_t \<Rightarrow> u16 \<Rightarrow> nat \<Rightarrow> poco_socket_t set \<Rightarrow> u16 \<times> poco_socket_t set" where
  "PollSet_setMode fd target mode want =
    ((if mode AND POLL_READ \<noteq> 0 then target OR POLLIN else target) OR POLLOUT,
     if mode AND POLL_WRITE \<noteq> 0 then insert fd want else want - {fd})"

fun update_pollfds ::
  "poco_socket_t \<Rightarrow> nat \<Rightarrow> pollfd list \<Rightarrow> poco_socket_t set \<Rightarrow> pollfd list \<times> poco_socket_t set" where
  "update_pollfds fd mode [] want = ([], want)"
| "update_pollfds fd mode (p # ps) want =
    (if pfd_fd p = fd then
       (case PollSet_setMode fd 0 mode want of (events, want') \<Rightarrow>
        case update_pollfds fd mode ps want' of (ps', want'') \<Rightarrow>
          (p\<lparr>pfd_events := events, pfd_revents := 0\<rparr> # ps', want''))
     else (case update_pollfds fd mode ps want of (ps', want') \<Rightarrow> (p # ps', want')))"

definition PollSet_update :: "poco_socket_t \<Rightarrow> nat \<Rightarrow> pollset \<Rightarrow> pollset" where
  "PollSet_update fd mode p =
    (case update_pollfds fd mode (ps_pollfds p) (ps_wantPOLLOUT p) of (pfds, want) \<Rightarrow>
       p\<lparr>ps_pollfds := pfds, ps_wantPOLLOUT := want\<rparr>)"

text \<open>\<open>(revents | POLLOUT)\<close>, as the code has it: the value of the \<open>||\<close>-operand is never 0.\<close>

definition hasSignaledFDs :: "pollset \<Rightarrow> bool" where
  "hasSignaledFDs p = list_ex
     (\<lambda>f. pfd_revents f OR POLLOUT \<noteq> 0 \<and> pfd_fd f \<in> ps_wantPOLLOUT p) (ps_pollfds p)"

text \<open>First block of \<open>poll\<close>: the removed descriptors leave \<open>_pollfds\<close>, the added ones join it.\<close>

definition prune_removed :: "pollset \<Rightarrow> pollset" where
  "prune_removed p = p\<lparr>ps_pollfds := filter (\<lambda>f. pfd_fd f \<notin> ps_removeSet p) (ps_pollfds p),
     ps_removeSet := {}\<rparr>"

fun push_added ::
  "(poco_socket_t, nat) omap \<Rightarrow> poco_socket_t set \<Rightarrow> pollfd list \<Rightarrow> pollfd list \<times> poco_socket_t set" where
  "push_added [] want pfds = (pfds, want)"
| "push_added ((fd, mode) # m) want pfds =
    (case PollSet_setMode fd 0 mode want of (events, want') \<Rightarrow>
       push_added m want' (pfds @ [\<lparr>pfd_fd = fd, pfd_events = events, pfd_revents = 0\<rparr>]))"

definition PollSet_prepare :: "pollset \<Rightarrow> pollset" where
  "PollSet_prepare p =
    (let p' = prune_removed p in
     case push_added (ps_addMap p') (ps_wantPOLLOUT p') (ps_pollfds p') of (pfds, want) \<Rightarrow>
       p'\<lparr>ps_pollfds := pfds, ps_wantPOLLOUT := want, ps_addMap := []\<rparr>)"

text \<open>The system's answer: \<open>revents\<close> of each entry.\<close>

fun set_revents :: "pollfd list \<Rightarrow> u16 list \<Rightarrow> pollfd list" where
  "set_revents (f # fs) (r # rs) = f\<lparr>pfd_revents := r\<rparr> # set_revents fs rs"
| "set_revents fs _ = fs"

definition apply_revents :: "u16 list \<Rightarrow> pollset \<Rightarrow> pollset" where
  "apply_revents rs p = p\<lparr>ps_pollfds := set_revents (ps_pollfds p) rs\<rparr>"

text \<open>Last block of \<open>poll\<close>: the modes of the sockets with events.\<close>

definition add_mode :: "sid \<Rightarrow> nat \<Rightarrow> (sid, nat) omap \<Rightarrow> (sid, nat) omap" where
  "add_mode s m result =
     omap_put s ((case map_of result s of None \<Rightarrow> 0 | Some m' \<Rightarrow> m') OR m) result"

definition collect_one :: "pollset \<Rightarrow> pollfd \<Rightarrow> (sid, nat) omap \<Rightarrow> (sid, nat) omap" where
  "collect_one p f result =
    (case map_of (ps_socketMap p) (pfd_fd f) of
       None \<Rightarrow> result
     | Some s \<Rightarrow>
        (let result1 = (if pfd_revents f AND POLLIN \<noteq> 0 \<or> pfd_revents f AND POLLHUP \<noteq> 0
                        then add_mode s POLL_READ result else result);
             result2 = (if pfd_revents f AND POLLOUT \<noteq> 0 \<and> pfd_fd f \<in> ps_wantPOLLOUT p
                        then add_mode s POLL_WRITE result1 else result1)
         in if pfd_revents f AND POLLERR \<noteq> 0 then add_mode s POLL_ERROR result2 else result2))"

definition collect_modes :: "pollset \<Rightarrow> (sid, nat) omap" where
  "collect_modes p =
    (if ps_socketMap p = [] then [] else fold (collect_one p) (ps_pollfds p) [])"

definition clear_revents :: "pollset \<Rightarrow> pollset" where
  "clear_revents p = (if ps_socketMap p = [] then p
     else p\<lparr>ps_pollfds := map (\<lambda>f. f\<lparr>pfd_revents := 0\<rparr>) (ps_pollfds p)\<rparr>)"

record poll_world = notif_world +
  pollset :: pollset

text \<open>
  The \<open>do\<close> loop around \<open>WSAPoll\<close>. After the call, an answer without a wanted \<open>POLLOUT\<close>
  (\<open>hasSignaledFDs\<close>) is treated as an interruption while time remains.
\<close>

fun PollSet_poll_loop :: "nat \<Rightarrow> os \<Rightarrow> int \<Rightarrow> ('a poll_world_scheme, int sysres) cpp" where
  "PollSet_poll_loop 0 S remaining = throw Diverge"
| "PollSet_poll_loop (Suc k) S remaining =
     bnd (gets (\<lambda>w. (clk w, map (\<lambda>f. (pfd_fd f, pfd_events f)) (ps_pollfds (pollset w))))) (\<lambda>(n, fds).
     bnd (syscall (\<lambda>n. os_poll S n fds (to_int32 (cdiv remaining 1000)))) (\<lambda>r.
     bnd (case r of
            Ok a \<Rightarrow> andthen (modify (\<lambda>w. w\<lparr>pollset := apply_revents (snd a) (pollset w)\<rparr>))
                      (bnd (gets (\<lambda>w. hasSignaledFDs (pollset w))) (\<lambda>signaled.
                       ret (if 0 < remaining \<and> 0 < fst a \<and> \<not> signaled then Err EINTR
                            else Ok (fst a))))
          | Err e \<Rightarrow> ret (Err e)) (\<lambda>rc.
     if rc = Err EINTR
     then PollSet_poll_loop k S (remaining_after remaining (os_waited S n))
     else ret rc)))"

definition PollSet_poll :: "os \<Rightarrow> int \<Rightarrow> ('a poll_world_scheme, (sid, nat) omap) cpp" where
  "PollSet_poll S timeout =
     andthen (modify (\<lambda>w. w\<lparr>pollset := PollSet_prepare (pollset w)\<rparr>))
     (bnd (gets (\<lambda>w. ps_pollfds (pollset w) = [])) (\<lambda>none.
      if none then ret []
      else bnd (PollSet_poll_loop (os_fuel S) S timeout) (\<lambda>r.
           andthen (case r of Ok _ \<Rightarrow> skip | Err e \<Rightarrow> SocketImpl_error e [])
           (bnd (gets (\<lambda>w. collect_modes (pollset w))) (\<lambda>result.
            andthen (modify (\<lambda>w. w\<lparr>pollset := clear_revents (pollset w)\<rparr>)) (ret result))))))"

section \<open>The fallback over \<open>select\<close>\<close>

type_synonym sel_pollset = "(sid, nat) omap"

definition Select_add :: "sid \<Rightarrow> nat \<Rightarrow> sel_pollset \<Rightarrow> sel_pollset" where
  "Select_add s mode m = omap_put s mode m"

definition Select_remove :: "sid \<Rightarrow> sel_pollset \<Rightarrow> sel_pollset" where
  "Select_remove s m = omap_erase s m"

definition Select_has :: "sid \<Rightarrow> sel_pollset \<Rightarrow> bool" where
  "Select_has s m \<longleftrightarrow> map_of m s \<noteq> None"

definition Select_empty :: "sel_pollset \<Rightarrow> bool" where
  "Select_empty m \<longleftrightarrow> m = []"

definition Select_update :: "sid \<Rightarrow> nat \<Rightarrow> sel_pollset \<Rightarrow> sel_pollset" where
  "Select_update s mode m = omap_put s mode m"

definition Select_clear :: "sel_pollset \<Rightarrow> sel_pollset" where
  "Select_clear m = []"

section \<open>The registration contract\<close>

text \<open>
  A handle is a descriptor and a socket object; \<open>key\<close> is the part of it that identifies the
  registration.
\<close>

locale poll_registry =
  fixes key :: "poco_socket_t \<times> sid \<Rightarrow> 'k"
    and add :: "poco_socket_t \<times> sid \<Rightarrow> nat \<Rightarrow> 'p \<Rightarrow> 'p"
    and remove :: "poco_socket_t \<times> sid \<Rightarrow> 'p \<Rightarrow> 'p"
    and has :: "poco_socket_t \<times> sid \<Rightarrow> 'p \<Rightarrow> bool"
    and is_empty :: "'p \<Rightarrow> bool"
    and clear :: "'p \<Rightarrow> 'p"
    and ok :: "'p \<Rightarrow> bool"
  assumes has_add: "ok p \<Longrightarrow> has x (add y m p) \<longleftrightarrow> key x = key y \<or> has x p"
    and has_remove: "ok p \<Longrightarrow> has x (remove y p) \<longleftrightarrow> key x \<noteq> key y \<and> has x p"
    and empty_iff: "ok p \<Longrightarrow> is_empty p \<longleftrightarrow> (\<forall>x. \<not> has x p)"
    and empty_clear: "ok p \<Longrightarrow> is_empty (clear p)"
    and ok_add: "ok p \<Longrightarrow> ok (add y m p)"
    and ok_remove: "ok p \<Longrightarrow> ok (remove y p)"
    and ok_clear: "ok p \<Longrightarrow> ok (clear p)"
begin

lemma add_remove: "ok p \<Longrightarrow> \<not> has x (remove x (add x m p))"
  by (simp add: has_remove ok_add)

lemma remove_other: "ok p \<Longrightarrow> key x \<noteq> key y \<Longrightarrow> has x (remove y p) = has x p"
  by (simp add: has_remove)

lemma not_empty_add: "ok p \<Longrightarrow> \<not> is_empty (add x m p)"
  using has_add empty_iff ok_add by blast

text \<open>A registration removed under another key than it was added with stays.\<close>

lemma stale_after_remove:
  "ok p \<Longrightarrow> has x p \<Longrightarrow> key x \<noteq> key y \<Longrightarrow> has x (remove y p) \<and> \<not> is_empty (remove y p)"
  using has_remove empty_iff ok_remove by blast

end

lemma map_of_Nil_iff: "m = [] \<longleftrightarrow> (\<forall>k. map_of m k = None)"
  by (cases m) (auto intro: exI)

interpretation wsa: poll_registry fst "\<lambda>x m. PollSet_add (fst x) (snd x) m" "\<lambda>x. PollSet_remove (fst x)"
  "\<lambda>x. PollSet_has (fst x)" PollSet_empty PollSet_clear "\<lambda>_. True"
  by unfold_locales
    (auto simp: PollSet_add_def PollSet_remove_def PollSet_has_def PollSet_empty_def
      PollSet_clear_def map_of_Nil_iff)

interpretation sel: poll_registry snd "\<lambda>x m. Select_add (snd x) m" "\<lambda>x. Select_remove (snd x)"
  "\<lambda>x. Select_has (snd x)" Select_empty Select_clear "\<lambda>_. True"
  by unfold_locales
    (auto simp: Select_add_def Select_remove_def Select_has_def Select_empty_def Select_clear_def
      map_of_Nil_iff)

end
