(* ===== verification/Reactor.thy ===== *)
theory Reactor
  imports Poll_Set
begin

text \<open>
  \<open>SocketReactor\<close> (\<open>poco/Net/src/SocketReactor.cpp\<close>): the map from sockets to notifiers, the
  registration of observers, dispatch, and the event loop. The objects that are called back
  are the parameter \<open>cb\<close>.
\<close>

record reactor_world = poll_world +
  r_handlers :: "(sid, nat) omap"
  r_timeout :: int

definition DEFAULT_TIMEOUT :: int where
  "DEFAULT_TIMEOUT = 250000"

section \<open>Registration\<close>

definition getNotifier :: "sid \<Rightarrow> bool \<Rightarrow> ('a reactor_world_scheme, nat option) cpp" where
  "getNotifier s makeNew = (\<lambda>w.
     case map_of (r_handlers w) s of
       Some i \<Rightarrow> (Inr (Some i), w)
     | None \<Rightarrow>
         if makeNew then
           (case new_SocketNotifier s w of (i, w') \<Rightarrow>
              (Inr (Some i), w'\<lparr>r_handlers := omap_put s i (r_handlers w')\<rparr>))
         else (Inr None, w))"

definition notifier_mode :: "nat \<Rightarrow> 'a notif_world_scheme \<Rightarrow> nat" where
  "notifier_mode i w =
     (if SocketNotifier_accepts i Readable w then POLL_READ else 0)
     OR (if SocketNotifier_accepts i Writable w then POLL_WRITE else 0)
     OR (if SocketNotifier_accepts i Error w then POLL_ERROR else 0)"

definition addEventHandler :: "sid \<Rightarrow> observer \<Rightarrow> ('a reactor_world_scheme, unit) cpp" where
  "addEventHandler s ob = bnd (getNotifier s True) (\<lambda>p. case p of
      None \<Rightarrow> throw (UB ''addEventHandler: null notifier'')
    | Some i \<Rightarrow>
        andthen (bnd (gets (NotificationCenter_hasObserver i ob)) (\<lambda>has.
                 when_do (\<not> has) (modify (SocketNotifier_addObserver i ob))))
        (bnd (gets (notifier_mode i)) (\<lambda>mode.
         when_do (mode \<noteq> 0)
           (modify (\<lambda>w. w\<lparr>pollset := PollSet_add (sockfd (socks w s)) s mode (pollset w)\<rparr>)))))"

definition hasEventHandler :: "sid \<Rightarrow> observer \<Rightarrow> ('a reactor_world_scheme, bool) cpp" where
  "hasEventHandler s ob = bnd (getNotifier s False) (\<lambda>p. case p of
      None \<Rightarrow> ret False
    | Some i \<Rightarrow> gets (NotificationCenter_hasObserver i ob))"

text \<open>\<open>sockfd() > 0\<close> compares an unsigned \<open>SOCKET\<close>: it holds for \<open>INVALID_SOCKET\<close> too.\<close>

definition removeEventHandler :: "sid \<Rightarrow> observer \<Rightarrow> ('a reactor_world_scheme, unit) cpp" where
  "removeEventHandler s ob = bnd (getNotifier s False) (\<lambda>p. case p of
      None \<Rightarrow> skip
    | Some i \<Rightarrow>
        bnd (gets (NotificationCenter_hasObserver i ob)) (\<lambda>has.
        when_do has
          (andthen
            (bnd (gets (NotificationCenter_countObservers i)) (\<lambda>count.
             when_do (count = 1)
               (modify (\<lambda>w. w\<lparr>r_handlers := omap_erase s (r_handlers w),
                   pollset := PollSet_remove (sockfd (socks w s)) (pollset w)\<rparr>))))
          (andthen (modify (SocketNotifier_removeObserver i ob))
            (bnd (gets (\<lambda>w. (NotificationCenter_countObservers i w, sockfd (socks w s)))) (\<lambda>(count, fd).
             when_do (0 < count \<and> 0 < fd)
               (bnd (gets (notifier_mode i)) (\<lambda>mode.
                modify (\<lambda>w. w\<lparr>pollset := PollSet_update fd mode (pollset w)\<rparr>)))))))))"

definition reactor_has :: "sid \<Rightarrow> 'a reactor_world_scheme \<Rightarrow> bool" where
  "reactor_has s w = PollSet_has (sockfd (socks w s)) (pollset w)"

definition hasSocketHandlers :: "'a reactor_world_scheme \<Rightarrow> bool" where
  "hasSocketHandlers w \<longleftrightarrow> \<not> PollSet_empty (pollset w) \<and>
     list_ex (\<lambda>p. SocketNotifier_accepts (snd p) Readable w
       \<or> SocketNotifier_accepts (snd p) Writable w
       \<or> SocketNotifier_accepts (snd p) Error w) (r_handlers w)"

section \<open>Dispatch\<close>

text \<open>\<open>ErrorHandler::handle\<close> only reports: a \<open>Poco::Exception\<close> of a callback ends here.\<close>

definition handle_errors :: "('w, unit) cpp \<Rightarrow> ('w, unit) cpp" where
  "handle_errors m = catch_poco m (\<lambda>_. skip)"

definition dispatch_notifier ::
  "('a reactor_world_scheme) dispatcher \<Rightarrow> nat \<Rightarrow> nkind \<Rightarrow> ('a reactor_world_scheme, unit) cpp" where
  "dispatch_notifier cb i k = handle_errors (SocketNotifier_dispatch cb i k)"

definition dispatch_socket ::
  "('a reactor_world_scheme) dispatcher \<Rightarrow> sid \<Rightarrow> nkind \<Rightarrow> ('a reactor_world_scheme, unit) cpp" where
  "dispatch_socket cb s k = bnd (getNotifier s False) (\<lambda>p. case p of
      None \<Rightarrow> skip
    | Some i \<Rightarrow> dispatch_notifier cb i k)"

definition dispatch_all ::
  "('a reactor_world_scheme) dispatcher \<Rightarrow> nkind \<Rightarrow> ('a reactor_world_scheme, unit) cpp" where
  "dispatch_all cb k = bnd (gets (\<lambda>w. map snd (r_handlers w))) (\<lambda>delegates.
     for_each delegates (\<lambda>i. dispatch_notifier cb i k))"

section \<open>The event loop\<close>

definition dispatch_modes ::
  "('a reactor_world_scheme) dispatcher \<Rightarrow> sid \<times> nat \<Rightarrow> ('a reactor_world_scheme, unit) cpp" where
  "dispatch_modes cb e =
     andthen (when_do (snd e AND POLL_READ \<noteq> 0) (dispatch_socket cb (fst e) Readable))
     (andthen (when_do (snd e AND POLL_WRITE \<noteq> 0) (dispatch_socket cb (fst e) Writable))
       (when_do (snd e AND POLL_ERROR \<noteq> 0) (dispatch_socket cb (fst e) Error)))"

text \<open>
  One turn of \<open>while (!_stop)\<close>. Without handlers the reactor dispatches Idle and sleeps. A
  turn in which no socket was readable ends with Timeout for every notifier.
\<close>

definition reactor_turn ::
  "('a reactor_world_scheme) dispatcher \<Rightarrow> os \<Rightarrow> ('a reactor_world_scheme, unit) cpp" where
  "reactor_turn cb S = handle_errors
     (bnd (gets (\<lambda>w. (hasSocketHandlers w, r_timeout w))) (\<lambda>(some, timeout).
      if \<not> some then dispatch_all cb Idle
      else bnd (PollSet_poll S timeout) (\<lambda>sm.
        andthen (for_each sm (dispatch_modes cb))
          (when_do (\<not> list_ex (\<lambda>e. snd e AND POLL_READ \<noteq> 0) sm) (dispatch_all cb Timeout)))))"

text \<open>
  \<open>_stop\<close> is set by another thread: \<open>turns\<close> is how many times the loop finds it false. The
  loop is left through \<open>onShutdown\<close>.
\<close>

fun reactor_loop ::
  "('a reactor_world_scheme) dispatcher \<Rightarrow> os \<Rightarrow> nat \<Rightarrow> ('a reactor_world_scheme, unit) cpp" where
  "reactor_loop cb S 0 = skip"
| "reactor_loop cb S (Suc n) = andthen (reactor_turn cb S) (reactor_loop cb S n)"

definition reactor_run ::
  "('a reactor_world_scheme) dispatcher \<Rightarrow> os \<Rightarrow> nat \<Rightarrow> ('a reactor_world_scheme, unit) cpp" where
  "reactor_run cb S turns = andthen (reactor_loop cb S turns) (dispatch_all cb Shutdown)"

end
