(* ===== verification/Session.thy ===== *)
theory Session
  imports Reactor
begin

text \<open>
  The proxy's own code (\<open>CPOCOProxyServer.cpp\<close>): \<open>ProxySession\<close>, the service handlers and
  the acceptor. A session is an object of a heap that is destroyed by \<open>delete this\<close>; every
  member function first looks at whether its object is alive, and undefined behaviour is the
  outcome if it is not.
\<close>

section \<open>Data\<close>

datatype service = ProxyHandler | ByPassHandler

datatype svc_event =
    FrontConnect | FrontDisconnect | FrontReadable byte_seq
  | BackConnect | BackDisconnect | BackReadable byte_seq | ServiceDeleted

record session =
  ss_front :: sid
  ss_back :: sid
  ss_service :: "service option"
  ss_front_buffer :: bool
  ss_back_buffer :: bool
  ss_back_connected :: bool
  ss_closed :: bool
  ss_alive :: bool

definition m_buffer_len :: nat where
  "m_buffer_len = 1024 * 2"

record world = reactor_world +
  nsess :: nat
  sessions :: "nat \<Rightarrow> session"
  svc_log :: "(nat \<times> svc_event) list"
  log_text :: "string list"
  acc_alive :: bool
  acc_socket :: sid
  acc_back_addr :: addr
  srv_socket :: "sid option"

text \<open>
  Besides the system calls a run depends on whether a logger is installed (\<open>plog::init\<close> with
  severity \<open>verbose\<close>: the log macros evaluate their arguments only then), on the function
  that creates the service handlers, which may return a null pointer, and on the resolution of
  host names, which gives an address or the exception that \<open>SocketAddress\<close> throws.
\<close>

record config =
  c_os :: os
  c_logging :: bool
  c_creator :: "sid \<Rightarrow> sid \<Rightarrow> service option"
  c_resolve :: "string \<Rightarrow> u16 \<Rightarrow> (exc_class \<times> string \<times> int) + addr"

type_synonym 'a proxy = "(world, 'a) cpp"

definition log_msg :: "config \<Rightarrow> string proxy \<Rightarrow> unit proxy" where
  "log_msg C text = when_do (c_logging C)
     (bnd text (\<lambda>t. modify (\<lambda>w. w\<lparr>log_text := log_text w @ [t]\<rparr>)))"

definition upd_session :: "nat \<Rightarrow> (session \<Rightarrow> session) \<Rightarrow> unit proxy" where
  "upd_session s f = modify (\<lambda>w. w\<lparr>sessions := (sessions w)(s := f (sessions w s))\<rparr>)"

definition with_session :: "nat \<Rightarrow> (session \<Rightarrow> 'a proxy) \<Rightarrow> 'a proxy" where
  "with_session s f = bnd (gets (\<lambda>w. sessions w s)) (\<lambda>x.
     if ss_alive x then f x else throw (UB ''use of a destroyed ProxySession''))"

definition svc_call :: "nat \<Rightarrow> svc_event \<Rightarrow> unit proxy" where
  "svc_call s e = modify (\<lambda>w. w\<lparr>svc_log := svc_log w @ [(s, e)]\<rparr>)"

section \<open>Service handlers\<close>

text \<open>
  \<open>CPOCOProxyHandler\<close> ignores every event, \<open>CPOCOProxyByPassHandler\<close> relays the data. The
  calls a handler receives are recorded in \<open>svc_log\<close>.
\<close>

definition OnFrontConnect :: "nat \<Rightarrow> unit proxy" where
  "OnFrontConnect s = svc_call s FrontConnect"

definition OnFrontDisconnect :: "nat \<Rightarrow> unit proxy" where
  "OnFrontDisconnect s = svc_call s FrontDisconnect"

definition OnBackConnect :: "nat \<Rightarrow> unit proxy" where
  "OnBackConnect s = svc_call s BackConnect"

definition OnBackDisconnect :: "nat \<Rightarrow> unit proxy" where
  "OnBackDisconnect s = svc_call s BackDisconnect"

definition ByPass_OnFrontReadable :: "config \<Rightarrow> sid \<Rightarrow> byte_seq \<Rightarrow> unit proxy" where
  "ByPass_OnFrontReadable C back buffer =
     bnd (StreamSocketImpl_sendBytes (c_os C) back buffer) (\<lambda>_. skip)"

definition ByPass_OnBackReadable :: "config \<Rightarrow> sid \<Rightarrow> byte_seq \<Rightarrow> unit proxy" where
  "ByPass_OnBackReadable C front buffer =
     bnd (StreamSocketImpl_sendBytes (c_os C) front buffer) (\<lambda>_. skip)"

definition OnFrontReadable_virtual ::
  "config \<Rightarrow> nat \<Rightarrow> session \<Rightarrow> service \<Rightarrow> byte_seq \<Rightarrow> unit proxy" where
  "OnFrontReadable_virtual C s x v buffer = andthen (svc_call s (FrontReadable buffer))
     (case v of ProxyHandler \<Rightarrow> skip | ByPassHandler \<Rightarrow> ByPass_OnFrontReadable C (ss_back x) buffer)"

definition OnBackReadable_virtual ::
  "config \<Rightarrow> nat \<Rightarrow> session \<Rightarrow> service \<Rightarrow> byte_seq \<Rightarrow> unit proxy" where
  "OnBackReadable_virtual C s x v buffer = andthen (svc_call s (BackReadable buffer))
     (case v of ProxyHandler \<Rightarrow> skip | ByPassHandler \<Rightarrow> ByPass_OnBackReadable C (ss_front x) buffer)"

definition with_service :: "session \<Rightarrow> (service \<Rightarrow> unit proxy) \<Rightarrow> unit proxy" where
  "with_service x f = (case ss_service x of None \<Rightarrow> skip | Some v \<Rightarrow> f v)"

section \<open>\<open>ProxySession\<close>: registration\<close>

definition front_address :: "config \<Rightarrow> nat \<Rightarrow> string proxy" where
  "front_address C s = with_session s (\<lambda>x.
     bnd (SocketImpl_peerAddress (c_os C) (ss_front x)) (\<lambda>a. ret (addr_toString a)))"

definition back_address :: "config \<Rightarrow> nat \<Rightarrow> string proxy" where
  "back_address C s = with_session s (\<lambda>x.
     bnd (SocketImpl_peerAddress (c_os C) (ss_back x)) (\<lambda>a. ret (addr_toString a)))"

definition session_observer :: "nat \<Rightarrow> nkind \<Rightarrow> callback \<Rightarrow> observer" where
  "session_observer s k m = mkObserver (SessionObj s) k m"

definition RegisterHandler :: "nat \<Rightarrow> unit proxy" where
  "RegisterHandler s = with_session s (\<lambda>x.
     andthen (addEventHandler (ss_front x) (session_observer s Readable OnFrontReadable))
     (andthen (addEventHandler (ss_front x) (session_observer s Shutdown OnFrontShutdown))
     (andthen (addEventHandler (ss_front x) (session_observer s Error OnFrontError))
     (andthen (addEventHandler (ss_back x) (session_observer s Writable OnBackWritable))
     (andthen (addEventHandler (ss_back x) (session_observer s Readable OnBackReadable))
     (andthen (addEventHandler (ss_back x) (session_observer s Shutdown OnBackShutdown))
              (addEventHandler (ss_back x) (session_observer s Error OnBackError))))))))"

definition UnregisterHandler :: "nat \<Rightarrow> unit proxy" where
  "UnregisterHandler s = with_session s (\<lambda>x.
     andthen (removeEventHandler (ss_front x) (session_observer s Readable OnFrontReadable))
     (andthen (removeEventHandler (ss_front x) (session_observer s Shutdown OnFrontShutdown))
     (andthen (removeEventHandler (ss_front x) (session_observer s Error OnFrontError))
     (andthen (removeEventHandler (ss_back x) (session_observer s Writable OnBackWritable))
     (andthen (removeEventHandler (ss_back x) (session_observer s Readable OnBackReadable))
     (andthen (removeEventHandler (ss_back x) (session_observer s Shutdown OnBackShutdown))
     (andthen (removeEventHandler (ss_back x) (session_observer s Error OnBackError))
     (andthen (when_do (ss_front_buffer x) (upd_session s (\<lambda>x. x\<lparr>ss_front_buffer := False\<rparr>)))
              (when_do (ss_back_buffer x) (upd_session s (\<lambda>x. x\<lparr>ss_back_buffer := False\<rparr>)))))))))))"

section \<open>\<open>ProxySession\<close>: life cycle\<close>

text \<open>
  The constructor. Its log line evaluates \<open>front_address()\<close>; if that throws, no session
  comes to be.
\<close>

definition ProxySession_ctor :: "config \<Rightarrow> sid \<Rightarrow> nat proxy" where
  "ProxySession_ctor C front =
     bnd (alloc_socket (c_os C) POCO_INVALID_SOCKET) (\<lambda>back.
     andthen (log_msg C (bnd (SocketImpl_peerAddress (c_os C) front) (\<lambda>a.
        ret (''Front Connection from['' @ addr_toString a @ '']''))))
     (bnd (gets nsess) (\<lambda>s.
      andthen (modify (\<lambda>w. w\<lparr>nsess := Suc s, sessions := (sessions w)(s :=
         \<lparr>ss_front = front, ss_back = back, ss_service = None, ss_front_buffer = True,
          ss_back_buffer = True, ss_back_connected = False, ss_closed = False, ss_alive = True\<rparr>)\<rparr>))
       (ret s))))"

definition ProxySession_dtor :: "nat \<Rightarrow> unit proxy" where
  "ProxySession_dtor s = andthen (UnregisterHandler s) (upd_session s (\<lambda>x. x\<lparr>ss_alive := False\<rparr>))"

text \<open>
  \<open>delete m_service\<close> is the event \<open>ServiceDeleted\<close>. The pointer has the type of the base class, whose
  destructor is not virtual, and a \<open>CPOCOProxyByPassHandler\<close> is installed: C++ leaves that undefined,
  the model takes it for an ordinary deletion. The two names in the log line are read front first;
  C++ leaves the order of arguments open, and the other order differs only in which of two
  exceptions is thrown.
\<close>

definition Close :: "config \<Rightarrow> nat \<Rightarrow> unit proxy" where
  "Close C s = with_session s (\<lambda>x.
     andthen (upd_session s (\<lambda>x. x\<lparr>ss_closed := True\<rparr>))
     (if ss_closed x then skip
      else
        andthen (log_msg C (bnd (front_address C s) (\<lambda>f. bnd (back_address C s) (\<lambda>b.
           ret (''Disconnection front['' @ f @ ''] back['' @ b @ '']'')))))
        (andthen (upd_session s (\<lambda>x. x\<lparr>ss_back_connected := False\<rparr>))
        (andthen (SocketImpl_close (ss_back x))
        (andthen (SocketImpl_close (ss_front x))
        (andthen (with_service x (\<lambda>v. andthen (OnFrontDisconnect s) (andthen (OnBackDisconnect s)
                    (svc_call s ServiceDeleted))))
         (ProxySession_dtor s)))))))"

definition SetService :: "config \<Rightarrow> nat \<Rightarrow> service option \<Rightarrow> addr \<Rightarrow> unit proxy" where
  "SetService C s v a =
     andthen (upd_session s (\<lambda>x. x\<lparr>ss_service := v\<rparr>))
     (andthen (log_msg C (ret (''POCO Try back connection Sesseion ['' @ addr_toString a @ ''] '')))
     (with_session s (\<lambda>x.
      andthen (SocketImpl_connectNB (c_os C) (ss_back x) a)
      (andthen (RegisterHandler s)
        (with_service x (\<lambda>_. OnFrontConnect s))))))"

section \<open>\<open>ProxySession\<close>: notifications\<close>

fun exc_name :: "exc_class \<Rightarrow> string" where
  "exc_name NetException = ''Net Exception''"
| "exc_name IOException = ''I/O error''"
| "exc_name InvalidSocketException = ''Invalid socket''"
| "exc_name InvalidArgumentException = ''Invalid argument''"
| "exc_name TimeoutException = ''Timeout''"
| "exc_name ConnectionAbortedException = ''Software caused connection abort''"
| "exc_name ConnectionResetException = ''Connection reset by peer''"
| "exc_name ConnectionRefusedException = ''Connection refused''"
| "exc_name DNSException = ''DNS error''"
| "exc_name HostNotFoundException = ''Host not found''"
| "exc_name NoAddressFoundException = ''No address found''"
| "exc_name InvalidAddressException = ''Invalid address''"
| "exc_name ServiceNotFoundException = ''Service not found''"
| "exc_name AddressFamilyMismatchException = ''Address family mismatch''"
| "exc_name AssertionViolationException = ''Assertion violation''"
| "exc_name NotImplementedException = ''Not implemented''"

fun displayText :: "exn \<Rightarrow> string" where
  "displayText (Poco c t n) = (if t = [] then exc_name c else exc_name c @ '': '' @ t)"
| "displayText _ = []"

definition session_error :: "config \<Rightarrow> nat \<Rightarrow> exn \<Rightarrow> unit proxy" where
  "session_error C s e =
     andthen (log_msg C (bnd (front_address C s) (\<lambda>f.
        ret (''POCO Sesseion ['' @ f @ ''] error : ['' @ displayText e @ '']''))))
     (Close C s)"

definition onFrontReadable :: "config \<Rightarrow> nat \<Rightarrow> nkind \<Rightarrow> unit proxy" where
  "onFrontReadable C s k = andthen (modify (nf_release k))
     (catch_poco
       (with_session s (\<lambda>x.
          if \<not> ss_back_connected x then skip
          else bnd (SocketImpl_receiveBytes (c_os C) (ss_front x) m_buffer_len) (\<lambda>(n, buffer).
            if n \<le> 0 then Close C s
            else with_service x (\<lambda>v. OnFrontReadable_virtual C s x v buffer))))
       (session_error C s))"

definition onBackReadable :: "config \<Rightarrow> nat \<Rightarrow> nkind \<Rightarrow> unit proxy" where
  "onBackReadable C s k = andthen (modify (nf_release k))
     (catch_poco
       (with_session s (\<lambda>x.
          if \<not> ss_back_connected x then skip
          else bnd (SocketImpl_receiveBytes (c_os C) (ss_back x) m_buffer_len) (\<lambda>(n, buffer).
            if n \<le> 0 then Close C s
            else with_service x (\<lambda>v. OnBackReadable_virtual C s x v buffer))))
       (session_error C s))"

definition onBackWritable :: "config \<Rightarrow> nat \<Rightarrow> nkind \<Rightarrow> unit proxy" where
  "onBackWritable C s k = andthen (modify (nf_release k))
     (catch_poco
       (with_session s (\<lambda>x.
          when_do (\<not> ss_back_connected x)
            (andthen (upd_session s (\<lambda>x. x\<lparr>ss_back_connected := True\<rparr>))
            (andthen (with_service x (\<lambda>_. OnBackConnect s))
              (log_msg C (bnd (back_address C s) (\<lambda>b.
                 ret (''Back Connection from['' @ b @ '']''))))))))
       (session_error C s))"

text \<open>Shutdown and error notifications: a log line naming the front, then \<open>Close\<close>.\<close>

definition onFrontShutdown :: "config \<Rightarrow> nat \<Rightarrow> nkind \<Rightarrow> unit proxy" where
  "onFrontShutdown C s k = andthen (modify (nf_release k))
     (andthen (log_msg C (bnd (front_address C s) (\<lambda>f. ret (''onShutdown from['' @ f @ '']''))))
       (Close C s))"

definition onFrontError :: "config \<Rightarrow> nat \<Rightarrow> nkind \<Rightarrow> unit proxy" where
  "onFrontError C s k = andthen (modify (nf_release k))
     (andthen (log_msg C (bnd (front_address C s) (\<lambda>f. ret (''onError from['' @ f @ '']''))))
       (Close C s))"

definition onBackShutdown :: "config \<Rightarrow> nat \<Rightarrow> nkind \<Rightarrow> unit proxy" where
  "onBackShutdown C s k = andthen (modify (nf_release k))
     (andthen (log_msg C (bnd (front_address C s) (\<lambda>f. ret (''onShutdown from['' @ f @ '']''))))
       (Close C s))"

definition onBackError :: "config \<Rightarrow> nat \<Rightarrow> nkind \<Rightarrow> unit proxy" where
  "onBackError C s k = andthen (modify (nf_release k))
     (andthen (log_msg C (bnd (front_address C s) (\<lambda>f. ret (''onError from['' @ f @ '']''))))
       (Close C s))"

text \<open>Writable of the front, and the timeout and idle handlers: only the release.\<close>

definition onRelease :: "nkind \<Rightarrow> unit proxy" where
  "onRelease k = modify (nf_release k)"

definition session_callback :: "config \<Rightarrow> nat \<Rightarrow> callback \<Rightarrow> nkind \<Rightarrow> unit proxy" where
  "session_callback C s m k = with_session s (\<lambda>_. case m of
      OnFrontReadable \<Rightarrow> onFrontReadable C s k
    | OnFrontShutdown \<Rightarrow> onFrontShutdown C s k
    | OnFrontError \<Rightarrow> onFrontError C s k
    | OnBackWritable \<Rightarrow> onBackWritable C s k
    | OnBackReadable \<Rightarrow> onBackReadable C s k
    | OnBackShutdown \<Rightarrow> onBackShutdown C s k
    | OnBackError \<Rightarrow> onBackError C s k
    | OnAccept \<Rightarrow> throw (UB ''not a member of ProxySession'')
    | _ \<Rightarrow> onRelease k)"

section \<open>The acceptor\<close>

text \<open>
  When the constructor of the session throws, \<open>sock\<close> in \<open>onAccept\<close> is the last reference to
  the accepted socket: unwinding closes it. When \<open>SetService\<close> throws, the session keeps it.
\<close>

definition createServiceHandler :: "config \<Rightarrow> sid \<Rightarrow> unit proxy" where
  "createServiceHandler C front =
     bnd (catch_poco (ProxySession_ctor C front)
            (\<lambda>e. andthen (SocketImpl_close front) (throw e))) (\<lambda>s.
     bnd (gets (\<lambda>w. (c_creator C (ss_front (sessions w s)) (ss_back (sessions w s)), acc_back_addr w)))
       (\<lambda>(v, a). SetService C s v a))"

definition onAccept :: "config \<Rightarrow> nkind \<Rightarrow> unit proxy" where
  "onAccept C k = andthen (modify (nf_release k))
     (bnd (gets (\<lambda>w. (acc_alive w, acc_socket w))) (\<lambda>(alive, s).
      if \<not> alive then throw (UB ''use of a destroyed acceptor'')
      else bnd (SocketImpl_acceptConnection (c_os C) s) (createServiceHandler C)))"

definition acceptor_observer :: observer where
  "acceptor_observer = mkObserver AcceptorObj Readable OnAccept"

definition CPOCOProxyAcceptor_ctor :: "sid \<Rightarrow> addr \<Rightarrow> unit proxy" where
  "CPOCOProxyAcceptor_ctor s a =
     andthen (modify (\<lambda>w. w\<lparr>acc_alive := True, acc_socket := s, acc_back_addr := a\<rparr>))
       (addEventHandler s acceptor_observer)"

definition CPOCOProxyAcceptor_dtor :: "unit proxy" where
  "CPOCOProxyAcceptor_dtor = bnd (gets acc_socket) (\<lambda>s.
     andthen (removeEventHandler s acceptor_observer) (modify (\<lambda>w. w\<lparr>acc_alive := False\<rparr>)))"

definition proxy_dispatch :: "config \<Rightarrow> world dispatcher" where
  "proxy_dispatch C p m k = (case p of
      SessionObj s \<Rightarrow> session_callback C s m k
    | AcceptorObj \<Rightarrow> if m = OnAccept then onAccept C k
                    else throw (UB ''not a member of the acceptor''))"

section \<open>A proxy for examples\<close>

definition sample_config :: config where
  "sample_config = \<lparr>c_os = sample_os, c_logging = False, c_creator = \<lambda>_ _. Some ByPassHandler,
     c_resolve = \<lambda>_ _. Inr sample_addr\<rparr>"

text \<open>Nothing running: no notifier, no observer, no session.\<close>

definition initial_world :: world where
  "initial_world = \<lparr>clk = 0, nsock = 0, socks = (\<lambda>_. sample_sock), wire = [], nobs = 0,
     observers = (\<lambda>_. mkObserver AcceptorObj Readable OnAccept), nnotif = 0,
     notifiers = (\<lambda>_. \<lparr>nf_events = [], nf_observers = [], nf_socket = 0\<rparr>), nf_refs = (\<lambda>_. 1),
     nf_current = (\<lambda>_. None), pollset = empty_pollset, r_handlers = [], r_timeout = DEFAULT_TIMEOUT,
     nsess = 0, sessions = (\<lambda>_. \<lparr>ss_front = 0, ss_back = 0, ss_service = None, ss_front_buffer = False,
       ss_back_buffer = False, ss_back_connected = False, ss_closed = False, ss_alive = False\<rparr>),
     svc_log = [], log_text = [], acc_alive = False, acc_socket = 0, acc_back_addr = sample_addr,
     srv_socket = None\<rparr>"

text \<open>One connected session with a relaying service, not yet registered and registered.\<close>

definition session_world :: world where
  "session_world = initial_world\<lparr>nsock := 2,
     socks := (\<lambda>_. sample_sock)(1 := sample_sock\<lparr>sockfd := 8, blocking := False\<rparr>),
     nsess := 1, sessions := (\<lambda>_. \<lparr>ss_front = 0, ss_back = 1, ss_service = Some ByPassHandler,
       ss_front_buffer = True, ss_back_buffer = True, ss_back_connected = True, ss_closed = False,
       ss_alive = True\<rparr>)\<rparr>"

definition registered_world :: world where
  "registered_world = snd (RegisterHandler 0 session_world)"

end
