(* ===== verification/Stream_Send.thy ===== *)
theory Stream_Send
  imports Socket_Impl
begin

text \<open>
  What \<open>StreamSocketImpl::sendBytes\<close> promises: on a blocking socket it returns only when
  the system has accepted the whole buffer, in order; on a non-blocking one it sends a prefix.
\<close>

section \<open>Documented behaviour of the system calls\<close>

definition send_documented :: "os \<Rightarrow> bool" where
  "send_documented S \<longleftrightarrow>
     (\<forall>n fd b m. os_send S n fd b = Ok m \<longrightarrow> m \<le> length b)
     \<and> (\<forall>n fd b. os_send S n fd b \<noteq> Err ENOERR)"

definition recv_documented :: "os \<Rightarrow> bool" where
  "recv_documented S \<longleftrightarrow>
     (\<forall>n fd l bs. os_recv S n fd l = Ok bs \<longrightarrow> length bs \<le> l)
     \<and> (\<forall>n fd l. os_recv S n fd l \<noteq> Err ENOERR)"

definition no_timeouts :: "socket_impl \<Rightarrow> bool" where
  "no_timeouts i \<longleftrightarrow> (isBrokenTimeout i \<longrightarrow> recvTimeout i = 0 \<and> sndTimeout i = 0)"

lemma checkBrokenTimeout_none [simp]:
  "no_timeouts (socks w s) \<Longrightarrow> SocketImpl_checkBrokenTimeout S s m w = (Inr (), w)"
  by (auto simp: SocketImpl_checkBrokenTimeout_def no_timeouts_def comp_simps Let_def)

section \<open>One call of \<open>send\<close>\<close>

lemma guard_fd_run:
  "guard_fd s f w = (if sockfd (socks w s) = POCO_INVALID_SOCKET then (Inl invalidSocket, w)
     else f (sockfd (socks w s)) w)"
  by (simp add: guard_fd_def comp_simps)

lemma send_loop_Suc:
  "send_loop (Suc k) S s b w =
    (if sockfd (socks w s) = POCO_INVALID_SOCKET then (Inl invalidSocket, w)
     else (let w' = w\<lparr>clk := Suc (clk w)\<rparr> in
       case os_send S (clk w) (sockfd (socks w s)) b of
         Ok n \<Rightarrow> (Inr (Ok n), w'\<lparr>wire := wire w @ [Sent s (take n b)]\<rparr>)
       | Err e \<Rightarrow> if blocking (socks w s) \<and> e = EINTR then send_loop k S s b w' else (Inr (Err e), w')))"
  by (simp add: guard_fd_run comp_simps syscall_def record_io_def Let_def split: sysres.split)

declare send_loop.simps(2) [simp del]

lemma send_loop_effect:
  assumes "send_documented S" and "send_loop k S s b w = (r, w')"
  shows "socks w' = socks w \<and>
    (case r of Inr (Ok n) \<Rightarrow> n \<le> length b \<and> wire w' = wire w @ [Sent s (take n b)]
     | Inr (Err e) \<Rightarrow> e \<noteq> ENOERR \<and> wire w' = wire w
     | Inl e \<Rightarrow> e \<noteq> UB t \<and> wire w' = wire w)"
  using assms(2)
proof (induction k arbitrary: w)
  case 0
  then show ?case by (auto simp: throw_def)
next
  case (Suc k)
  show ?case
  proof (cases "sockfd (socks w s) = POCO_INVALID_SOCKET")
    case True
    with Suc.prems show ?thesis by (auto simp: send_loop_Suc invalidSocket_def)
  next
    case False
    show ?thesis
    proof (cases "os_send S (clk w) (sockfd (socks w s)) b")
      case (Ok n)
      with Suc.prems False assms(1) show ?thesis
        by (auto simp: send_loop_Suc Let_def send_documented_def)
    next
      case (Err e)
      with assms(1) have "e \<noteq> ENOERR" by (auto simp: send_documented_def)
      with Suc.prems False Err show ?thesis
        by (auto simp: send_loop_Suc Let_def split: if_splits sum.splits sysres.splits dest!: Suc.IH)
    qed
  qed
qed

lemma sendBytes_effect:
  assumes "send_documented S" and "no_timeouts (socks w s)"
    and "SocketImpl_sendBytes S s b w = (r, w')"
  shows "socks w' = socks w \<and>
    (case r of Inr n \<Rightarrow> 0 \<le> n \<and> nat n \<le> length b \<and> wire w' = wire w @ [Sent s (take (nat n) b)]
     | Inl e \<Rightarrow> e \<noteq> UB t \<and> wire w' = wire w)"
proof -
  obtain q w1 where l: "send_loop (os_fuel S) S s b w = (q, w1)" by (cases "send_loop (os_fuel S) S s b w")
  note eff = send_loop_effect [OF assms(1) l, of t]
  show ?thesis
  proof (cases q)
    case (Inl e)
    with assms l eff show ?thesis by (auto simp: SocketImpl_sendBytes_def comp_simps)
  next
    case (Inr x)
    show ?thesis
    proof (cases x)
      case (Ok n)
      with Inr assms l eff show ?thesis by (auto simp: SocketImpl_sendBytes_def comp_simps)
    next
      case (Err e)
      with Inr eff have "e \<noteq> ENOERR" by simp
      then obtain c m where "error_exn e [] = Some (Poco c m (wsa_code e))"
        using error_exn_code by blast
      with Err Inr assms l eff show ?thesis
        by (auto simp: SocketImpl_sendBytes_def comp_simps SocketImpl_error_def)
    qed
  qed
qed

text \<open>Without the assumption on timeouts only the sign of the result is known.\<close>

lemma sendBytes_nonneg:
  assumes "send_documented S" and "SocketImpl_sendBytes S s b w = (Inr n, w')"
  shows "0 \<le> n"
proof -
  obtain q w1 where c: "SocketImpl_checkBrokenTimeout S s SELECT_WRITE w = (q, w1)"
    by (cases "SocketImpl_checkBrokenTimeout S s SELECT_WRITE w")
  obtain r w2 where l: "send_loop (os_fuel S) S s b w1 = (r, w2)"
    by (cases "send_loop (os_fuel S) S s b w1")
  have "e \<noteq> ENOERR" if "r = Inr (Err e)" for e
    using send_loop_effect [OF assms(1) l] that by simp
  then have "\<exists>c m. error_exn e [] = Some (Poco c m (wsa_code e))" if "r = Inr (Err e)" for e
    using that error_exn_code by blast
  with assms(2) c l show ?thesis
    by (fastforce simp: SocketImpl_sendBytes_def comp_simps SocketImpl_error_def
        split: sum.splits sysres.splits)
qed

section \<open>The send loop\<close>

text \<open>\<open>send_result block sent len j r\<close>: \<open>r\<close> is right for a loop that sent \<open>j\<close> of \<open>len\<close> bytes.\<close>

definition send_result :: "bool \<Rightarrow> int \<Rightarrow> nat \<Rightarrow> nat \<Rightarrow> exn + int \<Rightarrow> bool" where
  "send_result block sent len j r = (case r of
      Inr n \<Rightarrow> n = sent + int j \<and> (block \<longrightarrow> j = len)
    | Inl e \<Rightarrow> (\<forall>t. e \<noteq> UB t))"

lemma send_result_shift:
  "send_result block (sent + n) (len - nat n) j r \<Longrightarrow> 0 \<le> n \<Longrightarrow> nat n \<le> len \<Longrightarrow>
   send_result block sent len (nat n + j) r"
  by (auto simp: send_result_def split: sum.splits)

lemma stream_send_loop_effect:
  assumes "send_documented S" and "no_timeouts (socks w s)"
    and "stream_send_loop k S s block p sent w = (r, w')"
  shows "socks w' = socks w \<and>
    (\<exists>j \<le> length p. sent_bytes s (wire w') = sent_bytes s (wire w) @ take j p
       \<and> (\<forall>s'. s' \<noteq> s \<longrightarrow> sent_bytes s' (wire w') = sent_bytes s' (wire w))
       \<and> send_result block sent (length p) j r)"
  using assms(2,3)
proof (induction k arbitrary: p sent w)
  case 0
  then show ?case by (auto simp: throw_def send_result_def intro: exI [of _ 0])
next
  case (Suc k)
  show ?case
  proof (cases "p = []")
    case True
    with Suc.prems show ?thesis by (auto simp: ret_def send_result_def)
  next
    case False
    obtain q w1 where one: "SocketImpl_sendBytes S s p w = (q, w1)"
      by (cases "SocketImpl_sendBytes S s p w")
    note eff = sendBytes_effect [OF assms(1) Suc.prems(1) one]
    show ?thesis
    proof (cases q)
      case (Inl e)
      with eff one False Suc.prems show ?thesis
        by (auto simp: comp_simps send_result_def intro: exI [of _ 0])
    next
      case (Inr n)
      with eff have n: "0 \<le> n" "nat n \<le> length p" "socks w1 = socks w"
        "wire w1 = wire w @ [Sent s (take (nat n) p)]" by auto
      show ?thesis
      proof (cases "block \<and> drop (nat n) p \<noteq> []")
        case True
        with Inr one False n Suc.prems
        have rest: "stream_send_loop k S s block (drop (nat n) p) (sent + n) w1 = (r, w')"
          by (simp add: comp_simps Let_def)
        have "no_timeouts (socks w1 s)" using Suc.prems(1) n(3) by simp
        from Suc.IH [OF this rest] n obtain j where j: "j \<le> length p - nat n"
          "socks w' = socks w"
          "sent_bytes s (wire w') = sent_bytes s (wire w) @ take (nat n) p @ take j (drop (nat n) p)"
          "\<forall>s'. s' \<noteq> s \<longrightarrow> sent_bytes s' (wire w') = sent_bytes s' (wire w)"
          "send_result block (sent + n) (length p - nat n) j r"
          by auto
        then have "send_result block sent (length p) (nat n + j) r"
          using n by (intro send_result_shift)
        with j n show ?thesis
          by (intro conjI exI [of _ "nat n + j"]) (auto simp: take_add)
      next
        case no: False
        with Inr one False n Suc.prems have "r = Inr (sent + n)" "w' = w1"
          by (auto simp: comp_simps Let_def)
        with n no show ?thesis
          by (intro conjI exI [of _ "nat n"]) (auto simp: send_result_def)
      qed
    qed
  qed
qed

text \<open>Total: when every call accepts at least one byte, fuel of the buffer's length is enough.\<close>

definition send_progress :: "os \<Rightarrow> bool" where
  "send_progress S \<longleftrightarrow>
     (\<forall>n fd b. b \<noteq> [] \<longrightarrow> (\<exists>m. os_send S n fd b = Ok m \<and> 0 < m \<and> m \<le> length b))"

lemma sendBytes_progress:
  assumes "send_progress S" and "no_timeouts (socks w s)" and "0 < os_fuel S"
    and "sockfd (socks w s) \<noteq> POCO_INVALID_SOCKET" and "b \<noteq> []"
  obtains m where "0 < m" "m \<le> length b"
    "SocketImpl_sendBytes S s b w =
       (Inr (int m), w\<lparr>clk := Suc (clk w), wire := wire w @ [Sent s (take m b)]\<rparr>)"
proof -
  from assms(1,5) obtain m where m: "os_send S (clk w) (sockfd (socks w s)) b = Ok m"
    "0 < m" "m \<le> length b"
    unfolding send_progress_def by blast
  from assms(3) obtain k where "os_fuel S = Suc k" by (cases "os_fuel S") auto
  with m assms show thesis
    by (intro that [OF m(2,3)]) (simp add: SocketImpl_sendBytes_def comp_simps send_loop_Suc Let_def)
qed

lemma stream_send_loop_total:
  assumes "send_progress S" and "0 < os_fuel S"
  shows "length p < k \<Longrightarrow> no_timeouts (socks w s) \<Longrightarrow> sockfd (socks w s) \<noteq> POCO_INVALID_SOCKET \<Longrightarrow>
    \<exists>n w'. stream_send_loop k S s block p sent w = (Inr n, w')"
proof (induction k arbitrary: p sent w)
  case (Suc k)
  show ?case
  proof (cases "p = []")
    case False
    obtain m where m: "0 < m" "m \<le> length p" "SocketImpl_sendBytes S s p w =
        (Inr (int m), w\<lparr>clk := Suc (clk w), wire := wire w @ [Sent s (take m p)]\<rparr>)" (is "_ = (_, ?w1)")
      by (rule sendBytes_progress [OF assms(1) Suc.prems(2) assms(2) Suc.prems(3) False])
    have "\<exists>n w'. stream_send_loop k S s block (drop m p) (sent + int m) ?w1 = (Inr n, w')"
      by (rule Suc.IH) (use Suc.prems m in auto)
    with m False show ?thesis by (auto simp: comp_simps Let_def)
  qed (simp add: ret_def)
qed simp

section \<open>Properties\<close>

text \<open>C14: \<open>StreamSocketImpl::sendBytes\<close> is a prefix send. Whatever the system calls answer, the
  bytes it hands to the system for its socket are a prefix of the buffer, in order and without
  repetition, and no other socket's stream changes. If it returns, it returns their number, and on
  a blocking socket that is the whole buffer. If it throws, it is not by undefined behaviour.\<close>

theorem sendBytes_prefix:
  assumes "send_documented S" and "no_timeouts (socks w s)"
    and "StreamSocketImpl_sendBytes S s buffer w = (r, w')"
  shows "\<exists>j \<le> length buffer.
      sent_bytes s (wire w') = sent_bytes s (wire w) @ take j buffer
    \<and> (\<forall>s'. s' \<noteq> s \<longrightarrow> sent_bytes s' (wire w') = sent_bytes s' (wire w))
    \<and> (case r of Inr n \<Rightarrow> n = int j \<and> (blocking (socks w s) \<longrightarrow> j = length buffer)
       | Inl e \<Rightarrow> \<forall>t. e \<noteq> UB t)"
  using stream_send_loop_effect [OF assms(1,2), of "os_fuel S" "blocking (socks w s)" buffer 0 r w']
    assms(3)
  by (cases r) (auto simp: StreamSocketImpl_sendBytes_def comp_simps send_result_def)

lemma sample_send_documented: "send_documented sample_os"
  by (simp add: send_documented_def sample_os_def)

lemma sample_send_progress: "send_progress sample_os"
  by (auto simp: send_progress_def sample_os_def)

theorem sendBytes_prefix_witness:
  "\<exists>r w' j. StreamSocketImpl_sendBytes sample_os 0 [10, 11, 12, 13, 14] sample_sock_world = (r, w')
     \<and> sent_bytes 0 (wire w') = take j [10, 11, 12, 13, 14]"
proof -
  obtain r w' where r: "StreamSocketImpl_sendBytes sample_os 0 [10, 11, 12, 13, 14] sample_sock_world = (r, w')"
    by (cases "StreamSocketImpl_sendBytes sample_os 0 [10, 11, 12, 13, 14] sample_sock_world")
  have "no_timeouts (socks sample_sock_world 0)"
    by (simp add: no_timeouts_def sample_sock_world_def sample_sock_def)
  from sendBytes_prefix [OF sample_send_documented this r] r show ?thesis
    by (auto simp: sample_sock_world_def)
qed

text \<open>C15: On a blocking socket that is open, when every \<open>send\<close> accepts at least one byte,
  \<open>sendBytes\<close> returns for every buffer (the loop makes at most one call per byte), with the length
  of the buffer, and the whole buffer is on the wire.\<close>

theorem sendBytes_total:
  assumes "send_documented S" and "send_progress S" and "no_timeouts (socks w s)"
    and "length buffer < os_fuel S"
    and "sockfd (socks w s) \<noteq> POCO_INVALID_SOCKET" and "blocking (socks w s)"
  shows "\<exists>w'. StreamSocketImpl_sendBytes S s buffer w = (Inr (int (length buffer)), w')
    \<and> sent_bytes s (wire w') = sent_bytes s (wire w) @ buffer"
proof -
  have "0 < os_fuel S" using assms(4) by simp
  from stream_send_loop_total [OF assms(2) this assms(4,3,5)] obtain n w' where
    run: "stream_send_loop (os_fuel S) S s True buffer 0 w = (Inr n, w')" by blast
  from stream_send_loop_effect [OF assms(1,3) run] run assms(6)
  show ?thesis by (auto simp: StreamSocketImpl_sendBytes_def comp_simps send_result_def)
qed

theorem sendBytes_total_witness:
  "\<exists>w'. StreamSocketImpl_sendBytes sample_os 1 [20, 21, 22, 23] sample_sock_world = (Inr 4, w')
    \<and> sent_bytes 1 (wire w') = [20, 21, 22, 23]"
proof -
  have nt: "no_timeouts (socks sample_sock_world 1)" and b: "blocking (socks sample_sock_world 1)"
    and fd: "sockfd (socks sample_sock_world 1) \<noteq> POCO_INVALID_SOCKET" and w: "wire sample_sock_world = []"
    by (simp_all add: no_timeouts_def sample_sock_world_def sample_sock_def POCO_INVALID_SOCKET_def)
  have len: "length ([20, 21, 22, 23] :: byte_seq) < os_fuel sample_os" by (simp add: sample_os_def)
  show ?thesis using sendBytes_total [OF sample_send_documented sample_send_progress nt len fd b] w by simp
qed

end
