(* ===== verification/Reactor_Client.thy ===== *)
theory Reactor_Client
  imports Reactor Stream_Send
begin

text \<open>
  The contract between the reactor and the objects it calls back, as a locale: as long as every
  callback that the reactor can make keeps the client's invariant, the whole event loop does,
  and none of it has undefined behaviour.
\<close>

section \<open>The registry of the reactor\<close>

text \<open>
  Notifiers and observers named by a live structure are allocated. \<open>older N M\<close>: at least \<open>N\<close>
  observers and \<open>M\<close> notifiers exist; it is what a loop over a copied list remembers.
\<close>

definition registry_ok :: "'a reactor_world_scheme \<Rightarrow> bool" where
  "registry_ok w \<longleftrightarrow> (\<forall>x i. map_of (r_handlers w) x = Some i \<longrightarrow> i < nnotif w)
     \<and> (\<forall>i < nnotif w. notifier_ok i w) \<and> omap_ok (r_handlers w)"

definition older :: "nat \<Rightarrow> nat \<Rightarrow> 'a notif_world_scheme \<Rightarrow> bool" where
  "older N M w \<longleftrightarrow> N \<le> nobs w \<and> M \<le> nnotif w"

text \<open>Frame: what the reactor does to the state outside its registry.\<close>

definition reactor_stable :: "('a reactor_world_scheme \<Rightarrow> bool) \<Rightarrow> bool" where
  "reactor_stable P \<longleftrightarrow> (\<forall>w c n f t p r cur. P w \<longrightarrow> nsock w \<le> n \<longrightarrow>
     P (w\<lparr>clk := c, nsock := n, socks := f, wire := t, pollset := p, nf_refs := r, nf_current := cur\<rparr>))"

lemma reactor_stableD:
  "reactor_stable P \<Longrightarrow> P w \<Longrightarrow> nsock w \<le> n \<Longrightarrow>
   P (w\<lparr>clk := c, nsock := n, socks := f, wire := t, pollset := p, nf_refs := r, nf_current := cur\<rparr>)"
  by (simp add: reactor_stable_def)

lemma reactor_stable_sock: "reactor_stable P \<Longrightarrow> sock_stable P"
  unfolding sock_stable_def
proof (intro allI impI)
  fix w c n f t assume "reactor_stable P" "P w" "nsock w \<le> n"
  then have "P (w\<lparr>clk := c, nsock := n, socks := f, wire := t, pollset := pollset w,
      nf_refs := nf_refs w, nf_current := nf_current w\<rparr>)" by (rule reactor_stableD)
  then show "P (w\<lparr>clk := c, nsock := n, socks := f, wire := t\<rparr>)" by simp
qed

text \<open>\<open>poll_stable\<close>: the reactor itself touches only the clock, the poll set and the notifications.\<close>

definition poll_stable :: "('a reactor_world_scheme \<Rightarrow> bool) \<Rightarrow> bool" where
  "poll_stable P \<longleftrightarrow> (\<forall>w c p r cur. P w \<longrightarrow> P (w\<lparr>clk := c, pollset := p, nf_refs := r, nf_current := cur\<rparr>))"

lemma reactor_stable_poll: "reactor_stable P \<Longrightarrow> poll_stable P"
  unfolding poll_stable_def
proof (intro allI impI)
  fix w c p r cur assume "reactor_stable P" "P w"
  from reactor_stableD [OF this order_refl, where c = c and f = "socks w" and t = "wire w" and p = p
      and r = r and cur = cur]
  show "P (w\<lparr>clk := c, pollset := p, nf_refs := r, nf_current := cur\<rparr>)" by simp
qed

lemma poll_stable_parts:
  assumes "poll_stable P" and "P w"
  shows "P (w\<lparr>clk := c\<rparr>)" "P (w\<lparr>pollset := p\<rparr>)" "P (w\<lparr>nf_refs := r\<rparr>)" "P (w\<lparr>nf_current := cur\<rparr>)"
proof -
  have all: "P (w\<lparr>clk := c, pollset := p, nf_refs := r, nf_current := cur\<rparr>)" for c p r cur
    using assms by (simp add: poll_stable_def)
  show "P (w\<lparr>clk := c\<rparr>)"
    using all [where c = c and p = "pollset w" and r = "nf_refs w" and cur = "nf_current w"] by simp
  show "P (w\<lparr>pollset := p\<rparr>)"
    using all [where c = "clk w" and p = p and r = "nf_refs w" and cur = "nf_current w"] by simp
  show "P (w\<lparr>nf_refs := r\<rparr>)"
    using all [where c = "clk w" and p = "pollset w" and r = r and cur = "nf_current w"] by simp
  show "P (w\<lparr>nf_current := cur\<rparr>)"
    using all [where c = "clk w" and p = "pollset w" and r = "nf_refs w" and cur = cur] by simp
qed

lemma poll_stable_release: "poll_stable P \<Longrightarrow> P w \<Longrightarrow> P (nf_release k w)"
  by (simp add: nf_release_def poll_stable_parts)

lemma poll_stable_duplicate: "poll_stable P \<Longrightarrow> P w \<Longrightarrow> P (nf_duplicate k w)"
  by (simp add: nf_duplicate_def poll_stable_parts)

lemma poll_stable_setSocket: "poll_stable P \<Longrightarrow> P w \<Longrightarrow> P (nf_setSocket k s w)"
  by (simp add: nf_setSocket_def poll_stable_parts)

lemmas reactor_stable_release = poll_stable_release [OF reactor_stable_poll]
lemmas reactor_stable_pollset = poll_stable_parts(2) [OF reactor_stable_poll]

lemma reactor_stable_conj:
  "reactor_stable P \<Longrightarrow> reactor_stable Q \<Longrightarrow> reactor_stable (\<lambda>w. P w \<and> Q w)"
  by (simp add: reactor_stable_def)

lemma poll_stable_conj: "poll_stable P \<Longrightarrow> poll_stable Q \<Longrightarrow> poll_stable (\<lambda>w. P w \<and> Q w)"
  by (simp add: poll_stable_def)

lemma older_stable: "reactor_stable (older N M)"
  by (simp add: reactor_stable_def older_def)

lemma keeps_poll_syscall: "poll_stable P \<Longrightarrow> keeps P (syscall f)"
  by (auto simp: keeps_def valid_def syscall_def poll_stable_parts)

lemma keeps_PollSet_poll_loop:
  assumes "poll_stable P"
  shows "keeps P (PollSet_poll_loop k S remaining)"
proof (induction k arbitrary: remaining)
  case 0
  show ?case by (simp add: keep)
next
  case (Suc k)
  note keep [intro!] and keeps_syscall [rule del] and keeps_poll_syscall [OF assms, intro!]
  from Suc show ?case
    by (auto intro!: keeps_modify simp: poll_stable_parts [OF assms] split: prod.split)
qed

lemma keeps_PollSet_poll: "poll_stable P \<Longrightarrow> keeps P (PollSet_poll S timeout)"
  unfolding PollSet_poll_def
  by (intro keep keeps_PollSet_poll_loop keeps_modify) (auto simp: poll_stable_parts)

section \<open>The contract\<close>

locale reactor_client =
  fixes cb :: "('a reactor_world_scheme) dispatcher"
    and ok :: "'a reactor_world_scheme \<Rightarrow> bool"
  assumes stable: "poll_stable ok"
    and registry: "ok w \<Longrightarrow> registry_ok w"
    and callback: "valid
        (\<lambda>w. ok w \<and> older N M w \<and> (\<exists>j < nobs w. observers w j = mkObserver p k m))
        (cb p m k) (\<lambda>_ w. ok w \<and> older N M w) (\<lambda>w. ok w \<and> older N M w)"
begin

abbreviation inv :: "nat \<Rightarrow> nat \<Rightarrow> 'a reactor_world_scheme \<Rightarrow> bool" where
  "inv N M \<equiv> \<lambda>w. ok w \<and> older N M w"

lemma inv_stable: "poll_stable (inv N M)"
  by (intro poll_stable_conj stable reactor_stable_poll [OF older_stable])

lemma keeps_notify:
  assumes "j < N"
  shows "keeps (inv N M) (Observer_notify cb k j)"
  unfolding keeps_def
proof (rule validI)
  fix w assume w: "inv N M w"
  show "outcome (\<lambda>_. inv N M) (inv N M) (Observer_notify cb k j w)"
  proof (cases "\<exists>p. ob_obj (observers w j) = Some p \<and> ob_kind (observers w j) = k")
    case True
    then obtain p where p: "ob_obj (observers w j) = Some p" "ob_kind (observers w j) = k" by blast
    let ?m = "ob_method (observers w j)"
    from p have "observers (nf_duplicate k w) j = mkObserver p k ?m"
      by (cases "observers w j") (simp add: nf_duplicate_def mkObserver_def)
    moreover have "j < nobs (nf_duplicate k w)"
      using w assms by (auto simp: older_def nf_duplicate_def)
    moreover have "inv N M (nf_duplicate k w)"
      by (rule poll_stable_duplicate [OF inv_stable w])
    ultimately have "outcome (\<lambda>_. inv N M) (inv N M) (cb p ?m k (nf_duplicate k w))"
      using validD [OF callback [of N M p k ?m]] by blast
    with p show ?thesis by (simp add: Observer_notify_def comp_simps Observer_accepts_def)
  next
    case False
    with w show ?thesis
      by (auto simp: Observer_notify_def comp_simps Observer_accepts_def split: option.split)
  qed
qed

lemma keeps_post:
  assumes "i < M"
  shows "keeps (inv N M) (NotificationCenter_postNotification cb i k)"
  unfolding NotificationCenter_postNotification_def
proof (rule keeps_finally)
  show "keeps (inv N M) (bnd (gets (\<lambda>w. nf_observers (notifiers w i)))
      (\<lambda>js. for_each js (Observer_notify cb k)))"
    unfolding keeps_def
  proof (rule validI)
    fix w assume w: "inv N M w"
    let ?js = "nf_observers (notifiers w i)"
    have "i < nnotif w" using w assms by (simp add: older_def)
    then have js: "j < nobs w" if "j \<in> set ?js" for j
      using w registry that by (auto simp: registry_ok_def notifier_ok_def)
    have "keeps (inv (nobs w) M) (for_each ?js (Observer_notify cb k))"
      by (intro keeps_for_each keeps_notify js)
    moreover have "inv (nobs w) M w" using w by (simp add: older_def)
    ultimately have "outcome (\<lambda>_. inv (nobs w) M) (inv (nobs w) M) (for_each ?js (Observer_notify cb k) w)"
      unfolding keeps_def by (rule validD)
    then have "outcome (\<lambda>_. inv N M) (inv N M) (for_each ?js (Observer_notify cb k) w)"
      by (rule outcome_mono) (use w in \<open>auto simp: older_def\<close>)
    then show "outcome (\<lambda>_. inv N M) (inv N M) (bnd (gets (\<lambda>w. nf_observers (notifiers w i)))
        (\<lambda>js. for_each js (Observer_notify cb k)) w)"
      by (simp add: comp_simps)
  qed
qed (rule poll_stable_release [OF inv_stable])

lemma keeps_notifier_dispatch: "i < M \<Longrightarrow> keeps (inv N M) (SocketNotifier_dispatch cb i k)"
  unfolding SocketNotifier_dispatch_def
  by (intro keeps_finally keeps_andthen keeps_modify keeps_post poll_stable_setSocket [OF inv_stable]
      poll_stable_duplicate [OF inv_stable])

lemma keeps_dispatch_notifier: "i < M \<Longrightarrow> keeps (inv N M) (dispatch_notifier cb i k)"
  unfolding dispatch_notifier_def handle_errors_def by (intro keep keeps_notifier_dispatch)

text \<open>A notifier looked up now stays allocated through the dispatch.\<close>

lemma keeps_later:
  assumes "\<And>w. ok w \<Longrightarrow> keeps (inv 0 (nnotif w)) (f (g w))"
  shows "keeps ok (bnd (gets g) f)"
  unfolding keeps_def
proof (rule validI)
  fix w assume w: "ok w"
  then have "outcome (\<lambda>_. inv 0 (nnotif w)) (inv 0 (nnotif w)) (f (g w) w)"
    using validD [OF assms [OF w, unfolded keeps_def]] by (simp add: older_def)
  then show "outcome (\<lambda>_. ok) ok (bnd (gets g) f w)"
    by (simp add: comp_simps) (erule outcome_mono; simp)
qed

lemma keeps_dispatch_socket: "keeps ok (dispatch_socket cb s k)"
proof -
  have "dispatch_socket cb s k = bnd (gets (\<lambda>w. map_of (r_handlers w) s))
      (\<lambda>p. case p of None \<Rightarrow> skip | Some i \<Rightarrow> dispatch_notifier cb i k)"
    by (rule ext) (simp add: dispatch_socket_def getNotifier_def comp_simps split: option.split)
  moreover have "keeps ok (bnd (gets (\<lambda>w. map_of (r_handlers w) s))
      (\<lambda>p. case p of None \<Rightarrow> skip | Some i \<Rightarrow> dispatch_notifier cb i k))"
    by (rule keeps_later)
      (auto split: option.split dest!: registry simp: registry_ok_def
        intro!: keep keeps_dispatch_notifier)
  ultimately show ?thesis by simp
qed

lemma keeps_dispatch_all: "keeps ok (dispatch_all cb k)"
  unfolding dispatch_all_def
proof (rule keeps_later, rule keeps_for_each)
  fix w i assume "ok w" "i \<in> set (map snd (r_handlers w))"
  then have r: "registry_ok w" and "\<exists>x. (x, i) \<in> set (r_handlers w)" by (auto dest: registry)
  then obtain x where x: "(x, i) \<in> set (r_handlers w)" by blast
  from r have "distinct (map fst (r_handlers w))"
    unfolding registry_ok_def omap_ok_def by (simp add: strict_sorted_iff)
  with x have "map_of (r_handlers w) x = Some i" by simp
  with r have "i < nnotif w" by (auto simp: registry_ok_def)
  then show "keeps (inv 0 (nnotif w)) (dispatch_notifier cb i k)" by (rule keeps_dispatch_notifier)
qed

lemma keeps_turn: "keeps ok (reactor_turn cb S)"
  unfolding reactor_turn_def handle_errors_def dispatch_modes_def
  by (intro keep keeps_dispatch_all keeps_PollSet_poll stable)
    (auto split: prod.split intro!: keep keeps_dispatch_all keeps_dispatch_socket
      keeps_PollSet_poll stable)

lemma keeps_loop: "keeps ok (reactor_loop cb S turns)"
  by (induction turns) (auto intro!: keep keeps_turn)

lemma keeps_run: "keeps ok (reactor_run cb S turns)"
  unfolding reactor_run_def by (intro keep keeps_loop keeps_dispatch_all)

end

end
