(* ===== verification/Session_Safety.thy ===== *)
theory Session_Safety
  imports Session Reactor_Client
begin

text \<open>
  The lifetime invariant of the proxy: every enabled observer names a live object and sits in
  the notifier of the socket its \<open>RegisterHandler\<close> or acceptor put it at, once. It is what
  makes \<open>delete this\<close> safe: \<open>UnregisterHandler\<close> finds and disables every observer of the
  session. The theory proves it preserved by every operation of \<open>Session\<close>.
\<close>

section \<open>The invariant\<close>

definition front_slots :: "(nkind \<times> callback) set" where
  "front_slots = {(Readable, OnFrontReadable), (Shutdown, OnFrontShutdown), (Error, OnFrontError)}"

definition back_slots :: "(nkind \<times> callback) set" where
  "back_slots = {(Writable, OnBackWritable), (Readable, OnBackReadable), (Shutdown, OnBackShutdown),
     (Error, OnBackError)}"

lemmas slots = front_slots_def back_slots_def

text \<open>The socket at which the observer of an object, kind and method is registered.\<close>

definition place :: "world \<Rightarrow> observer \<Rightarrow> sid option" where
  "place w ob = (case ob_obj ob of
      None \<Rightarrow> None
    | Some (SessionObj s) \<Rightarrow>
        if \<not> (s < nsess w \<and> ss_alive (sessions w s)) then None
        else if (ob_kind ob, ob_method ob) \<in> front_slots then Some (ss_front (sessions w s))
        else if (ob_kind ob, ob_method ob) \<in> back_slots then Some (ss_back (sessions w s))
        else None
    | Some AcceptorObj \<Rightarrow>
        if acc_alive w \<and> ob_kind ob = Readable \<and> ob_method ob = OnAccept then Some (acc_socket w)
        else None)"

lemma place_cong:
  assumes "sessions w' = sessions w" "nsess w' = nsess w" "acc_alive w' = acc_alive w"
    "acc_socket w' = acc_socket w"
  shows "place w' ob = place w ob"
  unfolding place_def assms by (rule refl)

definition enabled :: "world \<Rightarrow> nat \<Rightarrow> bool" where
  "enabled w j \<longleftrightarrow> j < nobs w \<and> ob_obj (observers w j) \<noteq> None"

definition sits :: "world \<Rightarrow> nat \<Rightarrow> bool" where
  "sits w j \<longleftrightarrow> (\<exists>x i. place w (observers w j) = Some x \<and> map_of (r_handlers w) x = Some i
     \<and> j \<in> set (nf_observers (notifiers w i)))"

definition lifetime_ok :: "world \<Rightarrow> bool" where
  "lifetime_ok w \<longleftrightarrow> registry_ok w
     \<and> (\<forall>j. enabled w j \<longrightarrow> sits w j)
     \<and> (\<forall>j j'. enabled w j \<longrightarrow> enabled w j' \<longrightarrow> observers w j = observers w j' \<longrightarrow> j = j')"

lemma lifetime_registry: "lifetime_ok w \<Longrightarrow> registry_ok w"
  by (simp add: lifetime_ok_def)

lemma lifetime_sits: "lifetime_ok w \<Longrightarrow> enabled w j \<Longrightarrow> sits w j"
  by (simp add: lifetime_ok_def)

lemma lifetime_unique:
  "lifetime_ok w \<Longrightarrow> enabled w j \<Longrightarrow> enabled w j' \<Longrightarrow> observers w j = observers w j' \<Longrightarrow> j = j'"
  by (simp add: lifetime_ok_def)

lemma lifetime_target:
  assumes "lifetime_ok w" and "j < nobs w" and "observers w j = mkObserver p k m"
  shows "place w (mkObserver p k m) \<noteq> None"
  using lifetime_sits [OF assms(1), of j] assms(2,3)
  by (auto simp: enabled_def sits_def mkObserver_def)

text \<open>The invariant reads these fields only.\<close>

lemma notifier_ok_cong:
  "notifiers w = notifiers w' \<Longrightarrow> observers w = observers w' \<Longrightarrow> nobs w = nobs w' \<Longrightarrow>
   notifier_ok i w = notifier_ok i w'"
  by (simp add: notifier_ok_def)

definition same_registry :: "world \<Rightarrow> world \<Rightarrow> bool" where
  "same_registry w w' \<longleftrightarrow> r_handlers w' = r_handlers w \<and> notifiers w' = notifiers w
     \<and> observers w' = observers w \<and> nobs w' = nobs w \<and> nnotif w' = nnotif w"

lemma lifetime_cong:
  assumes "lifetime_ok w" and "same_registry w w'" and "\<And>j. enabled w j \<Longrightarrow>
    place w' (observers w j) = place w (observers w j)"
  shows "lifetime_ok w'"
proof -
  have eq: "r_handlers w' = r_handlers w" "notifiers w' = notifiers w" "observers w' = observers w"
    "nobs w' = nobs w" "nnotif w' = nnotif w" using assms(2) by (auto simp: same_registry_def)
  have r: "registry_ok w'" using lifetime_registry [OF assms(1)]
    by (simp add: registry_ok_def eq notifier_ok_def)
  have e: "enabled w' j = enabled w j" for j by (simp add: enabled_def eq)
  show ?thesis unfolding lifetime_ok_def
  proof (intro conjI r allI impI)
    fix j assume "enabled w' j"
    then have "enabled w j" by (simp add: e)
    with lifetime_sits [OF assms(1) this] assms(3) [OF this] show "sits w' j"
      by (simp add: sits_def eq)
  next
    fix j j' assume "enabled w' j" "enabled w' j'" "observers w' j = observers w' j'"
    then show "j = j'" using lifetime_unique [OF assms(1)] by (simp add: e eq)
  qed
qed

lemma lifetime_more:
  assumes "lifetime_ok w" and "same_registry w w'"
    and "sessions w' = sessions w" "nsess w' = nsess w" "acc_alive w' = acc_alive w"
      "acc_socket w' = acc_socket w"
  shows "lifetime_ok w'"
  by (rule lifetime_cong [OF assms(1,2)]) (rule place_cong [OF assms(3-6)])

lemma lifetime_stable: "reactor_stable lifetime_ok"
  unfolding reactor_stable_def
  by (intro allI impI, erule lifetime_cong) (auto simp: same_registry_def intro: place_cong)

section \<open>Registration preserves it\<close>

lemma map_of_notifier:
  "registry_ok w \<Longrightarrow> map_of (r_handlers w) x = Some i \<Longrightarrow> i < nnotif w \<and> notifier_ok i w"
  by (auto simp: registry_ok_def)

lemma notifier_ok_other:
  assumes "notifier_ok i' w" and "notifiers w' i' = notifiers w i'" and "nobs w \<le> nobs w'"
    and "\<And>j. j < nobs w \<Longrightarrow> ob_kind (observers w' j) = ob_kind (observers w j)"
  shows "notifier_ok i' w'"
proof -
  have eq: "map (\<lambda>j. ob_kind (observers w' j)) (nf_observers (notifiers w i')) =
      map (\<lambda>j. ob_kind (observers w j)) (nf_observers (notifiers w i'))"
    using assms(1,4) by (auto simp: notifier_ok_def)
  show ?thesis using assms(1,3) unfolding notifier_ok_def assms(2) eq by (blast intro: less_le_trans)
qed

lemma getNotifier_new:
  assumes ok: "lifetime_ok w" and none: "map_of (r_handlers w) x = None"
    and w': "w' = (snd (new_SocketNotifier x w))
      \<lparr>r_handlers := omap_put x (nnotif w) (r_handlers w)\<rparr>"
  shows "lifetime_ok w'" and "map_of (r_handlers w') x = Some (nnotif w)"
    and "sessions w' = sessions w" "nsess w' = nsess w" "acc_alive w' = acc_alive w"
      "acc_socket w' = acc_socket w" "nobs w' = nobs w" "nnotif w' = Suc (nnotif w)"
      "observers w' = observers w" "socks w' = socks w" "svc_log w' = svc_log w" "wire w' = wire w"
      "log_text w' = log_text w"
proof -
  show sel: "map_of (r_handlers w') x = Some (nnotif w)"
    "sessions w' = sessions w" "nsess w' = nsess w" "acc_alive w' = acc_alive w"
    "acc_socket w' = acc_socket w" "nobs w' = nobs w" "nnotif w' = Suc (nnotif w)"
    "observers w' = observers w" "socks w' = socks w" "svc_log w' = svc_log w" "wire w' = wire w"
    "log_text w' = log_text w"
    by (simp_all add: w' new_SocketNotifier_def)
  have h: "r_handlers w' = omap_put x (nnotif w) (r_handlers w)"
    and n: "notifiers w' = (notifiers w)
      (nnotif w := \<lparr>nf_events = [], nf_observers = [], nf_socket = x\<rparr>)"
    by (simp_all add: w' new_SocketNotifier_def)
  have r: "registry_ok w" using ok by (rule lifetime_registry)
  have lt: "map_of (r_handlers w) y = Some i \<Longrightarrow> i < nnotif w" for y i
    using r by (auto simp: registry_ok_def)
  have p: "place w' ob = place w ob" for ob by (rule place_cong) (simp_all add: sel)
  show "lifetime_ok w'" unfolding lifetime_ok_def
  proof (intro conjI allI impI)
    show "registry_ok w'"
      unfolding registry_ok_def
    proof (intro conjI allI impI)
      fix y i assume "map_of (r_handlers w') y = Some i"
      then show "i < nnotif w'" using lt by (auto simp: h sel less_Suc_eq split: if_splits)
    next
      fix i assume i: "i < nnotif w'"
      show "notifier_ok i w'"
      proof (cases "i = nnotif w")
        case True
        then show ?thesis by (simp add: notifier_ok_def n)
      next
        case False
        with i r have "notifier_ok i w" by (auto simp: registry_ok_def sel)
        with False show ?thesis by (simp add: notifier_ok_def n sel)
      qed
    next
      show "omap_ok (r_handlers w')" using r by (simp add: h registry_ok_def)
    qed
  next
    fix j assume "enabled w' j"
    then have "sits w j" using ok by (auto simp: lifetime_ok_def enabled_def sel)
    then obtain y i where y: "place w (observers w j) = Some y" "map_of (r_handlers w) y = Some i"
      "j \<in> set (nf_observers (notifiers w i))" by (auto simp: sits_def)
    with none lt [OF y(2)] show "sits w' j" by (auto simp: sits_def p sel h n)
  next
    fix j j' assume "enabled w' j" "enabled w' j'" "observers w' j = observers w' j'"
    then show "j = j'" using lifetime_unique [OF ok] by (simp add: enabled_def sel)
  qed
qed

lemma addObserver_same:
  "r_handlers (SocketNotifier_addObserver i ob w) = r_handlers w"
  "sessions (SocketNotifier_addObserver i ob w) = sessions w"
  "nsess (SocketNotifier_addObserver i ob w) = nsess w"
  "acc_alive (SocketNotifier_addObserver i ob w) = acc_alive w"
  "acc_socket (SocketNotifier_addObserver i ob w) = acc_socket w"
  "socks (SocketNotifier_addObserver i ob w) = socks w"
  "svc_log (SocketNotifier_addObserver i ob w) = svc_log w"
  "wire (SocketNotifier_addObserver i ob w) = wire w"
  "log_text (SocketNotifier_addObserver i ob w) = log_text w"
  by (simp_all add: SocketNotifier_addObserver_def NotificationCenter_addObserver_def Let_def
      upd_notifier_def split: option.split)

lemma add_lifetime:
  assumes ok: "lifetime_ok w" and x: "place w ob = Some x" and i: "map_of (r_handlers w) x = Some i"
    and new: "\<not> NotificationCenter_hasObserver i ob w"
  shows "lifetime_ok (SocketNotifier_addObserver i ob w)"
proof -
  let ?w = "SocketNotifier_addObserver i ob w"
  have r: "registry_ok w" using ok by (rule lifetime_registry)
  note sel = SocketNotifier_addObserver_sel [of i ob w]
  have same: "r_handlers ?w = r_handlers w" "sessions ?w = sessions w" "nsess ?w = nsess w"
    "acc_alive ?w = acc_alive w" "acc_socket ?w = acc_socket w"
    by (simp_all add: addObserver_same)
  have p: "place ?w o' = place w o'" for o' by (rule place_cong) (simp_all add: same)
  have new': "enabled w j \<Longrightarrow> observers w j \<noteq> ob" for j
  proof
    assume e: "enabled w j" "observers w j = ob"
    from lifetime_sits [OF ok e(1)] e(2) x i have "j \<in> set (nf_observers (notifiers w i))"
      by (auto simp: sits_def)
    with e(2) new show False by (auto simp: hasObserver_iff)
  qed
  have nok: "notifier_ok i' w" if "i' < nnotif w" for i'
    using r that by (simp add: registry_ok_def)
  show ?thesis unfolding lifetime_ok_def
  proof (intro conjI allI impI)
    have "notifier_ok i' ?w" if lt: "i' < nnotif w" for i'
    proof (cases "i' = i")
      case True
      with nok [OF lt] show ?thesis by (simp add: add_notifier_ok)
    next
      case False
      show ?thesis by (rule notifier_ok_other [OF nok [OF lt]]) (use False in \<open>simp_all add: sel\<close>)
    qed
    with r show "registry_ok ?w" by (simp add: registry_ok_def same sel)
  next
    fix j assume e: "enabled ?w j"
    show "sits ?w j"
    proof (cases "j = nobs w")
      case True
      with x i show ?thesis by (auto simp: sits_def p sel same)
    next
      case False
      with e have "sits w j" using ok by (auto simp: lifetime_ok_def enabled_def sel less_Suc_eq)
      with False show ?thesis by (fastforce simp: sits_def p sel same)
    qed
  next
    fix j j' assume e: "enabled ?w j" "enabled ?w j'" "observers ?w j = observers ?w j'"
    then show "j = j'" using lifetime_unique [OF ok] new'
      by (auto simp: enabled_def sel less_Suc_eq split: if_splits)
  qed
qed

section \<open>Removal\<close>

lemma removeObserver_same:
  "r_handlers (SocketNotifier_removeObserver i ob w) = r_handlers w"
  "sessions (SocketNotifier_removeObserver i ob w) = sessions w"
  "nsess (SocketNotifier_removeObserver i ob w) = nsess w"
  "acc_alive (SocketNotifier_removeObserver i ob w) = acc_alive w"
  "acc_socket (SocketNotifier_removeObserver i ob w) = acc_socket w"
  "nsock (SocketNotifier_removeObserver i ob w) = nsock w"
  "svc_log (SocketNotifier_removeObserver i ob w) = svc_log w"
  "wire (SocketNotifier_removeObserver i ob w) = wire w"
  "log_text (SocketNotifier_removeObserver i ob w) = log_text w"
  "socks (SocketNotifier_removeObserver i ob w) = socks w"
  by (simp_all add: SocketNotifier_removeObserver_def NotificationCenter_removeObserver_def Let_def
      upd_notifier_def Observer_disable_def split: option.split)

lemma removeObserver_frame:
  "SocketNotifier_removeObserver i ob (w\<lparr>r_handlers := h, pollset := p\<rparr>) =
   (SocketNotifier_removeObserver i ob w)\<lparr>r_handlers := h, pollset := p\<rparr>"
  by (simp add: SocketNotifier_removeObserver_def NotificationCenter_removeObserver_def Let_def
      upd_notifier_def Observer_disable_def split: option.split)

lemma remove_lifetime:
  assumes ok: "lifetime_ok w" and i: "i < nnotif w"
    and j: "find_observer (observers w) ob (nf_observers (notifiers w i)) = Some j"
  shows "lifetime_ok (SocketNotifier_removeObserver i ob w)"
proof -
  let ?w = "SocketNotifier_removeObserver i ob w"
  have r: "registry_ok w" using ok by (rule lifetime_registry)
  note sel = SocketNotifier_removeObserver_found [OF j]
  have p: "place ?w o' = place w o'" for o' by (rule place_cong) (simp_all add: removeObserver_same)
  have e: "enabled ?w j' \<longleftrightarrow> enabled w j' \<and> j' \<noteq> j" for j' by (auto simp: enabled_def sel)
  have nok: "notifier_ok i' w" if "i' < nnotif w" for i' using r that by (simp add: registry_ok_def)
  show ?thesis unfolding lifetime_ok_def
  proof (intro conjI allI impI)
    have "notifier_ok i' ?w" if lt: "i' < nnotif w" for i'
    proof (cases "i' = i")
      case True
      with nok [OF i] j show ?thesis by (simp add: remove_notifier_ok hasObserver_find)
    next
      case False
      show ?thesis by (rule notifier_ok_other [OF nok [OF lt]]) (use False in \<open>simp_all add: sel\<close>)
    qed
    with r show "registry_ok ?w" by (simp add: registry_ok_def removeObserver_same sel)
  next
    fix j' assume "enabled ?w j'"
    then have j': "enabled w j'" "j' \<noteq> j" by (simp_all add: e)
    with lifetime_sits [OF ok j'(1)] show "sits ?w j'"
      by (fastforce simp: sits_def p sel removeObserver_same)
  next
    fix j1 j2 assume "enabled ?w j1" "enabled ?w j2" "observers ?w j1 = observers ?w j2"
    then show "j1 = j2" using lifetime_unique [OF ok] by (simp add: e sel)
  qed
qed

lemma erase_lifetime:
  assumes ok: "lifetime_ok w" and none: "\<And>j. enabled w j \<Longrightarrow> place w (observers w j) \<noteq> Some x"
  shows "lifetime_ok (w\<lparr>r_handlers := omap_erase x (r_handlers w)\<rparr>)" (is "lifetime_ok ?w")
proof -
  have r: "registry_ok w" using ok by (rule lifetime_registry)
  have p: "place ?w ob = place w ob" for ob by (rule place_cong) simp_all
  have e: "enabled ?w j = enabled w j" for j by (simp add: enabled_def)
  show ?thesis unfolding lifetime_ok_def
  proof (intro conjI allI impI)
    show "registry_ok ?w" using r by (auto simp: registry_ok_def notifier_ok_def split: if_splits)
  next
    fix j assume "enabled ?w j"
    then have j: "enabled w j" by (simp add: e)
    with lifetime_sits [OF ok j] none [OF j] show "sits ?w j" by (auto simp: sits_def p)
  next
    fix j j' assume "enabled ?w j" "enabled ?w j'" "observers ?w j = observers ?w j'"
    then show "j = j'" using lifetime_unique [OF ok] by (simp add: e)
  qed
qed

text \<open>What a registration or a removal leaves alone, and what it does to the observers.\<close>

definition same_objects :: "world \<Rightarrow> world \<Rightarrow> bool" where
  "same_objects w w' \<longleftrightarrow> sessions w' = sessions w \<and> nsess w' = nsess w \<and> acc_alive w' = acc_alive w
     \<and> acc_socket w' = acc_socket w \<and> nobs w \<le> nobs w' \<and> nnotif w \<le> nnotif w'
     \<and> socks w' = socks w \<and> svc_log w' = svc_log w \<and> wire w' = wire w \<and> log_text w' = log_text w"

definition only_without :: "observer \<Rightarrow> world \<Rightarrow> world \<Rightarrow> bool" where
  "only_without ob w w' \<longleftrightarrow>
     (\<forall>j. enabled w' j \<longrightarrow> enabled w j \<and> observers w' j = observers w j \<and> observers w' j \<noteq> ob)"

lemma lifetime_pollset: "lifetime_ok w \<Longrightarrow> lifetime_ok (w\<lparr>pollset := p\<rparr>)"
  by (rule reactor_stable_pollset [OF lifetime_stable])

lemma removeEventHandler_lifetime:
  assumes ok: "lifetime_ok w" and x: "place w ob = Some x"
  shows "\<exists>w'. removeEventHandler x ob w = (Inr (), w') \<and> lifetime_ok w' \<and> same_objects w w'
    \<and> only_without ob w w'"
proof (cases "map_of (r_handlers w) x")
  case None
  then have "enabled w j \<Longrightarrow> observers w j \<noteq> ob" for j
    using lifetime_sits [OF ok, of j] x by (auto simp: sits_def)
  with None ok show ?thesis
    by (auto simp: removeEventHandler_def getNotifier_def comp_simps same_objects_def only_without_def)
next
  case (Some i)
  have i: "i < nnotif w" "notifier_ok i w"
    using map_of_notifier [OF lifetime_registry [OF ok] Some] by auto
  have at_i: "enabled w j \<Longrightarrow> observers w j = ob \<Longrightarrow> j \<in> set (nf_observers (notifiers w i))" for j
    using lifetime_sits [OF ok, of j] x Some by (auto simp: sits_def)
  show ?thesis
  proof (cases "find_observer (observers w) ob (nf_observers (notifiers w i))")
    case None
    then have "enabled w j \<Longrightarrow> observers w j \<noteq> ob" for j
      using at_i by (auto simp: find_observer_None)
    with None Some ok show ?thesis
      by (auto simp: removeEventHandler_def getNotifier_def comp_simps same_objects_def
          only_without_def hasObserver_find)
  next
    case (Some j)
    let ?w1 = "SocketNotifier_removeObserver i ob w"
    let ?p0 = "\<lambda>w. PollSet_remove (sockfd (socks w x)) (pollset w)"
    note sel = SocketNotifier_removeObserver_found [OF Some]
    have j: "j \<in> set (nf_observers (notifiers w i))" "observers w j = ob"
      using find_observer_Some [OF Some] by auto
    have d: "distinct (nf_observers (notifiers w i))" using i by (simp add: notifier_ok_def)
    have ok1: "lifetime_ok ?w1" by (rule remove_lifetime [OF ok i(1) Some])
    have e1: "enabled ?w1 j' \<longleftrightarrow> enabled w j' \<and> j' \<noteq> j" for j' by (auto simp: enabled_def sel)
    have "ob_obj ob \<noteq> None" using x by (auto simp: place_def split: option.splits)
    with j i have "enabled w j" by (auto simp: enabled_def notifier_ok_def)
    then have ow: "only_without ob w ?w1"
      using lifetime_unique [OF ok] j(2) by (auto simp: only_without_def e1 sel)
    have so: "same_objects w ?w1" by (simp add: same_objects_def removeObserver_same sel)
    have has: "NotificationCenter_hasObserver i ob w" using Some by (simp add: hasObserver_find)
    have frame: "same_objects w (?w1\<lparr>r_handlers := h, pollset := p\<rparr>)"
      "only_without ob w (?w1\<lparr>r_handlers := h, pollset := p\<rparr>)" for h p
      using so ow by (auto simp: same_objects_def only_without_def enabled_def)
    show ?thesis
    proof (cases "length (nf_observers (notifiers w i)) = 1")
      case True
      with j have "nf_observers (notifiers w i) = [j]" by (cases "nf_observers (notifiers w i)") auto
      then have empty: "nf_observers (notifiers ?w1 i) = []" by (simp add: sel)
      have run: "removeEventHandler x ob w = (Inr (), ?w1\<lparr>r_handlers := omap_erase x (r_handlers w),
          pollset := PollSet_remove (sockfd (socks w x)) (pollset w)\<rparr>)"
        using \<open>map_of (r_handlers w) x = Some i\<close> True has empty
        by (simp add: removeEventHandler_def getNotifier_def comp_simps removeObserver_frame
            NotificationCenter_countObservers_def)
      have p1: "place ?w1 ob' = place w ob'" for ob'
        by (rule place_cong) (simp_all add: removeObserver_same)
      have "place ?w1 (observers ?w1 j') \<noteq> Some x" if "enabled ?w1 j'" for j'
        using lifetime_sits [OF ok1 that] \<open>map_of (r_handlers w) x = Some i\<close> empty
        by (auto simp: sits_def removeObserver_same)
      from lifetime_pollset [OF erase_lifetime [OF ok1 this]]
      have "lifetime_ok (?w1\<lparr>r_handlers := omap_erase x (r_handlers w), pollset := p\<rparr>)" for p
        by (simp add: removeObserver_same)
      with run frame show ?thesis by blast
    next
      case False
      let ?fd = "sockfd (socks w x)"
      let ?p = "if 0 < length (nf_observers (notifiers ?w1 i)) \<and> 0 < ?fd
        then PollSet_update ?fd (notifier_mode i ?w1) (pollset ?w1) else pollset ?w1"
      have "removeEventHandler x ob w = (Inr (), ?w1\<lparr>pollset := ?p\<rparr>)"
        using \<open>map_of (r_handlers w) x = Some i\<close> False has
        by (simp add: removeEventHandler_def getNotifier_def comp_simps removeObserver_same
            NotificationCenter_countObservers_def)
      moreover have "lifetime_ok (?w1\<lparr>pollset := ?p\<rparr>)" by (rule lifetime_pollset [OF ok1])
      moreover have "same_objects w (?w1\<lparr>pollset := ?p\<rparr>)" "only_without ob w (?w1\<lparr>pollset := ?p\<rparr>)"
        using frame [of ?p "r_handlers ?w1"] by simp_all
      ultimately show ?thesis by blast
    qed
  qed
qed

definition adds_observer :: "observer \<Rightarrow> world \<Rightarrow> world \<Rightarrow> bool" where
  "adds_observer ob w w' \<longleftrightarrow> (\<forall>j. enabled w j \<longrightarrow> enabled w' j \<and> observers w' j = observers w j)
     \<and> (\<exists>j. enabled w' j \<and> observers w' j = ob)"

lemma addEventHandler_lifetime:
  assumes ok: "lifetime_ok w" and x: "place w ob = Some x"
  shows "\<exists>w'. addEventHandler x ob w = (Inr (), w') \<and> lifetime_ok w' \<and> same_objects w w' \<and> adds_observer ob w w'"
proof -
  obtain i w1 where g: "getNotifier x True w = (Inr (Some i), w1)" and ok1: "lifetime_ok w1"
    and i: "map_of (r_handlers w1) x = Some i" and so1: "same_objects w w1"
    and obs1: "observers w1 = observers w" "nobs w1 = nobs w"
  proof (cases "map_of (r_handlers w) x")
    case (Some i)
    with ok show thesis by (intro that [of i w]) (auto simp: getNotifier_def same_objects_def)
  next
    case None
    let ?w = "(snd (new_SocketNotifier x w))\<lparr>r_handlers := omap_put x (nnotif w) (r_handlers w)\<rparr>"
    have "getNotifier x True w = (Inr (Some (nnotif w)), ?w)"
      using None by (simp add: getNotifier_def new_SocketNotifier_def)
    then show thesis using getNotifier_new [OF ok None refl]
      by (intro that [of "nnotif w" ?w]) (simp_all add: same_objects_def)
  qed
  let ?w2 = "if NotificationCenter_hasObserver i ob w1 then w1 else SocketNotifier_addObserver i ob w1"
  let ?w3 = "if notifier_mode i ?w2 \<noteq> 0 then ?w2\<lparr>pollset :=
      PollSet_add (sockfd (socks ?w2 x)) x (notifier_mode i ?w2) (pollset ?w2)\<rparr> else ?w2"
  have run: "addEventHandler x ob w = (Inr (), ?w3)"
    by (simp add: addEventHandler_def comp_simps g)
  have x1: "place w1 ob = Some x"
    using so1 x place_cong [of w1 w ob] by (simp add: same_objects_def)
  have ok2: "lifetime_ok ?w2" using add_lifetime [OF ok1 x1 i] ok1 by simp
  have so2: "same_objects w ?w2"
    using so1 by (simp add: same_objects_def SocketNotifier_addObserver_sel addObserver_same)
  have some: "ob_obj ob \<noteq> None" using x by (cases "ob_obj ob") (simp_all add: place_def)
  have ad2: "adds_observer ob w ?w2"
  proof (cases "NotificationCenter_hasObserver i ob w1")
    case True
    then obtain j where j: "j \<in> set (nf_observers (notifiers w1 i))" "observers w1 j = ob"
      by (auto simp: hasObserver_iff)
    have "notifier_ok i w1" using map_of_notifier [OF lifetime_registry [OF ok1] i] by simp
    with j(1) have "j < nobs w1" by (auto simp: notifier_ok_def)
    with True j(2) some show ?thesis by (auto simp: adds_observer_def enabled_def obs1)
  next
    case False
    with some show ?thesis
      by (auto simp: adds_observer_def enabled_def SocketNotifier_addObserver_sel obs1 less_Suc_eq)
  qed
  have "lifetime_ok ?w3" using lifetime_pollset [OF ok2] ok2 by simp
  moreover have "same_objects w ?w3" using so2 by (simp add: same_objects_def)
  moreover have "adds_observer ob w ?w3" using ad2 by (simp add: adds_observer_def enabled_def)
  ultimately show ?thesis using run by blast
qed

section \<open>Triples\<close>

definition alive_at :: "nat \<Rightarrow> sid \<Rightarrow> sid \<Rightarrow> nat \<Rightarrow> nat \<Rightarrow> world \<Rightarrow> bool" where
  "alive_at s f b N M w \<longleftrightarrow> lifetime_ok w \<and> older N M w \<and> s < nsess w \<and> ss_alive (sessions w s)
     \<and> ss_front (sessions w s) = f \<and> ss_back (sessions w s) = b"

definition inv_at :: "nat \<Rightarrow> nat \<Rightarrow> world \<Rightarrow> bool" where
  "inv_at N M w \<longleftrightarrow> lifetime_ok w \<and> older N M w"

lemma alive_at_inv: "alive_at s f b N M w \<Longrightarrow> inv_at N M w"
  by (simp add: alive_at_def inv_at_def)

lemma inv_at_stable: "reactor_stable (inv_at N M)"
  unfolding inv_at_def by (intro reactor_stable_conj lifetime_stable older_stable)

lemma alive_at_stable: "reactor_stable (alive_at s f b N M)"
proof -
  have "reactor_stable (\<lambda>w. lifetime_ok w \<and> older N M w \<and> (s < nsess w \<and> ss_alive (sessions w s)
     \<and> ss_front (sessions w s) = f \<and> ss_back (sessions w s) = b))"
    by (intro reactor_stable_conj lifetime_stable older_stable) (simp_all add: reactor_stable_def)
  then show ?thesis by (simp add: alive_at_def [abs_def])
qed

lemmas inv_sock = reactor_stable_sock [OF inv_at_stable]
lemmas alive_sock = reactor_stable_sock [OF alive_at_stable]

text \<open>Updates of the logs and of the fields of a session that \<open>place\<close> does not read.\<close>

lemma keeps_svc_call [keep]: "keeps (inv_at N M) (svc_call s e)" "keeps (alive_at s' f b N M) (svc_call s e)"
  unfolding svc_call_def inv_at_def alive_at_def older_def
  by (rule keeps_modify; erule conjE; auto intro: place_cong elim!: lifetime_cong simp: same_registry_def)+

lemma keeps_log [keep]: "keeps P text \<Longrightarrow> reactor_stable P \<Longrightarrow>
    (\<And>w t. P w \<Longrightarrow> P (w\<lparr>log_text := t\<rparr>)) \<Longrightarrow> keeps P (log_msg C text)"
  unfolding log_msg_def by (intro keep keeps_modify) auto

lemma log_text_frame: "inv_at N M w \<Longrightarrow> inv_at N M (w\<lparr>log_text := t\<rparr>)"
  "alive_at s f b N M w \<Longrightarrow> alive_at s f b N M (w\<lparr>log_text := t\<rparr>)"
  unfolding inv_at_def alive_at_def older_def
  by (auto intro: place_cong elim!: lifetime_cong simp: same_registry_def)

lemma upd_session_frame:
  assumes "\<And>x. ss_alive (g x) = ss_alive x \<and> ss_front (g x) = ss_front x \<and> ss_back (g x) = ss_back x"
  shows "keeps (inv_at N M) (upd_session s g)" "keeps (alive_at s' f b N M) (upd_session s g)"
proof -
  have p: "place (w\<lparr>sessions := (sessions w)(s := g (sessions w s))\<rparr>) ob = place w ob" for w ob
    by (simp add: place_def assms split: option.split objref.split)
  have l: "lifetime_ok w \<Longrightarrow> lifetime_ok (w\<lparr>sessions := (sessions w)(s := g (sessions w s))\<rparr>)" for w
    by (erule lifetime_cong) (simp_all add: same_registry_def p)
  show "keeps (inv_at N M) (upd_session s g)" "keeps (alive_at s' f b N M) (upd_session s g)"
    unfolding upd_session_def inv_at_def alive_at_def older_def
    by (rule keeps_modify; use l assms in auto)+
qed

lemma valid_with_session:
  assumes "\<And>x. ss_front x = f \<Longrightarrow> ss_back x = b \<Longrightarrow> valid (alive_at s f b N M) (g x) Q E"
  shows "valid (alive_at s f b N M) (with_session s g) Q E"
proof (rule validI)
  fix w assume w: "alive_at s f b N M w"
  then have "outcome Q E (g (sessions w s) w)"
    by (intro validD [OF assms]) (simp_all add: alive_at_def)
  with w show "outcome Q E (with_session s g w)" by (simp add: with_session_def comp_simps alive_at_def)
qed

lemma keeps_with_session:
  "(\<And>x. ss_front x = f \<Longrightarrow> ss_back x = b \<Longrightarrow> keeps (alive_at s f b N M) (g x)) \<Longrightarrow>
   keeps (alive_at s f b N M) (with_session s g)"
  unfolding keeps_def by (rule valid_with_session)

lemma keeps_front_address [keep]: "keeps (alive_at s f b N M) (front_address C s)"
  unfolding front_address_def by (intro keeps_with_session keep alive_sock)

lemma keeps_back_address [keep]: "keeps (alive_at s f b N M) (back_address C s)"
  unfolding back_address_def by (intro keeps_with_session keep alive_sock)

lemma keeps_alive_log [keep]:
  "keeps (alive_at s f b N M) text \<Longrightarrow> keeps (alive_at s f b N M) (log_msg C text)"
  by (rule keeps_log [OF _ alive_at_stable log_text_frame(2)])

lemma keeps_inv_log [keep]: "keeps (inv_at N M) text \<Longrightarrow> keeps (inv_at N M) (log_msg C text)"
  by (rule keeps_log [OF _ inv_at_stable log_text_frame(1)])

text \<open>Removal of the observers of a session, slot by slot.\<close>

definition gone :: "nat \<Rightarrow> (nkind \<times> callback) set \<Rightarrow> world \<Rightarrow> bool" where
  "gone s A w \<longleftrightarrow> (\<forall>j k m. enabled w j \<longrightarrow> (k, m) \<in> A \<longrightarrow> observers w j \<noteq> session_observer s k m)"

lemma place_session:
  "alive_at s f b N M w \<Longrightarrow> place w (session_observer s k m) =
     (if (k, m) \<in> front_slots then Some f else if (k, m) \<in> back_slots then Some b else None)"
  by (simp add: place_def session_observer_def mkObserver_def alive_at_def)

lemma alive_at_same:
  "alive_at s f b N M w \<Longrightarrow> same_objects w w' \<Longrightarrow> lifetime_ok w' \<Longrightarrow> alive_at s f b N M w'"
  by (auto simp: alive_at_def same_objects_def older_def)

lemma returns_remove:
  assumes "(if (k, m) \<in> front_slots then Some f else if (k, m) \<in> back_slots then Some b else None) = Some x"
  shows "returns (\<lambda>w. alive_at s f b N M w \<and> gone s A w)
    (removeEventHandler x (session_observer s k m))
    (\<lambda>_ w. alive_at s f b N M w \<and> gone s (insert (k, m) A) w)"
proof (rule returnsI, elim conjE)
  fix w assume w: "alive_at s f b N M w" "gone s A w"
  have "place w (session_observer s k m) = Some x" using place_session [OF w(1)] assms by simp
  with w(1) obtain w' where w': "removeEventHandler x (session_observer s k m) w = (Inr (), w')"
    "lifetime_ok w'" "same_objects w w'" "only_without (session_observer s k m) w w'"
    using removeEventHandler_lifetime unfolding alive_at_def by blast
  moreover have "gone s (insert (k, m) A) w'"
    using w'(4) w(2) by (auto simp: gone_def only_without_def)
  ultimately show "\<exists>a w'. removeEventHandler x (session_observer s k m) w = (Inr a, w')
      \<and> alive_at s f b N M w' \<and> gone s (insert (k, m) A) w'"
    using alive_at_same [OF w(1)] by simp
qed

lemma gone_frame: "same_registry w w' \<Longrightarrow> gone s A w' = gone s A w"
  by (simp add: gone_def same_registry_def enabled_def)

lemma gone_empty: "gone s {} w"
  by (simp add: gone_def)

lemma returns_add:
  assumes "(if (k, m) \<in> front_slots then Some f else if (k, m) \<in> back_slots then Some b else None) = Some x"
  shows "returns (alive_at s f b N M) (addEventHandler x (session_observer s k m)) (\<lambda>_. alive_at s f b N M)"
proof (rule returnsI)
  fix w assume w: "alive_at s f b N M w"
  have "place w (session_observer s k m) = Some x" using place_session [OF w] assms by simp
  with w obtain w' where "addEventHandler x (session_observer s k m) w = (Inr (), w')"
    "lifetime_ok w'" "same_objects w w'"
    using addEventHandler_lifetime unfolding alive_at_def by blast
  then show "\<exists>a w'. addEventHandler x (session_observer s k m) w = (Inr a, w') \<and> alive_at s f b N M w'"
    using alive_at_same [OF w] by simp
qed

lemma returns_with_session:
  assumes "\<And>x. ss_front x = f \<Longrightarrow> ss_back x = b \<Longrightarrow> returns (alive_at s f b N M) (g x) Q"
  shows "returns (alive_at s f b N M) (with_session s g) Q"
proof (rule returnsI)
  fix w assume w: "alive_at s f b N M w"
  then have "returns (alive_at s f b N M) (g (sessions w s)) Q" by (intro assms) (simp_all add: alive_at_def)
  then obtain a w' where "g (sessions w s) w = (Inr a, w')" "Q a w'" using w by (rule returnsE)
  with w show "\<exists>a w'. with_session s g w = (Inr a, w') \<and> Q a w'"
    by (simp add: with_session_def comp_simps alive_at_def)
qed

lemma returns_RegisterHandler:
  "returns (alive_at s f b N M) (RegisterHandler s) (\<lambda>_. alive_at s f b N M)"
  unfolding RegisterHandler_def
  by (intro returns_with_session returns_andthen [where R = "alive_at s f b N M"] returns_add)
    (simp_all add: slots)

lemma keeps_RegisterHandler: "keeps (alive_at s f b N M) (RegisterHandler s)"
  unfolding keeps_def by (rule returns_valid [OF returns_RegisterHandler])

section \<open>The life cycle\<close>

lemma returns_gone_upd:
  assumes "\<And>x. ss_alive (g x) = ss_alive x \<and> ss_front (g x) = ss_front x \<and> ss_back (g x) = ss_back x"
  shows "returns (\<lambda>w. alive_at s f b N M w \<and> gone s A w) (when_do c (upd_session s g))
    (\<lambda>_ w. alive_at s f b N M w \<and> gone s A w)"
proof (rule returnsI, elim conjE)
  fix w assume w: "alive_at s f b N M w" "gone s A w"
  let ?w = "w\<lparr>sessions := (sessions w)(s := g (sessions w s))\<rparr>"
  have "when_do c (upd_session s g) w = (Inr (), if c then ?w else w)"
    by (simp add: upd_session_def comp_simps)
  moreover have "alive_at s f b N M ?w"
    using keepsD [OF upd_session_frame(2) [OF assms] w(1)] by (simp add: upd_session_def modify_def)
  moreover have "gone s A ?w = gone s A w" by (rule gone_frame) (simp add: same_registry_def)
  ultimately show "\<exists>a w'. when_do c (upd_session s g) w = (Inr a, w') \<and> alive_at s f b N M w' \<and> gone s A w'"
    using w by auto
qed

definition all_slots :: "(nkind \<times> callback) set" where
  "all_slots = {(Error, OnBackError), (Shutdown, OnBackShutdown), (Readable, OnBackReadable),
     (Writable, OnBackWritable), (Error, OnFrontError), (Shutdown, OnFrontShutdown),
     (Readable, OnFrontReadable)}"

lemma all_slots_eq: "all_slots = front_slots \<union> back_slots"
  by (auto simp: all_slots_def slots)

lemma returns_UnregisterHandler:
  "returns (alive_at s f b N M) (UnregisterHandler s)
     (\<lambda>_ w. alive_at s f b N M w \<and> gone s all_slots w)"
  unfolding UnregisterHandler_def all_slots_def
proof (rule returns_with_session)
  fix x assume x: "ss_front x = f" "ss_back x = b"
  note step = returns_andthen [OF returns_remove]
  show "returns (alive_at s f b N M)
     (andthen (removeEventHandler (ss_front x) (session_observer s Readable OnFrontReadable))
     (andthen (removeEventHandler (ss_front x) (session_observer s Shutdown OnFrontShutdown))
     (andthen (removeEventHandler (ss_front x) (session_observer s Error OnFrontError))
     (andthen (removeEventHandler (ss_back x) (session_observer s Writable OnBackWritable))
     (andthen (removeEventHandler (ss_back x) (session_observer s Readable OnBackReadable))
     (andthen (removeEventHandler (ss_back x) (session_observer s Shutdown OnBackShutdown))
     (andthen (removeEventHandler (ss_back x) (session_observer s Error OnBackError))
     (andthen (when_do (ss_front_buffer x) (upd_session s (\<lambda>x. x\<lparr>ss_front_buffer := False\<rparr>)))
              (when_do (ss_back_buffer x) (upd_session s (\<lambda>x. x\<lparr>ss_back_buffer := False\<rparr>)))))))))))
     (\<lambda>_ w. alive_at s f b N M w \<and> gone s {(Error, OnBackError), (Shutdown, OnBackShutdown),
       (Readable, OnBackReadable), (Writable, OnBackWritable), (Error, OnFrontError),
       (Shutdown, OnFrontShutdown), (Readable, OnFrontReadable)} w)"
    unfolding x
    by (rule returns_pre [where P = "\<lambda>w. alive_at s f b N M w \<and> gone s {} w"],
        rule step, simp add: slots, rule step, simp add: slots, rule step, simp add: slots,
        rule step, simp add: slots, rule step, simp add: slots, rule step, simp add: slots,
        rule step, simp add: slots, rule returns_andthen [OF returns_gone_upd], simp,
        rule returns_gone_upd, simp, simp add: gone_empty)
qed

lemma returns_dtor:
  "returns (alive_at s f b N M) (ProxySession_dtor s)
     (\<lambda>_ w. inv_at N M w \<and> \<not> ss_alive (sessions w s)
       \<and> (\<forall>j. enabled w j \<longrightarrow> ob_obj (observers w j) \<noteq> Some (SessionObj s)))"
  unfolding ProxySession_dtor_def
proof (rule returns_andthen [OF returns_UnregisterHandler], rule returnsI, elim conjE)
  fix w assume w: "alive_at s f b N M w" "gone s all_slots w"
  let ?g = "\<lambda>x. x\<lparr>ss_alive := False\<rparr>"
  let ?w = "w\<lparr>sessions := (sessions w)(s := ?g (sessions w s))\<rparr>"
  have ok: "lifetime_ok w" using w(1) by (simp add: alive_at_def)
  have other: "ob_obj (observers w j) \<noteq> Some (SessionObj s)" if j: "enabled w j" for j
  proof
    assume o: "ob_obj (observers w j) = Some (SessionObj s)"
    let ?k = "ob_kind (observers w j)" and ?m = "ob_method (observers w j)"
    have "place w (observers w j) \<noteq> None" using lifetime_sits [OF ok j] by (auto simp: sits_def)
    with o have "(?k, ?m) \<in> all_slots" by (auto simp: place_def all_slots_eq split: if_splits)
    moreover have "observers w j = session_observer s ?k ?m"
      using o by (cases "observers w j") (simp add: session_observer_def mkObserver_def)
    ultimately show False using w(2) j unfolding gone_def by blast
  qed
  have "lifetime_ok ?w"
  proof (rule lifetime_cong [OF ok])
    fix j assume "enabled w j"
    from other [OF this] show "place ?w (observers w j) = place w (observers w j)"
      by (auto simp: place_def split: option.split objref.split)
  qed (simp add: same_registry_def)
  then show "\<exists>a w'. upd_session s ?g w = (Inr a, w') \<and> inv_at N M w' \<and> \<not> ss_alive (sessions w' s)
      \<and> (\<forall>j. enabled w' j \<longrightarrow> ob_obj (observers w' j) \<noteq> Some (SessionObj s))"
    using w(1) other by (simp add: upd_session_def modify_def inv_at_def alive_at_def older_def enabled_def)
qed

lemmas valid_dtor = returns_valid [OF returns_dtor]

lemma keeps_with_service [keep]: "(\<And>v. keeps P (f v)) \<Longrightarrow> keeps P (with_service x f)"
  by (auto simp: with_service_def split: option.split intro: keep)

lemmas service_events = OnFrontConnect_def OnFrontDisconnect_def OnBackConnect_def OnBackDisconnect_def

lemma valid_keeps: "keeps P m \<Longrightarrow> valid P m (\<lambda>_. P) P"
  by (simp add: keeps_def)

lemma valid_Close:
  "valid (alive_at s f b N M) (Close C s) (\<lambda>_. inv_at N M) (alive_at s f b N M)"
  unfolding Close_def service_events
proof (rule valid_with_session, rule valid_andthen [where R = "alive_at s f b N M"])
  show "valid (alive_at s f b N M) (upd_session s (\<lambda>x. x\<lparr>ss_closed := True\<rparr>))
      (\<lambda>_. alive_at s f b N M) (alive_at s f b N M)"
    by (intro valid_keeps upd_session_frame) simp
  fix x
  show "valid (alive_at s f b N M)
     (if ss_closed x then skip
      else andthen (log_msg C (bnd (front_address C s) (\<lambda>f. bnd (back_address C s) (\<lambda>b.
             ret (''Disconnection front['' @ f @ ''] back['' @ b @ '']'')))))
          (andthen (upd_session s (\<lambda>x. x\<lparr>ss_back_connected := False\<rparr>))
          (andthen (SocketImpl_close (ss_back x))
          (andthen (SocketImpl_close (ss_front x))
          (andthen (with_service x (\<lambda>v. andthen (svc_call s FrontDisconnect)
              (andthen (svc_call s BackDisconnect) (svc_call s ServiceDeleted))))
            (ProxySession_dtor s))))))
     (\<lambda>_. inv_at N M) (alive_at s f b N M)"
  proof (rule valid_if)
    show "valid (alive_at s f b N M) skip (\<lambda>_. inv_at N M) (alive_at s f b N M)"
      by (rule valid_skip) (rule alive_at_inv)
  next
    show "valid (alive_at s f b N M)
     (andthen (log_msg C (bnd (front_address C s) (\<lambda>f. bnd (back_address C s) (\<lambda>b.
             ret (''Disconnection front['' @ f @ ''] back['' @ b @ '']'')))))
          (andthen (upd_session s (\<lambda>x. x\<lparr>ss_back_connected := False\<rparr>))
          (andthen (SocketImpl_close (ss_back x))
          (andthen (SocketImpl_close (ss_front x))
          (andthen (with_service x (\<lambda>v. andthen (svc_call s FrontDisconnect)
              (andthen (svc_call s BackDisconnect) (svc_call s ServiceDeleted))))
            (ProxySession_dtor s))))))
     (\<lambda>_. inv_at N M) (alive_at s f b N M)"
      by (intro valid_andthen [where R = "alive_at s f b N M"] valid_keeps keep upd_session_frame
          alive_sock valid_post [OF valid_dtor]) simp_all
  qed
qed

section \<open>The handlers\<close>

lemma keeps_stream_send_loop:
  assumes "send_documented S" and "sock_stable P"
  shows "keeps P (stream_send_loop k S s block p sent)"
proof (induction k arbitrary: p sent)
  case (Suc k)
  have nn: "valid P (SocketImpl_sendBytes S s p) (\<lambda>n w. P w \<and> 0 \<le> n) P"
  proof (rule validI)
    fix w assume "P w"
    with keeps_sendBytes [OF assms(2)] have "outcome (\<lambda>_. P) P (SocketImpl_sendBytes S s p w)"
      unfolding keeps_def by (rule validD)
    moreover have "0 \<le> n" if "SocketImpl_sendBytes S s p w = (Inr n, w')" for n w'
      using sendBytes_nonneg [OF assms(1) that] .
    ultimately show "outcome (\<lambda>n w. P w \<and> 0 \<le> n) P (SocketImpl_sendBytes S s p w)"
      by (cases "SocketImpl_sendBytes S s p w" rule: result_cases) auto
  qed
  show ?case unfolding keeps_def stream_send_loop.simps Let_def
    by (intro valid_if vc valid_bnd [OF nn] validI) 
      (auto simp: comp_simps dest: validD [OF Suc.IH [unfolded keeps_def]])
qed (simp add: keep)

lemma keeps_StreamSocketImpl_sendBytes:
  "send_documented S \<Longrightarrow> sock_stable P \<Longrightarrow> keeps P (StreamSocketImpl_sendBytes S s b)"
  unfolding StreamSocketImpl_sendBytes_def by (intro keep keeps_stream_send_loop)

lemma keeps_release: "reactor_stable P \<Longrightarrow> keeps P (modify (nf_release k))"
  by (rule keeps_modify) (rule reactor_stable_release)

lemma keeps_OnFrontReadable:
  "send_documented (c_os C) \<Longrightarrow> keeps (alive_at s' f b N M) (OnFrontReadable_virtual C s x v buf)"
  unfolding OnFrontReadable_virtual_def ByPass_OnFrontReadable_def
  by (cases v) (auto intro!: keep keeps_StreamSocketImpl_sendBytes alive_sock)

lemma keeps_OnBackReadable:
  "send_documented (c_os C) \<Longrightarrow> keeps (alive_at s' f b N M) (OnBackReadable_virtual C s x v buf)"
  unfolding OnBackReadable_virtual_def ByPass_OnBackReadable_def
  by (cases v) (auto intro!: keep keeps_StreamSocketImpl_sendBytes alive_sock)

text \<open>A member function that may destroy its object: alive before, the invariant after.\<close>

definition may_close :: "nat \<Rightarrow> unit proxy \<Rightarrow> bool" where
  "may_close s m \<longleftrightarrow>
     (\<forall>f b N M. valid (alive_at s f b N M) m (\<lambda>_. inv_at N M) (alive_at s f b N M))"

lemma may_closeI:
  "(\<And>f b N M. valid (alive_at s f b N M) m (\<lambda>_. inv_at N M) (alive_at s f b N M)) \<Longrightarrow> may_close s m"
  by (simp add: may_close_def)

lemma may_closeD: "may_close s m \<Longrightarrow> valid (alive_at s f b N M) m (\<lambda>_. inv_at N M) (alive_at s f b N M)"
  by (simp add: may_close_def)

named_theorems closing "member functions that may destroy their object"

lemma may_close_Close [closing]: "may_close s (Close C s)"
  by (intro may_closeI valid_Close)

lemma may_close_keeps:
  assumes "\<And>f b N M. keeps (alive_at s f b N M) m"
  shows "may_close s m"
  by (intro may_closeI valid_post [OF valid_keeps [OF assms]]) (simp_all add: alive_at_inv)

lemma may_close_bnd:
  assumes "\<And>f b N M. keeps (alive_at s f b N M) m" and "\<And>a. may_close s (k a)"
  shows "may_close s (bnd m k)"
  by (rule may_closeI, rule valid_bnd [OF valid_keeps [OF assms(1)]], rule may_closeD, rule assms(2))

lemma may_close_andthen:
  assumes "\<And>f b N M. keeps (alive_at s f b N M) m" and "may_close s k"
  shows "may_close s (andthen m k)"
  using assms by (simp add: andthen_def may_close_bnd)

lemma may_close_if: "may_close s m \<Longrightarrow> may_close s k \<Longrightarrow> may_close s (if c then m else k)"
  by simp

lemma may_close_catch:
  assumes "may_close s m" and "\<And>e. may_close s (h e)"
  shows "may_close s (catch_poco m h)"
  by (rule may_closeI, rule valid_catch, rule may_closeD, rule assms(1), rule may_closeD, rule assms(2))

lemma may_close_with_session:
  assumes "\<And>x. may_close s (g x)"
  shows "may_close s (with_session s g)"
  by (rule may_closeI, rule valid_with_session, rule may_closeD, rule assms)

lemma may_close_session_error [closing]: "may_close s (session_error C s e)"
  unfolding session_error_def by (intro may_close_andthen closing keep)

lemma may_close_onFrontReadable [closing]:
  assumes "send_documented (c_os C)"
  shows "may_close s (onFrontReadable C s k)"
  unfolding onFrontReadable_def
  by (intro may_close_andthen may_close_catch may_close_with_session may_close_if may_close_bnd
      keeps_release alive_at_stable closing)
    (auto split: prod.split intro!: may_close_if may_close_keeps closing keep alive_sock
      keeps_OnFrontReadable assms)

lemma may_close_onBackReadable [closing]:
  assumes "send_documented (c_os C)"
  shows "may_close s (onBackReadable C s k)"
  unfolding onBackReadable_def
  by (intro may_close_andthen may_close_catch may_close_with_session may_close_if may_close_bnd
      keeps_release alive_at_stable closing)
    (auto split: prod.split intro!: may_close_if may_close_keeps closing keep alive_sock
      keeps_OnBackReadable assms)

lemma may_close_onBackWritable [closing]: "may_close s (onBackWritable C s k)"
  unfolding onBackWritable_def service_events
  by (intro may_close_andthen may_close_catch may_close_with_session may_close_keeps keep
      keeps_release alive_at_stable upd_session_frame closing) simp

lemma may_close_shutdown_error [closing]:
  "may_close s (onFrontShutdown C s k)" "may_close s (onFrontError C s k)"
  "may_close s (onBackShutdown C s k)" "may_close s (onBackError C s k)"
  unfolding onFrontShutdown_def onFrontError_def onBackShutdown_def onBackError_def
  by (intro may_close_andthen closing keep keeps_release alive_at_stable)+

lemma may_close_callback:
  assumes "send_documented (c_os C)" and "m \<noteq> OnAccept"
  shows "may_close s (session_callback C s m k)"
  unfolding session_callback_def using assms(2)
  by (intro may_close_with_session)
    (cases m; simp add: closing assms(1) onRelease_def may_close_keeps keeps_release alive_at_stable)

section \<open>The acceptor\<close>

definition fresh_session :: "nat \<Rightarrow> nat \<Rightarrow> nat \<Rightarrow> world \<Rightarrow> bool" where
  "fresh_session N M s w \<longleftrightarrow> (\<exists>f b. alive_at s f b N M w)"

lemma valid_fresh:
  "(\<And>f b. valid (alive_at s f b N M) m Q E) \<Longrightarrow> valid (fresh_session N M s) m Q E"
  by (auto simp: valid_def fresh_session_def)

lemma keeps_SetService:
  "keeps (alive_at s f b N M) (SetService C s v a)"
  unfolding SetService_def service_events
  by (intro keep keeps_with_session upd_session_frame alive_sock keeps_RegisterHandler) simp

lemma valid_new_session:
  "valid (inv_at N M)
     (bnd (gets nsess) (\<lambda>s.
        andthen (modify (\<lambda>w. w\<lparr>nsess := Suc s, sessions := (sessions w)(s :=
         \<lparr>ss_front = front, ss_back = back, ss_service = None, ss_front_buffer = True,
          ss_back_buffer = True, ss_back_connected = False, ss_closed = False, ss_alive = True\<rparr>)\<rparr>))
       (ret s)))
     (fresh_session N M) (inv_at N M)"
proof (rule validI)
  fix w assume w: "inv_at N M w"
  let ?x = "\<lparr>ss_front = front, ss_back = back, ss_service = None, ss_front_buffer = True,
     ss_back_buffer = True, ss_back_connected = False, ss_closed = False, ss_alive = True\<rparr>"
  let ?w = "w\<lparr>nsess := Suc (nsess w), sessions := (sessions w)(nsess w := ?x)\<rparr>"
  have ok: "lifetime_ok w" using w by (simp add: inv_at_def)
  have "lifetime_ok ?w"
  proof (rule lifetime_cong [OF ok])
    fix j assume "enabled w j"
    then have "place w (observers w j) \<noteq> None" using lifetime_sits [OF ok] by (auto simp: sits_def)
    then show "place ?w (observers w j) = place w (observers w j)"
      by (auto simp: place_def less_Suc_eq split: option.split objref.split)
  qed (simp add: same_registry_def)
  then have "alive_at (nsess w) front back N M ?w"
    using w by (simp add: alive_at_def inv_at_def older_def)
  then show "outcome (fresh_session N M) (inv_at N M) (bnd (gets nsess) (\<lambda>s.
      andthen (modify (\<lambda>w. w\<lparr>nsess := Suc s, sessions := (sessions w)(s := ?x)\<rparr>)) (ret s)) w)"
    by (auto simp: comp_simps fresh_session_def)
qed

lemma valid_ProxySession_ctor:
  "valid (inv_at N M) (ProxySession_ctor C front) (fresh_session N M) (inv_at N M)"
  unfolding ProxySession_ctor_def
  by (rule valid_bnd [OF valid_keeps], intro keep inv_sock,
      rule valid_andthen [OF valid_keeps], intro keep inv_sock, rule valid_new_session)

lemma keeps_createServiceHandler: "keeps (inv_at N M) (createServiceHandler C front)"
  unfolding createServiceHandler_def keeps_def
proof (rule valid_bnd [OF valid_catch [OF valid_ProxySession_ctor]])
  fix c t n
  show "valid (inv_at N M) (andthen (SocketImpl_close front) (throw (Poco c t n)))
      (fresh_session N M) (inv_at N M)"
    by (rule valid_andthen [OF valid_keeps]) (auto intro!: keep vc inv_sock)
next
  fix s
  show "valid (fresh_session N M s)
     (bnd (gets (\<lambda>w. (c_creator C (ss_front (sessions w s)) (ss_back (sessions w s)), acc_back_addr w)))
       (\<lambda>(v, a). SetService C s v a)) (\<lambda>_. inv_at N M) (inv_at N M)"
  proof (rule valid_fresh)
    fix f b
    show "valid (alive_at s f b N M)
     (bnd (gets (\<lambda>w. (c_creator C (ss_front (sessions w s)) (ss_back (sessions w s)), acc_back_addr w)))
       (\<lambda>(v, a). SetService C s v a)) (\<lambda>_. inv_at N M) (inv_at N M)"
      by (rule valid_post [OF valid_keeps])
        (auto intro!: keep keeps_SetService simp: alive_at_inv split: prod.split)
  qed
qed

lemma valid_onAccept:
  "valid (\<lambda>w. inv_at N M w \<and> acc_alive w) (onAccept C k) (\<lambda>_. inv_at N M) (inv_at N M)"
proof (rule validI, elim conjE)
  fix w assume w: "inv_at N M w" "acc_alive w"
  let ?m = "bnd (SocketImpl_acceptConnection (c_os C) (acc_socket w)) (createServiceHandler C)"
  have "keeps (inv_at N M) ?m"
    by (intro keep inv_sock keeps_createServiceHandler)
  moreover have "inv_at N M (nf_release k w)" by (rule reactor_stable_release [OF inv_at_stable w(1)])
  ultimately have "outcome (\<lambda>_. inv_at N M) (inv_at N M) (?m (nf_release k w))"
    unfolding keeps_def by (rule validD)
  with w(2) show "outcome (\<lambda>_. inv_at N M) (inv_at N M) (onAccept C k w)"
    by (simp add: onAccept_def andthen_def bnd_def modify_def gets_def nf_release_def)
qed

lemma callback_safe:
  assumes S: "send_documented (c_os C)"
  shows "valid (\<lambda>w. lifetime_ok w \<and> older N M w \<and> (\<exists>j < nobs w. observers w j = mkObserver p k m))
    (proxy_dispatch C p m k) (\<lambda>_ w. lifetime_ok w \<and> older N M w) (\<lambda>w. lifetime_ok w \<and> older N M w)"
proof (rule validI, elim conjE exE)
  fix w j assume w: "lifetime_ok w" "older N M w" "j < nobs w" "observers w j = mkObserver p k m"
  have pl: "place w (mkObserver p k m) \<noteq> None" by (rule lifetime_target [OF w(1,3,4)])
  have "outcome (\<lambda>_. inv_at N M) (inv_at N M) (proxy_dispatch C p m k w)"
  proof (cases p)
    case (SessionObj s)
    with pl have a: "alive_at s (ss_front (sessions w s)) (ss_back (sessions w s)) N M w" "m \<noteq> OnAccept"
      using w by (auto simp: place_def mkObserver_def alive_at_def slots split: if_splits)
    have "outcome (\<lambda>_. inv_at N M) (alive_at s (ss_front (sessions w s)) (ss_back (sessions w s)) N M)
        (session_callback C s m k w)"
      by (rule validD [OF may_closeD [OF may_close_callback [OF S a(2)]] a(1)])
    then show ?thesis
      by (simp add: proxy_dispatch_def SessionObj) (erule outcome_mono; simp add: alive_at_inv)
  next
    case AcceptorObj
    with pl have "acc_alive w" "m = OnAccept"
      by (auto simp: place_def mkObserver_def split: if_splits)
    with w validD [OF valid_onAccept, of N M w C k] show ?thesis
      by (simp add: proxy_dispatch_def AcceptorObj inv_at_def)
  qed
  then show "outcome (\<lambda>_ w. lifetime_ok w \<and> older N M w) (\<lambda>w. lifetime_ok w \<and> older N M w)
      (proxy_dispatch C p m k w)"
    by (rule outcome_mono) (simp_all add: inv_at_def)
qed

text \<open>The proxy is a client of the reactor: the system calls' documented behaviour is all it needs.\<close>

definition documented :: "config \<Rightarrow> config" where
  "documented C = (if send_documented (c_os C) then C
     else C\<lparr>c_os := (c_os C)\<lparr>os_send := \<lambda>_ _ b. Ok (length b)\<rparr>\<rparr>)"

lemma documented_id: "send_documented (c_os C) \<Longrightarrow> documented C = C"
  by (simp add: documented_def)

lemma documented_send: "send_documented (c_os (documented C))"
  by (simp add: documented_def send_documented_def)

interpretation proxy: reactor_client "proxy_dispatch (documented C)" lifetime_ok for C
  by unfold_locales (rule reactor_stable_poll [OF lifetime_stable], rule lifetime_registry, assumption,
    rule callback_safe [OF documented_send])

end
