(* ===== verification/Session_Life.thy ===== *)
theory Session_Life
  imports Session_Safety
begin

text \<open>
  What the operations of a session do besides registration: the effect of \<open>Close\<close> on the
  sockets and the service, the way a throwing log line keeps a session from being closed, and the
  reference counts of the notifications.
\<close>

section \<open>Frames\<close>

text \<open>\<open>sock_blind f\<close>: the observation \<open>f\<close> does not see the sockets.\<close>

definition sock_blind :: "('a sock_world_scheme \<Rightarrow> 'x) \<Rightarrow> bool" where
  "sock_blind f \<longleftrightarrow> (\<forall>w c n ss t. f (w\<lparr>clk := c, nsock := n, socks := ss, wire := t\<rparr>) = f w)"

lemma sock_blindD: "sock_blind f \<Longrightarrow> f (w\<lparr>clk := c, nsock := n, socks := ss, wire := t\<rparr>) = f w"
  by (simp add: sock_blind_def)

lemma sock_blind_parts:
  assumes "sock_blind f"
  shows "f (w\<lparr>clk := c\<rparr>) = f w" "f (w\<lparr>socks := ss\<rparr>) = f w" "f (w\<lparr>wire := t\<rparr>) = f w"
    "f (w\<lparr>nsock := n\<rparr>) = f w"
proof -
  have "f (w\<lparr>clk := c, nsock := nsock w, socks := socks w, wire := wire w\<rparr>) = f w"
    "f (w\<lparr>clk := clk w, nsock := nsock w, socks := ss, wire := wire w\<rparr>) = f w"
    "f (w\<lparr>clk := clk w, nsock := nsock w, socks := socks w, wire := t\<rparr>) = f w"
    "f (w\<lparr>clk := clk w, nsock := n, socks := socks w, wire := wire w\<rparr>) = f w"
    by (rule sock_blindD [OF assms])+
  then show "f (w\<lparr>clk := c\<rparr>) = f w" "f (w\<lparr>socks := ss\<rparr>) = f w" "f (w\<lparr>wire := t\<rparr>) = f w"
    "f (w\<lparr>nsock := n\<rparr>) = f w" by simp_all
qed

lemma blind_syscall [frame]: "sock_blind f \<Longrightarrow> preserves f (syscall g)"
  by (simp add: preserves_def syscall_def sock_blind_parts)

lemma blind_record_io [frame]: "sock_blind f \<Longrightarrow> preserves f (record_io e)"
  by (simp add: record_io_def preserves_modify sock_blind_parts)

lemma blind_upd_sock [frame]: "sock_blind f \<Longrightarrow> preserves f (upd_sock s g)"
  by (simp add: upd_sock_def preserves_modify sock_blind_parts)

lemma blind_error [frame]: "preserves f (SocketImpl_error code arg)"
  by (auto simp: SocketImpl_error_def split: option.split intro: frame)

lemma blind_sysres [frame]:
  "(\<And>a. preserves f (g a)) \<Longrightarrow> (\<And>e. preserves f (h e)) \<Longrightarrow>
   preserves f (case r of Ok a \<Rightarrow> g a | Err e \<Rightarrow> h e)"
  by (cases r) auto

lemma blind_check [frame]: "preserves f (check d r arg)"
  unfolding check_def by (intro frame)

lemma blind_guard_fd [frame]: "(\<And>fd. preserves f (g fd)) \<Longrightarrow> preserves f (guard_fd s g)"
  unfolding guard_fd_def by (intro frame)

lemma blind_alloc_socket [frame]: "sock_blind f \<Longrightarrow> preserves f (alloc_socket S fd)"
  unfolding alloc_socket_def by (intro frame preserves_modify) (simp add: sock_blind_parts)

lemma blind_close [frame]: "sock_blind f \<Longrightarrow> preserves f (SocketImpl_close s)"
  unfolding SocketImpl_close_def by (intro frame)

lemma blind_setBlocking [frame]: "sock_blind f \<Longrightarrow> preserves f (SocketImpl_setBlocking S s b)"
  unfolding SocketImpl_setBlocking_def SocketImpl_ioctl_def by (intro frame)

lemma blind_ensure_init [frame]: "sock_blind f \<Longrightarrow> preserves f (ensure_init S s)"
  unfolding ensure_init_def SocketImpl_initSocket_def by (intro frame)

lemma blind_poll_loop [frame]: "sock_blind f \<Longrightarrow> preserves f (poll_loop k S fd ev rem)"
  by (induction k arbitrary: rem) (auto intro!: frame)

lemma blind_poll [frame]: "sock_blind f \<Longrightarrow> preserves f (SocketImpl_poll S s t m)"
  unfolding SocketImpl_poll_def by (intro frame)

lemma blind_let [frame]: "preserves f (g x) \<Longrightarrow> preserves f (let y = x in g y)"
  by simp

lemma blind_checkBrokenTimeout [frame]:
  "sock_blind f \<Longrightarrow> preserves f (SocketImpl_checkBrokenTimeout S s m)"
  unfolding SocketImpl_checkBrokenTimeout_def by (intro frame)

lemma blind_accept_loop [frame]: "sock_blind f \<Longrightarrow> preserves f (accept_loop k S fd)"
  by (induction k) (auto intro!: frame)

lemma blind_acceptConnection [frame]: "sock_blind f \<Longrightarrow> preserves f (SocketImpl_acceptConnection S s)"
  unfolding SocketImpl_acceptConnection_def by (intro frame)

lemma blind_connectNB [frame]: "sock_blind f \<Longrightarrow> preserves f (SocketImpl_connectNB S s a)"
  unfolding SocketImpl_connectNB_def by (intro frame)

lemma blind_peerAddress [frame]: "sock_blind f \<Longrightarrow> preserves f (SocketImpl_peerAddress S s)"
  unfolding SocketImpl_peerAddress_def by (intro frame)

lemma blind_recv_loop [frame]: "sock_blind f \<Longrightarrow> preserves f (recv_loop k S s len)"
  by (induction k) (auto intro!: frame)

lemma blind_receiveBytes [frame]: "sock_blind f \<Longrightarrow> preserves f (SocketImpl_receiveBytes S s len)"
  unfolding SocketImpl_receiveBytes_def by (intro frame)

lemma blind_send_loop [frame]: "sock_blind f \<Longrightarrow> preserves f (send_loop k S s b)"
  by (induction k) (auto intro!: frame simp: send_loop.simps(2))

lemma blind_sendBytes [frame]: "sock_blind f \<Longrightarrow> preserves f (SocketImpl_sendBytes S s b)"
  unfolding SocketImpl_sendBytes_def by (intro frame)

lemma blind_stream_send_loop [frame]: "sock_blind f \<Longrightarrow> preserves f (stream_send_loop k S s bl p n)"
  by (induction k arbitrary: p n) (auto intro!: frame simp: Let_def)

lemma blind_stream_sendBytes [frame]: "sock_blind f \<Longrightarrow> preserves f (StreamSocketImpl_sendBytes S s b)"
  unfolding StreamSocketImpl_sendBytes_def by (intro frame)

text \<open>What the registration operations leave alone.\<close>

definition io_part :: "world \<Rightarrow> _" where
  "io_part w = (socks w, svc_log w, wire w, nf_refs w, log_text w, clk w)"

lemma io_part_parts:
  "io_part w' = io_part w \<Longrightarrow> socks w' = socks w \<and> svc_log w' = svc_log w \<and> wire w' = wire w
     \<and> nf_refs w' = nf_refs w \<and> log_text w' = log_text w \<and> clk w' = clk w"
  by (simp add: io_part_def)

lemma getNotifier_frame [frame]: "preserves io_part (getNotifier s b)"
  by (auto simp: preserves_def getNotifier_def new_SocketNotifier_def io_part_def split: option.split)

lemma addObserver_frame: "io_part (SocketNotifier_addObserver i ob w) = io_part w"
  by (simp add: SocketNotifier_addObserver_def NotificationCenter_addObserver_def Let_def io_part_def
      upd_notifier_def split: option.split)

lemma removeObserver_io: "io_part (SocketNotifier_removeObserver i ob w) = io_part w"
  by (simp add: SocketNotifier_removeObserver_def NotificationCenter_removeObserver_def Let_def
      io_part_def upd_notifier_def Observer_disable_def split: option.split)

lemma option_frame [frame]:
  "preserves f a \<Longrightarrow> (\<And>x. preserves f (b x)) \<Longrightarrow>
   preserves f (case p of None \<Rightarrow> a | Some x \<Rightarrow> b x)"
  by (cases p) auto

lemma prod_frame [frame]: "(\<And>x y. preserves f (g x y)) \<Longrightarrow> preserves f (case p of (x, y) \<Rightarrow> g x y)"
  by (cases p) auto

lemma addEventHandler_frame [frame]: "preserves io_part (addEventHandler s ob)"
  unfolding addEventHandler_def
  by (intro frame preserves_modify addObserver_frame) (simp add: io_part_def)

lemma removeEventHandler_frame [frame]: "preserves io_part (removeEventHandler s ob)"
  unfolding removeEventHandler_def
  by (intro frame preserves_modify removeObserver_io) (simp_all add: io_part_def)

lemma upd_session_frame_io [frame]: "preserves io_part (upd_session s g)"
  by (simp add: upd_session_def preserves_modify io_part_def)

lemma with_session_frame [frame]: "(\<And>x. preserves f (g x)) \<Longrightarrow> preserves f (with_session s g)"
  unfolding with_session_def by (intro frame)

lemma UnregisterHandler_frame [frame]: "preserves io_part (UnregisterHandler s)"
  unfolding UnregisterHandler_def by (intro frame)

lemma RegisterHandler_frame [frame]: "preserves io_part (RegisterHandler s)"
  unfolding RegisterHandler_def by (intro frame)

lemma dtor_frame [frame]: "preserves io_part (ProxySession_dtor s)"
  unfolding ProxySession_dtor_def by (intro frame)

lemma getNotifier_sessions: "preserves sessions (getNotifier s b)"
  by (auto simp: preserves_def getNotifier_def new_SocketNotifier_def split: option.split)

lemma addEventHandler_sessions: "preserves sessions (addEventHandler s ob)"
  unfolding addEventHandler_def
  by (intro frame preserves_modify getNotifier_sessions) (simp_all add: addObserver_same)

lemma RegisterHandler_sessions: "preserves sessions (RegisterHandler s)"
  unfolding RegisterHandler_def by (intro frame addEventHandler_sessions)

lemma session_world_alive: "alive_at 0 0 1 0 0 session_world"
  by (simp add: alive_at_def older_def session_world_def initial_world_def lifetime_ok_def
      registry_ok_def enabled_def)

lemma registered_world_alive: "alive_at 0 0 1 0 0 registered_world"
  using returns_RegisterHandler [of 0 0 1 0 0] session_world_alive
  by (fastforce simp: returns_def registered_world_def)

lemma registered_world_sessions: "sessions registered_world = sessions session_world"
  using RegisterHandler_sessions by (simp add: preserves_def registered_world_def)

lemma registered_world_io: "io_part registered_world = io_part session_world"
  using RegisterHandler_frame by (simp add: preserves_def registered_world_def)

section \<open>\<open>Close\<close>\<close>

definition closed_sock :: "sid \<Rightarrow> 'a sock_world_scheme \<Rightarrow> 'a sock_world_scheme" where
  "closed_sock s w = (if sockfd (socks w s) = POCO_INVALID_SOCKET then w
     else w\<lparr>wire := wire w @ [ClosedFd (sockfd (socks w s))],
       socks := (socks w)(s := (socks w s)\<lparr>sockfd := POCO_INVALID_SOCKET\<rparr>)\<rparr>)"

lemma SocketImpl_close_run: "SocketImpl_close s w = (Inr (), closed_sock s w)"
  by (simp add: SocketImpl_close_def closed_sock_def comp_simps record_io_def upd_sock_def)

lemma closed_sock_fd [simp]:
  "sockfd (socks (closed_sock s w) s') = (if s' = s then POCO_INVALID_SOCKET else sockfd (socks w s'))"
  by (simp add: closed_sock_def)

lemma closed_sock_sel [simp]: "svc_log (closed_sock s w) = svc_log w"
  "sessions (closed_sock s w) = sessions w" "nsess (closed_sock s w) = nsess w"
  by (simp_all add: closed_sock_def)

lemma alive_closed_sock: "alive_at s f b N M w \<Longrightarrow> alive_at s f b N M (closed_sock s' w)"
  using keepsD [OF keeps_close [OF alive_sock] _ SocketImpl_close_run] by blast

text \<open>The calls the service receives: its pointer is null when the creator returned none.\<close>

definition disconnect_events :: "nat \<Rightarrow> service option \<Rightarrow> (nat \<times> svc_event) list" where
  "disconnect_events s v =
     (if v = None then [] else [(s, FrontDisconnect), (s, BackDisconnect), (s, ServiceDeleted)])"

text \<open>The state in which the destructor runs.\<close>

definition before_dtor :: "nat \<Rightarrow> world \<Rightarrow> world" where
  "before_dtor s w =
    (let x = sessions w s;
         w1 = w\<lparr>sessions := (sessions w)(s := x\<lparr>ss_closed := True, ss_back_connected := False\<rparr>)\<rparr>;
         w2 = closed_sock (ss_front x) (closed_sock (ss_back x) w1)
     in if ss_service x = None then w2
        else w2\<lparr>svc_log := svc_log w2 @ disconnect_events s (ss_service x)\<rparr>)"

lemma Close_run:
  assumes "\<not> c_logging C" and "ss_alive (sessions w s)" and "\<not> ss_closed (sessions w s)"
  shows "Close C s w = ProxySession_dtor s (before_dtor s w)"
  using assms
  by (cases "ss_service (sessions w s)")
    (simp_all add: Close_def with_session_def comp_simps upd_session_def log_msg_def SocketImpl_close_run
      with_service_def service_events svc_call_def before_dtor_def Let_def disconnect_events_def)

lemma alive_svc_log:
  assumes "alive_at s f b N M w"
  shows "alive_at s f b N M (w\<lparr>svc_log := t\<rparr>)"
proof -
  have "lifetime_ok (w\<lparr>svc_log := t\<rparr>)"
    by (rule lifetime_more [of w]) (use assms in \<open>simp_all add: alive_at_def same_registry_def\<close>)
  with assms show ?thesis by (simp add: alive_at_def older_def)
qed

lemma alive_before_dtor:
  assumes "alive_at s f b N M w"
  shows "alive_at s f b N M (before_dtor s w)"
proof -
  let ?x = "sessions w s"
  let ?g = "\<lambda>x. x\<lparr>ss_closed := True, ss_back_connected := False\<rparr>"
  have "keeps (alive_at s f b N M) (upd_session s ?g)" by (rule upd_session_frame) simp
  from keepsD [OF this assms] have "alive_at s f b N M (w\<lparr>sessions := (sessions w)(s := ?g ?x)\<rparr>)"
    by (simp add: upd_session_def modify_def)
  then have a: "alive_at s f b N M (closed_sock (ss_front ?x) (closed_sock (ss_back ?x)
      (w\<lparr>sessions := (sessions w)(s := ?g ?x)\<rparr>)))" (is "alive_at s f b N M ?w")
    by (intro alive_closed_sock)
  from alive_svc_log [OF this] a show ?thesis
    unfolding before_dtor_def Let_def by (rule_tac if_split [THEN iffD2]) blast
qed

text \<open>
  The log line of \<open>Close\<close> asks for the addresses of both peers. \<open>getpeername\<close> answers for a socket that
  is connected; a socket that is not open, or any error but 0, makes \<open>peerAddress\<close> throw.
\<close>

definition peer_named :: "os \<Rightarrow> nat \<Rightarrow> poco_socket_t \<Rightarrow> bool" where
  "peer_named S n fd \<longleftrightarrow> fd \<noteq> POCO_INVALID_SOCKET \<and> (case os_peername S n fd of Ok a \<Rightarrow> True | Err e \<Rightarrow> e = ENOERR)"

definition names_readable :: "config \<Rightarrow> nat \<Rightarrow> world \<Rightarrow> bool" where
  "names_readable C s w \<longleftrightarrow>
     peer_named (c_os C) (clk w) (sockfd (socks w (ss_front (sessions w s))))
     \<and> peer_named (c_os C) (Suc (clk w)) (sockfd (socks w (ss_back (sessions w s))))"

lemma peerAddress_named:
  assumes "peer_named S (clk w) (sockfd (socks w s))"
  shows "\<exists>a. SocketImpl_peerAddress S s w = (Inr a, w\<lparr>clk := Suc (clk w)\<rparr>)"
  using assms
  by (auto simp: peer_named_def SocketImpl_peerAddress_def guard_fd_run syscall_def check_def comp_simps
      SocketImpl_error_def error_exn_def split: sysres.splits)

lemma peerAddress_unnamed:
  assumes "\<not> peer_named S (clk w) (sockfd (socks w s))"
  shows "\<exists>e n. SocketImpl_peerAddress S s w = (Inl e, w\<lparr>clk := n\<rparr>)"
proof (cases "sockfd (socks w s) = POCO_INVALID_SOCKET")
  case True
  then have "\<exists>e. SocketImpl_peerAddress S s w = (Inl e, w\<lparr>clk := clk w\<rparr>)"
    by (simp add: SocketImpl_peerAddress_def guard_fd_def comp_simps)
  then show ?thesis by blast
next
  case False
  with assms obtain e where "os_peername S (clk w) (sockfd (socks w s)) = Err e" "e \<noteq> ENOERR"
    by (auto simp: peer_named_def split: sysres.splits)
  with False error_exn_code [of e "[]"] show ?thesis
    by (auto simp: SocketImpl_peerAddress_def guard_fd_run syscall_def check_def comp_simps SocketImpl_error_def)
qed

definition closing_flag :: "nat \<Rightarrow> world \<Rightarrow> world" where
  "closing_flag s w = w\<lparr>sessions := (sessions w)(s := (sessions w s)\<lparr>ss_closed := True\<rparr>)\<rparr>"

lemma closing_flag_sel [simp]: "clk (closing_flag s w) = clk w" "socks (closing_flag s w) = socks w"
  "ss_alive (sessions (closing_flag s w) s) = ss_alive (sessions w s)"
  "ss_front (sessions (closing_flag s w) s) = ss_front (sessions w s)"
  "ss_back (sessions (closing_flag s w) s) = ss_back (sessions w s)"
  by (simp_all add: closing_flag_def)

lemma Close_log_named:
  assumes "names_readable C s w" and "ss_alive (sessions w s)"
  shows "\<exists>f b. bnd (front_address C s) (\<lambda>f. bnd (back_address C s) (\<lambda>b.
      ret (''Disconnection front['' @ f @ ''] back['' @ b @ '']''))) (closing_flag s w) =
    (Inr (''Disconnection front['' @ f @ ''] back['' @ b @ '']''), (closing_flag s w)\<lparr>clk := Suc (Suc (clk w))\<rparr>)"
proof -
  let ?w = "closing_flag s w"
  from assms obtain a where a: "SocketImpl_peerAddress (c_os C) (ss_front (sessions w s)) ?w = (Inr a, ?w\<lparr>clk := Suc (clk w)\<rparr>)"
    using peerAddress_named [of "c_os C" ?w "ss_front (sessions w s)"] by (auto simp: names_readable_def)
  from assms obtain b where b: "SocketImpl_peerAddress (c_os C) (ss_back (sessions w s)) (?w\<lparr>clk := Suc (clk w)\<rparr>)
      = (Inr b, ?w\<lparr>clk := Suc (Suc (clk w))\<rparr>)"
    using peerAddress_named [of "c_os C" "?w\<lparr>clk := Suc (clk w)\<rparr>" "ss_back (sessions w s)"] by (auto simp: names_readable_def)
  show ?thesis
    using assms(2) a b
    by (intro exI [of _ "addr_toString a"] exI [of _ "addr_toString b"])
      (simp add: front_address_def back_address_def with_session_def comp_simps)
qed

lemma Close_log_unnamed:
  assumes "\<not> names_readable C s w" and "ss_alive (sessions w s)"
  shows "\<exists>e n. bnd (front_address C s) (\<lambda>f. bnd (back_address C s) (\<lambda>b.
      ret (''Disconnection front['' @ f @ ''] back['' @ b @ '']''))) (closing_flag s w) =
    (Inl e, (closing_flag s w)\<lparr>clk := n\<rparr>)"
proof (cases "peer_named (c_os C) (clk w) (sockfd (socks w (ss_front (sessions w s))))")
  case True
  let ?w = "closing_flag s w"
  from True obtain a where a: "SocketImpl_peerAddress (c_os C) (ss_front (sessions w s)) ?w = (Inr a, ?w\<lparr>clk := Suc (clk w)\<rparr>)"
    using peerAddress_named [of "c_os C" ?w "ss_front (sessions w s)"] by auto
  from True assms(1) obtain e n where "SocketImpl_peerAddress (c_os C) (ss_back (sessions w s)) (?w\<lparr>clk := Suc (clk w)\<rparr>)
      = (Inl e, ?w\<lparr>clk := n\<rparr>)"
    using peerAddress_unnamed [of "c_os C" "?w\<lparr>clk := Suc (clk w)\<rparr>" "ss_back (sessions w s)"] by (auto simp: names_readable_def)
  with assms(2) a show ?thesis by (auto simp: front_address_def back_address_def with_session_def comp_simps)
next
  case False
  then obtain e n where "SocketImpl_peerAddress (c_os C) (ss_front (sessions w s)) (closing_flag s w) = (Inl e, (closing_flag s w)\<lparr>clk := n\<rparr>)"
    using peerAddress_unnamed [of "c_os C" "closing_flag s w" "ss_front (sessions w s)"] by auto
  with assms(2) show ?thesis by (auto simp: front_address_def with_session_def comp_simps)
qed

lemma Close_run_logged:
  assumes "c_logging C" and "names_readable C s w" and "ss_alive (sessions w s)" and "\<not> ss_closed (sessions w s)"
  shows "\<exists>t. Close C s w = ProxySession_dtor s (before_dtor s (w\<lparr>clk := Suc (Suc (clk w)), log_text := t\<rparr>))"
proof -
  from Close_log_named [OF assms(2,3)] obtain f b where
    "bnd (front_address C s) (\<lambda>f. bnd (back_address C s) (\<lambda>b.
        ret (''Disconnection front['' @ f @ ''] back['' @ b @ '']''))) (closing_flag s w) =
      (Inr (''Disconnection front['' @ f @ ''] back['' @ b @ '']''), (closing_flag s w)\<lparr>clk := Suc (Suc (clk w))\<rparr>)" by blast
  then show ?thesis
    using assms(1,3,4) unfolding closing_flag_def
    by (cases "ss_service (sessions w s)")
      (auto simp: Close_def with_session_def comp_simps upd_session_def log_msg_def SocketImpl_close_run
        with_service_def service_events svc_call_def before_dtor_def Let_def disconnect_events_def closed_sock_def)
qed

lemma alive_clk_log: "alive_at s f b N M w \<Longrightarrow> alive_at s f b N M (w\<lparr>clk := n, log_text := t\<rparr>)"
proof -
  assume a: "alive_at s f b N M w"
  have "lifetime_ok (w\<lparr>clk := n, log_text := t\<rparr>)"
    by (rule lifetime_more [of w]) (use a in \<open>simp_all add: alive_at_def same_registry_def\<close>)
  with a show ?thesis by (simp add: alive_at_def older_def)
qed

text \<open>\<open>logged\<close> is the state after the log line.\<close>

lemma Close_run_named:
  assumes "c_logging C \<longrightarrow> names_readable C s w" and "ss_alive (sessions w s)" and "\<not> ss_closed (sessions w s)"
  shows "\<exists>n t. Close C s w = ProxySession_dtor s (before_dtor s (w\<lparr>clk := n, log_text := t\<rparr>))"
proof (cases "c_logging C")
  case True
  with assms Close_run_logged show ?thesis by blast
next
  case False
  have "w\<lparr>clk := clk w, log_text := log_text w\<rparr> = w" by simp
  with Close_run [OF False assms(2,3)] show ?thesis by metis
qed

lemma Close_completes:
  assumes "c_logging C \<longrightarrow> names_readable C s w" and "lifetime_ok w" and "s < nsess w"
    and "ss_alive (sessions w s)" and "\<not> ss_closed (sessions w s)"
  shows "\<exists>w'. Close C s w = (Inr (), w')
    \<and> sockfd (socks w' (ss_front (sessions w s))) = POCO_INVALID_SOCKET
    \<and> sockfd (socks w' (ss_back (sessions w s))) = POCO_INVALID_SOCKET
    \<and> svc_log w' = svc_log w @ disconnect_events s (ss_service (sessions w s))
    \<and> \<not> ss_alive (sessions w' s)
    \<and> (\<forall>j < nobs w'. ob_obj (observers w' j) \<noteq> Some (SessionObj s))
    \<and> lifetime_ok w'"
proof -
  let ?x = "sessions w s"
  from Close_run_named [OF assms(1,4,5)] obtain n t where
    run: "Close C s w = ProxySession_dtor s (before_dtor s (w\<lparr>clk := n, log_text := t\<rparr>))" by blast
  let ?v = "w\<lparr>clk := n, log_text := t\<rparr>"
  have "alive_at s (ss_front ?x) (ss_back ?x) 0 0 w" using assms by (simp add: alive_at_def older_def)
  from alive_before_dtor [OF alive_clk_log [OF this]] obtain w' where
    w': "ProxySession_dtor s (before_dtor s ?v) = (Inr (), w')" "inv_at 0 0 w'" "\<not> ss_alive (sessions w' s)"
      "\<forall>j. enabled w' j \<longrightarrow> ob_obj (observers w' j) \<noteq> Some (SessionObj s)"
    using returns_dtor unfolding returns_def by fastforce
  have "socks w' = socks (before_dtor s ?v)" "svc_log w' = svc_log (before_dtor s ?v)"
    using io_part_parts [OF preservesD [OF dtor_frame w'(1)]] by simp_all
  with w' show ?thesis
    by (intro exI [of _ w'])
      (auto simp: run inv_at_def enabled_def before_dtor_def Let_def disconnect_events_def)
qed

lemma Close_closed:
  assumes "ss_alive (sessions w s)" and "ss_closed (sessions w s)"
  shows "Close C s w = (Inr (), w)"
proof -
  have "(sessions w s)\<lparr>ss_closed := True\<rparr> = sessions w s" using assms(2) by simp
  then have "w\<lparr>sessions := (sessions w)(s := (sessions w s)\<lparr>ss_closed := True\<rparr>)\<rparr> = w"
    by (simp only: fun_upd_triv) simp
  with assms show ?thesis
    by (simp only: Close_def with_session_def bnd_def gets_def andthen_def upd_session_def modify_def
        skip_def ret_def if_True prod.case sum.case)
qed

lemma Close_stuck:
  assumes "c_logging C" and "\<not> names_readable C s w" and "ss_alive (sessions w s)" and "\<not> ss_closed (sessions w s)"
  shows "\<exists>x w'. Close C s w = (Inl x, w') \<and> ss_alive (sessions w' s) \<and> ss_closed (sessions w' s)
    \<and> socks w' = socks w \<and> svc_log w' = svc_log w \<and> (\<forall>C'. Close C' s w' = (Inr (), w'))"
proof -
  from Close_log_unnamed [OF assms(2,3)] obtain e n where
    "bnd (front_address C s) (\<lambda>f. bnd (back_address C s) (\<lambda>b.
        ret (''Disconnection front['' @ f @ ''] back['' @ b @ '']''))) (closing_flag s w) = (Inl e, (closing_flag s w)\<lparr>clk := n\<rparr>)"
    by blast
  then have "Close C s w = (Inl e, (closing_flag s w)\<lparr>clk := n\<rparr>)"
    using assms(1,3,4) unfolding closing_flag_def
    by (simp add: Close_def with_session_def comp_simps upd_session_def log_msg_def)
  moreover have "Close C' s ((closing_flag s w)\<lparr>clk := n\<rparr>) = (Inr (), (closing_flag s w)\<lparr>clk := n\<rparr>)" for C'
    using assms(3) by (intro Close_closed) (simp_all add: closing_flag_def)
  ultimately show ?thesis using assms(3) by (auto simp: closing_flag_def)
qed

text \<open>C7: \<open>Close\<close> of an open session destroys it completely. Without logging, or when the addresses of
  both peers can be read for the log line, it always returns, and then both sockets are closed,
  the service has received each disconnect call and its deletion exactly once, the object is
  destroyed, no observer of the reactor refers to it any more, and the lifetime invariant holds
  again.\<close>

theorem Close_complete:
  assumes "c_logging C \<longrightarrow> names_readable C s w" and "lifetime_ok w" and "s < nsess w"
    and "ss_alive (sessions w s)" and "\<not> ss_closed (sessions w s)"
  shows "\<exists>w'. Close C s w = (Inr (), w')
    \<and> sockfd (socks w' (ss_front (sessions w s))) = POCO_INVALID_SOCKET
    \<and> sockfd (socks w' (ss_back (sessions w s))) = POCO_INVALID_SOCKET
    \<and> svc_log w' = svc_log w @ disconnect_events s (ss_service (sessions w s))
    \<and> \<not> ss_alive (sessions w' s)
    \<and> (\<forall>j < nobs w'. ob_obj (observers w' j) \<noteq> Some (SessionObj s))
    \<and> lifetime_ok w'"
  by (rule Close_completes [OF assms])

definition logging_config :: config where
  "logging_config = sample_config\<lparr>c_logging := True\<rparr>"

theorem Close_complete_witness:
  "\<exists>w'. Close logging_config 0 registered_world = (Inr (), w') \<and> \<not> ss_alive (sessions w' 0)
    \<and> svc_log w' = [(0, FrontDisconnect), (0, BackDisconnect), (0, ServiceDeleted)]
    \<and> (\<forall>j < nobs w'. ob_obj (observers w' j) \<noteq> Some (SessionObj 0))"
proof -
  have a: "lifetime_ok registered_world" "0 < nsess registered_world" "ss_alive (sessions registered_world 0)"
    using registered_world_alive by (simp_all add: alive_at_def)
  have s: "svc_log registered_world = []" "socks registered_world = socks session_world"
    using registered_world_io by (simp_all add: io_part_def session_world_def initial_world_def)
  have c: "\<not> ss_closed (sessions registered_world 0)" and v: "ss_service (sessions registered_world 0) = Some ByPassHandler"
    by (simp_all add: registered_world_sessions session_world_def sample_config_def)
  have "c_logging logging_config \<longrightarrow> names_readable logging_config 0 registered_world"
    by (simp add: names_readable_def peer_named_def registered_world_sessions s(2) logging_config_def sample_config_def
        sample_os_def session_world_def sample_sock_def POCO_INVALID_SOCKET_def)
  from Close_complete [OF this a c] v s(1) show ?thesis by (auto simp: disconnect_events_def)
qed

text \<open>\<open>Close\<close> runs once: when \<open>m_closed\<close> is already set it changes nothing and calls nobody.\<close>

theorem Close_idempotent:
  assumes "ss_alive (sessions w s)" and "ss_closed (sessions w s)"
  shows "Close C s w = (Inr (), w)"
  by (rule Close_closed [OF assms])

theorem Close_idempotent_witness:
  "Close sample_config 0 (session_world\<lparr>sessions := (\<lambda>s. (sessions session_world s)\<lparr>ss_closed := True\<rparr>)\<rparr>) =
   (Inr (), session_world\<lparr>sessions := (\<lambda>s. (sessions session_world s)\<lparr>ss_closed := True\<rparr>)\<rparr>)"
  by (rule Close_idempotent) (simp_all add: session_world_def)

text \<open>A log line can keep a session from ever being closed. With logging on, when one of the peers'
  addresses cannot be read (the front peer is gone, or the back connection was never made),
  \<open>Close\<close> throws after it has set \<open>m_closed\<close>: the session stays alive, its sockets stay open, its
  service is not told, and every later \<open>Close\<close> returns without doing anything.\<close>

theorem Close_stuck_by_log:
  assumes "c_logging C" and "\<not> names_readable C s w" and "ss_alive (sessions w s)" and "\<not> ss_closed (sessions w s)"
  shows "\<exists>x w'. Close C s w = (Inl x, w') \<and> ss_alive (sessions w' s) \<and> ss_closed (sessions w' s)
    \<and> socks w' = socks w \<and> svc_log w' = svc_log w \<and> (\<forall>C'. Close C' s w' = (Inr (), w'))"
  by (rule Close_stuck [OF assms])

text \<open>The back connection was refused: \<open>getpeername\<close> answers that its socket is not connected.\<close>

definition refused_config :: config where
  "refused_config = sample_config\<lparr>c_logging := True,
     c_os := sample_os\<lparr>os_peername := \<lambda>_ fd. if fd = 8 then Err ENOTCONN else Ok sample_addr\<rparr>\<rparr>"

theorem Close_stuck_by_log_witness:
  "\<exists>x w'. Close refused_config 0 session_world = (Inl x, w') \<and> ss_alive (sessions w' 0)
    \<and> Close sample_config 0 w' = (Inr (), w')"
proof -
  have "c_logging refused_config" "\<not> names_readable refused_config 0 session_world" "ss_alive (sessions session_world 0)"
    "\<not> ss_closed (sessions session_world 0)"
    by (simp_all add: refused_config_def names_readable_def peer_named_def session_world_def sample_sock_def POCO_INVALID_SOCKET_def)
  from Close_stuck_by_log [OF this] show ?thesis by blast
qed

end
