(* ===== verification/Relay.thy ===== *)
theory Relay
  imports Session_Life
begin

text \<open>
  What \<open>CPOCOProxyByPassHandler\<close> does to the data: the bytes a session receives from one side
  and hands to the system for the other side. The back socket is non-blocking (\<open>connectNB\<close>), the
  front socket blocking, so the two directions have different guarantees.
\<close>

section \<open>Traffic\<close>

definition traffic :: "'a sock_world_scheme \<Rightarrow> (sid \<Rightarrow> byte_seq) \<times> (sid \<Rightarrow> byte_seq)" where
  "traffic w = ((\<lambda>x. sent_bytes x (wire w)), (\<lambda>x. received_bytes x (wire w)))"

lemma traffic_wire: "wire w' = wire w \<Longrightarrow> traffic w' = traffic w"
  by (simp add: traffic_def)

lemma traffic_closed [simp]: "traffic (w\<lparr>wire := wire w @ [ClosedFd fd]\<rparr>) = traffic w"
  by (simp add: traffic_def)

lemma preserves_io_traffic: "preserves io_part m \<Longrightarrow> preserves traffic m"
  unfolding preserves_def by (metis io_part_parts traffic_wire)

lemma traffic_syscall [frame]: "preserves traffic (syscall g)"
  by (simp add: preserves_def syscall_def traffic_def)

lemma traffic_close [frame]: "preserves traffic (SocketImpl_close s)"
  by (auto simp: preserves_def SocketImpl_close_run closed_sock_def traffic_def)

lemma traffic_peerAddress [frame]: "preserves traffic (SocketImpl_peerAddress S s)"
  unfolding SocketImpl_peerAddress_def by (intro frame)

lemma traffic_front_address [frame]: "preserves traffic (front_address C s)"
  unfolding front_address_def by (intro frame)

lemma traffic_back_address [frame]: "preserves traffic (back_address C s)"
  unfolding back_address_def by (intro frame)

lemma traffic_log_msg [frame]: "preserves traffic t \<Longrightarrow> preserves traffic (log_msg C t)"
  unfolding log_msg_def by (intro frame preserves_modify) (simp_all add: traffic_def)

lemma traffic_upd_session [frame]: "preserves traffic (upd_session s g)"
  by (rule preserves_io_traffic) (rule upd_session_frame_io)

lemma traffic_svc_call [frame]: "preserves traffic (svc_call s e)"
  by (simp add: svc_call_def preserves_modify traffic_def)

lemma traffic_with_service [frame]:
  "(\<And>v. preserves f (g v)) \<Longrightarrow> preserves f (with_service x g)"
  by (simp add: with_service_def frame split: option.split)

lemma traffic_Close [frame]: "preserves traffic (Close C s)"
  unfolding Close_def service_events
  by (intro frame preserves_io_traffic [OF dtor_frame])

lemma traffic_session_error [frame]: "preserves traffic (session_error C s e)"
  unfolding session_error_def by (intro frame)

section \<open>One receive\<close>

definition received_more :: "sid \<Rightarrow> byte_seq \<Rightarrow> 'a sock_world_scheme \<Rightarrow> 'a sock_world_scheme \<Rightarrow> bool" where
  "received_more s bs w w' \<longleftrightarrow> (\<exists>c ws. w' = w\<lparr>clk := c, wire := ws\<rparr>)
     \<and> traffic w' = (fst (traffic w), (snd (traffic w))(s := snd (traffic w) s @ bs))"

lemma received_none [simp]: "received_more s [] w (w\<lparr>clk := c\<rparr>)"
  unfolding received_more_def
  by (rule conjI, rule exI [of _ c], rule exI [of _ "wire w"]) (simp_all add: traffic_def fun_eq_iff)

lemma received_same [simp]: "received_more s [] w w"
  using received_none [of s w "clk w"] by simp

lemma received_some [simp]:
  "received_more s bs w (w\<lparr>clk := c, wire := wire w @ [Received s bs]\<rparr>)"
  by (auto simp: received_more_def traffic_def fun_eq_iff)

lemma received_clk: "received_more s bs (w\<lparr>clk := c\<rparr>) w' \<Longrightarrow> received_more s bs w w'"
  by (auto simp: received_more_def traffic_def)

lemma recv_loop_Suc:
  "recv_loop (Suc k) S s len w =
    (if sockfd (socks w s) = POCO_INVALID_SOCKET then (Inl invalidSocket, w)
     else (let w' = w\<lparr>clk := Suc (clk w)\<rparr> in
       case os_recv S (clk w) (sockfd (socks w s)) len of
         Ok bs \<Rightarrow> (Inr (Ok bs), w'\<lparr>wire := wire w @ [Received s bs]\<rparr>)
       | Err e \<Rightarrow> if blocking (socks w s) \<and> e = EINTR then recv_loop k S s len w' else (Inr (Err e), w')))"
  by (simp add: guard_fd_run comp_simps syscall_def record_io_def Let_def split: sysres.split)

declare recv_loop.simps(2) [simp del]

lemma recv_loop_effect:
  "recv_loop k S s len w = (r, w') \<Longrightarrow>
     (case r of Inr (Ok bs) \<Rightarrow> received_more s bs w w' | _ \<Rightarrow> received_more s [] w w')"
proof (induction k arbitrary: w)
  case (Suc k)
  show ?case
  proof (cases "sockfd (socks w s) = POCO_INVALID_SOCKET")
    case True
    with Suc.prems show ?thesis by (auto simp: recv_loop_Suc)
  next
    case False
    show ?thesis
    proof (cases "os_recv S (clk w) (sockfd (socks w s)) len")
      case (Err e)
      show ?thesis
      proof (cases "blocking (socks w s) \<and> e = EINTR")
        case True
        with Suc.prems Err False have "recv_loop k S s len (w\<lparr>clk := Suc (clk w)\<rparr>) = (r, w')"
          by (simp add: recv_loop_Suc Let_def)
        from Suc.IH [OF this] show ?thesis by (auto split: sum.splits sysres.splits dest: received_clk)
      qed (use Suc.prems Err False in \<open>auto simp: recv_loop_Suc Let_def\<close>)
    qed (use Suc.prems False in \<open>auto simp: recv_loop_Suc Let_def\<close>)
  qed
qed (auto simp: throw_def)

lemma receiveBytes_effect:
  assumes "no_timeouts (socks w s)" and "SocketImpl_receiveBytes S s len w = (r, w')"
  shows "\<exists>bs. received_more s bs w w' \<and>
    (case r of Inr (n, b) \<Rightarrow> n = int (length bs) \<and> b = bs \<or> n < 0 \<and> bs = [] | Inl _ \<Rightarrow> bs = [])"
proof -
  obtain q w1 where l: "recv_loop (os_fuel S) S s len w = (q, w1)" by (cases "recv_loop (os_fuel S) S s len w")
  note eff = recv_loop_effect [OF l]
  have run: "SocketImpl_receiveBytes S s len w = (bnd (\<lambda>_. (q, w1)) (\<lambda>r. case r of
        Ok bs \<Rightarrow> ret (int (length bs), bs)
      | Err e \<Rightarrow> bnd (gets (\<lambda>w. blocking (socks w s))) (\<lambda>block.
          if e = EAGAIN \<and> \<not> block then ret (- 1, [])
          else if e = EAGAIN \<or> e = ETIMEDOUT then throw (Poco TimeoutException [] (wsa_code e))
          else andthen (SocketImpl_error e []) (ret (- 1, []))))) w"
    using assms(1) l by (simp add: SocketImpl_receiveBytes_def comp_simps)
  show ?thesis
  proof (cases q)
    case (Inl e)
    with run eff assms(2) show ?thesis by (auto simp: comp_simps)
  next
    case (Inr x)
    show ?thesis
    proof (cases x)
      case (Ok bs)
      with Inr run eff assms(2) show ?thesis by (auto simp: comp_simps)
    next
      case (Err e)
      with Inr run eff assms(2) show ?thesis
        by (auto simp: comp_simps SocketImpl_error_def split: if_splits option.splits)
    qed
  qed
qed

section \<open>The relay\<close>

text \<open>
  Between two states the session took \<open>bs\<close> from socket \<open>a\<close> and gave the system \<open>j\<close> bytes of it for
  socket \<open>b\<close>; nothing else was sent or received.
\<close>

definition relayed :: "sid \<Rightarrow> sid \<Rightarrow> byte_seq \<Rightarrow> nat \<Rightarrow> 'a sock_world_scheme \<Rightarrow> 'a sock_world_scheme \<Rightarrow> bool" where
  "relayed a b bs j w w' \<longleftrightarrow> j \<le> length bs
     \<and> (\<forall>x. received_bytes x (wire w') = received_bytes x (wire w) @ (if x = a then bs else []))
     \<and> (\<forall>x. sent_bytes x (wire w') = sent_bytes x (wire w) @ (if x = b then take j bs else []))"

lemma relayed_traffic: "relayed a b bs j w w1 \<Longrightarrow> traffic w2 = traffic w1 \<Longrightarrow> relayed a b bs j w w2"
  by (simp add: relayed_def traffic_def fun_eq_iff)

lemma relayed_received: "received_more a bs w w' \<Longrightarrow> relayed a b bs 0 w w'"
  by (auto simp: relayed_def received_more_def traffic_def fun_eq_iff)

lemma relayed_pre: "traffic w' = traffic w \<Longrightarrow> relayed a b bs j w' w1 \<Longrightarrow> relayed a b bs j w w1"
  by (simp add: relayed_def traffic_def fun_eq_iff)

lemma stream_send_received:
  assumes "send_documented S" and "no_timeouts (socks w s)"
    and "stream_send_loop k S s block p sent w = (r, w')"
  shows "received_bytes x (wire w') = received_bytes x (wire w)"
  using assms(2,3)
proof (induction k arbitrary: p sent w)
  case (Suc k)
  show ?case
  proof (cases "p = []")
    case False
    obtain q w1 where one: "SocketImpl_sendBytes S s p w = (q, w1)"
      by (cases "SocketImpl_sendBytes S s p w")
    note eff = sendBytes_effect [OF assms(1) Suc.prems(1) one]
    show ?thesis
    proof (cases q)
      case (Inr n)
      with eff have n: "0 \<le> n" "socks w1 = socks w" "wire w1 = wire w @ [Sent s (take (nat n) p)]" by auto
      show ?thesis
      proof (cases "block \<and> drop (nat n) p \<noteq> []")
        case True
        with Inr one False n Suc.prems
        have "stream_send_loop k S s block (drop (nat n) p) (sent + n) w1 = (r, w')"
          by (simp add: comp_simps Let_def)
        moreover have "no_timeouts (socks w1 s)" using Suc.prems(1) n(2) by simp
        ultimately show ?thesis using Suc.IH n(3) by simp
      qed (use Inr one False n Suc.prems in \<open>auto simp: comp_simps Let_def\<close>)
    qed (use eff one False Suc.prems in \<open>auto simp: comp_simps\<close>)
  qed (use Suc.prems in \<open>auto simp: ret_def\<close>)
qed (auto simp: throw_def)

lemma sendBytes_relayed:
  assumes "send_documented S" and "no_timeouts (socks w1 b)" and "relayed a b bs 0 w w1"
    and "StreamSocketImpl_sendBytes S b bs w1 = (r, w2)"
  shows "\<exists>j. relayed a b bs j w w2"
proof -
  have run: "stream_send_loop (os_fuel S) S b (blocking (socks w1 b)) bs 0 w1 = (r, w2)"
    using assms(4) by (simp add: StreamSocketImpl_sendBytes_def comp_simps)
  from stream_send_loop_effect [OF assms(1,2) run] obtain j where j: "j \<le> length bs"
    "sent_bytes b (wire w2) = sent_bytes b (wire w1) @ take j bs"
    "\<forall>x. x \<noteq> b \<longrightarrow> sent_bytes x (wire w2) = sent_bytes x (wire w1)"
    by blast
  with stream_send_received [OF assms(1,2) run] show ?thesis
    using assms(3) by (intro exI [of _ j]) (auto simp: relayed_def)
qed

text \<open>A readable callback: the shape both directions share.\<close>

definition relay_step ::
  "config \<Rightarrow> nat \<Rightarrow> sid \<Rightarrow> (byte_seq \<Rightarrow> svc_event) \<Rightarrow> sid \<Rightarrow> unit proxy" where
  "relay_step C s a ev b = bnd (SocketImpl_receiveBytes (c_os C) a m_buffer_len) (\<lambda>(n, buffer).
     if n \<le> 0 then Close C s
     else andthen (svc_call s (ev buffer)) (bnd (StreamSocketImpl_sendBytes (c_os C) b buffer) (\<lambda>_. skip)))"

definition connected_relay :: "nat \<Rightarrow> world \<Rightarrow> bool" where
  "connected_relay s w \<longleftrightarrow> ss_alive (sessions w s) \<and> ss_back_connected (sessions w s)
     \<and> ss_service (sessions w s) = Some ByPassHandler
     \<and> ss_front (sessions w s) \<noteq> ss_back (sessions w s)
     \<and> no_timeouts (socks w (ss_front (sessions w s))) \<and> no_timeouts (socks w (ss_back (sessions w s)))"

lemma andthen_modify: "andthen (modify f) m w = m (f w)"
  by (simp add: andthen_def bnd_def modify_def)

lemma readable_relay_step:
  assumes "connected_relay s w"
  shows "onBackReadable C s k w = catch_poco
      (relay_step C s (ss_back (sessions w s)) BackReadable (ss_front (sessions w s)))
      (session_error C s) (nf_release k w)"
    and "onFrontReadable C s k w = catch_poco
      (relay_step C s (ss_front (sessions w s)) FrontReadable (ss_back (sessions w s)))
      (session_error C s) (nf_release k w)"
proof -
  let ?x = "sessions w s"
  have x: "ss_alive ?x" "ss_back_connected ?x" "ss_service ?x = Some ByPassHandler"
    using assms by (simp_all add: connected_relay_def)
  have sess: "with_session s f (nf_release k w) = f ?x (nf_release k w)" for f :: "session \<Rightarrow> unit proxy"
    using x by (simp add: with_session_def comp_simps nf_release_def)
  have b_step: "bnd (SocketImpl_receiveBytes (c_os C) (ss_back ?x) m_buffer_len) (\<lambda>(n, buffer).
      if n \<le> 0 then Close C s else with_service ?x (\<lambda>v. OnBackReadable_virtual C s ?x v buffer))
    = relay_step C s (ss_back ?x) BackReadable (ss_front ?x)"
    unfolding relay_step_def with_service_def x(3) option.case OnBackReadable_virtual_def
      ByPass_OnBackReadable_def service.case by (rule refl)
  have f_step: "bnd (SocketImpl_receiveBytes (c_os C) (ss_front ?x) m_buffer_len) (\<lambda>(n, buffer).
      if n \<le> 0 then Close C s else with_service ?x (\<lambda>v. OnFrontReadable_virtual C s ?x v buffer))
    = relay_step C s (ss_front ?x) FrontReadable (ss_back ?x)"
    unfolding relay_step_def with_service_def x(3) option.case OnFrontReadable_virtual_def
      ByPass_OnFrontReadable_def service.case by (rule refl)
  have cc: "catch_poco m h w1 = catch_poco m' h w1" if "m w1 = m' w1" for m m' :: "unit proxy" and h and w1
    using that by (simp add: catch_poco_def)
  show "onBackReadable C s k w = catch_poco
      (relay_step C s (ss_back ?x) BackReadable (ss_front ?x)) (session_error C s) (nf_release k w)"
    unfolding onBackReadable_def andthen_modify
    by (rule cc) (simp only: sess x if_False not_True_eq_False b_step)
  show "onFrontReadable C s k w = catch_poco
      (relay_step C s (ss_front ?x) FrontReadable (ss_back ?x)) (session_error C s) (nf_release k w)"
    unfolding onFrontReadable_def andthen_modify
    by (rule cc) (simp only: sess x if_False not_True_eq_False f_step)
qed

lemma relay_step_relayed:
  assumes "send_documented (c_os C)" and "no_timeouts (socks w a)" and "no_timeouts (socks w b)"
    and "relay_step C s a ev b w = (r, w')"
  shows "\<exists>bs j. relayed a b bs j w w'"
proof -
  obtain q w1 where rcv: "SocketImpl_receiveBytes (c_os C) a m_buffer_len w = (q, w1)"
    by (cases "SocketImpl_receiveBytes (c_os C) a m_buffer_len w")
  from receiveBytes_effect [OF assms(2) rcv] obtain bs where bs: "received_more a bs w w1"
    "case q of Inr (n, b) \<Rightarrow> n = int (length bs) \<and> b = bs \<or> n < 0 \<and> bs = [] | Inl _ \<Rightarrow> bs = []" by blast
  show ?thesis
  proof (cases "\<exists>n. q = Inr (n, bs) \<and> 0 < n")
    case False
    then have "w' = w1 \<or> Close C s w1 = (r, w')"
      using assms(4) rcv bs(2) by (cases q) (auto simp: relay_step_def comp_simps split: if_splits)
    then have "traffic w' = traffic w1" using preservesD [OF traffic_Close] by auto
    with relayed_received [OF bs(1)] show ?thesis by (blast intro: relayed_traffic)
  next
    case True
    let ?w1 = "w1\<lparr>svc_log := svc_log w1 @ [(s, ev bs)]\<rparr>"
    obtain t w2 where snd: "StreamSocketImpl_sendBytes (c_os C) b bs ?w1 = (t, w2)"
      by (cases "StreamSocketImpl_sendBytes (c_os C) b bs ?w1")
    have w2: "w' = w2"
      using assms(4) rcv True snd by (cases t) (auto simp: relay_step_def comp_simps svc_call_def)
    have "socks ?w1 = socks w" using bs(1) by (auto simp: received_more_def)
    then have nt: "no_timeouts (socks ?w1 b)" using assms(3) by simp
    have "relayed a b bs 0 w ?w1" using relayed_received [OF bs(1)] by (rule relayed_traffic) (simp add: traffic_def)
    from sendBytes_relayed [OF assms(1) nt this snd] have "\<exists>j. relayed a b bs j w w2" .
    then show ?thesis unfolding w2 by blast
  qed
qed

lemma catch_traffic:
  assumes "\<And>e. preserves traffic (h e)" and "catch_poco m h w = (r, w')"
  shows "\<exists>q w1. m w = (q, w1) \<and> traffic w' = traffic w1"
proof (cases "m w" rule: result_cases)
  case (Throws c t n w1)
  with assms preservesD [OF assms(1)] show ?thesis by (auto simp: catch_poco_def)
qed (use assms(2) in \<open>auto simp: catch_poco_def\<close>)

lemma relay_catch:
  assumes "send_documented (c_os C)" and "no_timeouts (socks w a)" and "no_timeouts (socks w b)"
    and "catch_poco (relay_step C s a ev b) (session_error C s) (nf_release k w) = (r, w')"
  shows "\<exists>bs j. relayed a b bs j w w'"
proof -
  obtain q w1 where m: "relay_step C s a ev b (nf_release k w) = (q, w1)" "traffic w' = traffic w1"
    using catch_traffic [OF traffic_session_error assms(4)] by blast
  have "no_timeouts (socks (nf_release k w) a)" "no_timeouts (socks (nf_release k w) b)"
    using assms(2,3) by (simp_all add: nf_release_def)
  from relay_step_relayed [OF assms(1) this m(1)] obtain bs j where "relayed a b bs j (nf_release k w) w1" by blast
  then have "relayed a b bs j w w1" by (rule relayed_pre [rotated]) (simp add: traffic_def nf_release_def)
  from relayed_traffic [OF this m(2)] show ?thesis by blast
qed

section \<open>Properties\<close>

text \<open>C5: The relay never corrupts data. Whatever the peers and the system calls do, one readable
  notification of a connected relaying session takes some bytes from the readable side and hands
  the system, for the other side, a prefix of exactly these bytes, in order; no other socket sends
  or receives anything, also when the callback ends in the destruction of the session.\<close>

theorem relay_prefix:
  assumes "send_documented (c_os C)" and "connected_relay s w"
  shows "(\<exists>bs j. relayed (ss_back (sessions w s)) (ss_front (sessions w s)) bs j w (snd (onBackReadable C s k w)))
    \<and> (\<exists>bs j. relayed (ss_front (sessions w s)) (ss_back (sessions w s)) bs j w (snd (onFrontReadable C s k w)))"
proof -
  have nt: "no_timeouts (socks w (ss_front (sessions w s)))" "no_timeouts (socks w (ss_back (sessions w s)))"
    using assms(2) by (simp_all add: connected_relay_def)
  show ?thesis
    using relay_catch [OF assms(1) nt(2,1)] relay_catch [OF assms(1) nt]
    by (metis prod.collapse readable_relay_step [OF assms(2)])
qed

lemma session_world_relay: "connected_relay 0 session_world"
  by (simp add: connected_relay_def session_world_def initial_world_def no_timeouts_def sample_sock_def)

theorem relay_prefix_witness:
  "\<exists>bs j. relayed 1 0 bs j session_world (snd (onBackReadable sample_config 0 Readable session_world))"
proof -
  have "send_documented (c_os sample_config)" by (simp add: sample_config_def sample_send_documented)
  moreover have "ss_back (sessions session_world 0) = 1" "ss_front (sessions session_world 0) = 0"
    by (simp_all add: session_world_def)
  ultimately show ?thesis using relay_prefix [OF _ session_world_relay, of sample_config Readable] by metis
qed

text \<open>The system answers the receive on socket \<open>a\<close> with \<open>bs\<close>.\<close>

definition delivers :: "config \<Rightarrow> world \<Rightarrow> sid \<Rightarrow> byte_seq \<Rightarrow> bool" where
  "delivers C w a bs \<longleftrightarrow> sockfd (socks w a) \<noteq> POCO_INVALID_SOCKET
     \<and> os_recv (c_os C) (clk w) (sockfd (socks w a)) m_buffer_len = Ok bs \<and> bs \<noteq> []"

definition after_receive :: "nat \<Rightarrow> sid \<Rightarrow> svc_event \<Rightarrow> byte_seq \<Rightarrow> world \<Rightarrow> world" where
  "after_receive s a e bs w = w\<lparr>clk := Suc (clk w), wire := wire w @ [Received a bs],
     svc_log := svc_log w @ [(s, e)]\<rparr>"

lemma relay_step_delivered:
  assumes "delivers C w a bs" and "no_timeouts (socks w a)" and "0 < os_fuel (c_os C)"
  shows "relay_step C s a ev b w = bnd (StreamSocketImpl_sendBytes (c_os C) b bs) (\<lambda>_. skip)
    (after_receive s a (ev bs) bs w)"
proof -
  obtain f where f: "os_fuel (c_os C) = Suc f" using assms(3) by (cases "os_fuel (c_os C)") auto
  have "SocketImpl_receiveBytes (c_os C) a m_buffer_len w
    = (Inr (int (length bs), bs), w\<lparr>clk := Suc (clk w), wire := wire w @ [Received a bs]\<rparr>)"
    using assms f by (simp add: SocketImpl_receiveBytes_def comp_simps recv_loop_Suc delivers_def Let_def)
  moreover have "\<not> int (length bs) \<le> 0" using assms(1) by (simp add: delivers_def)
  ultimately show ?thesis
    by (simp add: relay_step_def bnd_def andthen_def svc_call_def modify_def after_receive_def)
qed

lemma onRelay_delivered:
  assumes "connected_relay s w" and "delivers C w a bs" and "no_timeouts (socks w a)" and "0 < os_fuel (c_os C)"
    and "StreamSocketImpl_sendBytes (c_os C) b bs (after_receive s a (ev bs) bs (nf_release k w)) = (Inr n, w')"
  shows "catch_poco (relay_step C s a ev b) (session_error C s) (nf_release k w) = (Inr (), w')"
proof -
  have "delivers C (nf_release k w) a bs" "no_timeouts (socks (nf_release k w) a)"
    using assms(2,3) by (simp_all add: delivers_def nf_release_def)
  from relay_step_delivered [OF this assms(4)] assms(5) show ?thesis
    by (simp add: catch_poco_def bnd_def skip_def ret_def)
qed

text \<open>C6: The way back is complete. When the back side delivers data and every send to the open, blocking
  front socket makes progress, the callback returns with all of it handed to the system for the
  front, and the service was told of it once.\<close>

theorem relay_back_complete:
  assumes "connected_relay s w" and "delivers C w (ss_back (sessions w s)) bs"
    and "send_documented (c_os C)" and "send_progress (c_os C)" and "length bs < os_fuel (c_os C)"
    and "sockfd (socks w (ss_front (sessions w s))) \<noteq> POCO_INVALID_SOCKET"
    and "blocking (socks w (ss_front (sessions w s)))"
  shows "\<exists>w'. onBackReadable C s k w = (Inr (), w')
    \<and> relayed (ss_back (sessions w s)) (ss_front (sessions w s)) bs (length bs) w w'
    \<and> svc_log w' = svc_log w @ [(s, BackReadable bs)]"
proof -
  let ?a = "ss_back (sessions w s)" and ?b = "ss_front (sessions w s)"
  let ?w = "after_receive s ?a (BackReadable bs) bs (nf_release k w)"
  have socks: "socks ?w = socks w" by (simp add: after_receive_def nf_release_def)
  have nt: "no_timeouts (socks ?w ?b)" "no_timeouts (socks w ?a)"
    using assms(1) by (simp_all add: connected_relay_def socks)
  from sendBytes_total [OF assms(3,4) nt(1) assms(5)] assms(6,7) obtain w' where
    w': "StreamSocketImpl_sendBytes (c_os C) ?b bs ?w = (Inr (int (length bs)), w')"
    by (auto simp: socks)
  have "0 < os_fuel (c_os C)" using assms(5) by simp
  from onRelay_delivered [where ev = BackReadable and b = ?b and k = k, OF assms(1,2) nt(2) this w']
  have run: "onBackReadable C s k w = (Inr (), w')" by (simp add: readable_relay_step [OF assms(1)])
  have "preserves svc_log (StreamSocketImpl_sendBytes (c_os C) ?b bs)"
    by (rule blind_stream_sendBytes) (simp add: sock_blind_def)
  from preservesD [OF this w'] have "svc_log w' = svc_log ?w" .
  moreover have "traffic ?w = (fst (traffic w), (snd (traffic w))(?a := snd (traffic w) ?a @ bs))"
    by (auto simp: traffic_def after_receive_def nf_release_def fun_eq_iff)
  then have rec: "relayed ?a ?b bs 0 w ?w" by (auto simp: relayed_def traffic_def fun_eq_iff)
  moreover from sendBytes_relayed [OF assms(3) nt(1) rec w'] obtain j where j: "relayed ?a ?b bs j w w'" by blast
  moreover have "sent_bytes ?b (wire w') = sent_bytes ?b (wire ?w) @ bs"
    using sendBytes_prefix [OF assms(3) nt(1) w'] assms(7) by (auto simp: socks)
  then have "take j bs = bs" using rec j by (simp add: relayed_def)
  then have "j = length bs" using j by (auto simp: relayed_def take_all_iff)
  ultimately show ?thesis using run by (auto simp: after_receive_def nf_release_def)
qed

text \<open>A system that delivers three bytes per receive and accepts at most two per send.\<close>

definition slow_config :: config where
  "slow_config = sample_config\<lparr>c_os := sample_os\<lparr>os_recv := \<lambda>_ _ _. Ok [1, 2, 3],
     os_send := \<lambda>_ _ b. Ok (min 2 (length b))\<rparr>\<rparr>"

lemma slow_config_send: "send_documented (c_os slow_config)" "send_progress (c_os slow_config)"
  by (auto simp: send_documented_def send_progress_def slow_config_def)

lemma slow_config_delivers: "delivers slow_config session_world (ss_back (sessions session_world 0)) [1, 2, 3]"
  "delivers slow_config session_world (ss_front (sessions session_world 0)) [1, 2, 3]"
  by (simp_all add: delivers_def slow_config_def session_world_def initial_world_def sample_sock_def
      POCO_INVALID_SOCKET_def)

theorem relay_back_complete_witness:
  "\<exists>w'. onBackReadable slow_config 0 Readable session_world = (Inr (), w')
     \<and> sent_bytes 0 (wire w') = [1, 2, 3]"
proof -
  have f: "length ([1, 2, 3] :: byte_seq) < os_fuel (c_os slow_config)"
    by (simp add: slow_config_def sample_os_def)
  have fd: "sockfd (socks session_world (ss_front (sessions session_world 0))) \<noteq> POCO_INVALID_SOCKET"
    and bl: "blocking (socks session_world (ss_front (sessions session_world 0)))"
    by (simp_all add: session_world_def initial_world_def sample_sock_def POCO_INVALID_SOCKET_def)
  have w: "wire session_world = []" "ss_front (sessions session_world 0) = 0"
    by (simp_all add: session_world_def initial_world_def)
  from relay_back_complete [OF session_world_relay slow_config_delivers(1) slow_config_send f fd bl, of Readable] w
  show ?thesis by (auto simp: relayed_def)
qed

text \<open>C25: The way to the back side can lose data silently. When the front delivers data and the
  non-blocking back socket accepts only a part of it, the callback returns normally, the session
  stays open and connected as before, and the rest of the data is dropped: the result of
  \<open>sendBytes\<close> is ignored.\<close>

theorem relay_front_loses:
  assumes "connected_relay s w" and "delivers C w (ss_front (sessions w s)) bs" and "0 < os_fuel (c_os C)"
    and "sockfd (socks w (ss_back (sessions w s))) \<noteq> POCO_INVALID_SOCKET"
    and "\<not> blocking (socks w (ss_back (sessions w s)))"
    and "os_send (c_os C) (Suc (clk w)) (sockfd (socks w (ss_back (sessions w s)))) bs = Ok m"
    and "m < length bs"
  shows "\<exists>w'. onFrontReadable C s k w = (Inr (), w')
    \<and> relayed (ss_front (sessions w s)) (ss_back (sessions w s)) bs m w w'
    \<and> sessions w' = sessions w \<and> socks w' = socks w \<and> observers w' = observers w"
proof -
  let ?a = "ss_front (sessions w s)" and ?b = "ss_back (sessions w s)"
  let ?w = "after_receive s ?a (FrontReadable bs) bs (nf_release k w)"
  let ?w' = "?w\<lparr>clk := Suc (clk ?w), wire := wire ?w @ [Sent ?b (take m bs)]\<rparr>"
  obtain f where f: "os_fuel (c_os C) = Suc f" using assms(3) by (cases "os_fuel (c_os C)") auto
  have nt: "no_timeouts (socks w ?a)" "no_timeouts (socks w ?b)"
    using assms(1) by (simp_all add: connected_relay_def)
  have socks: "socks ?w = socks w" "clk ?w = Suc (clk w)" by (simp_all add: after_receive_def nf_release_def)
  have "SocketImpl_sendBytes (c_os C) ?b bs ?w = (Inr (int m), ?w')"
    using assms(4,6) nt(2) f
    by (simp add: SocketImpl_sendBytes_def andthen_def bnd_def send_loop_Suc socks Let_def ret_def del: send_loop.simps)
  moreover have "bs \<noteq> []" using assms(7) by auto
  ultimately have "StreamSocketImpl_sendBytes (c_os C) ?b bs ?w = (Inr (int m), ?w')"
    using assms(5) f
    by (simp add: StreamSocketImpl_sendBytes_def bnd_def gets_def socks Let_def ret_def)
  from onRelay_delivered [where ev = FrontReadable and b = ?b and k = k, OF assms(1,2) nt(1) assms(3) this]
  have "onFrontReadable C s k w = (Inr (), ?w')" by (simp add: readable_relay_step [OF assms(1)])
  moreover have "relayed ?a ?b bs m w ?w'"
    using assms(7) by (auto simp: relayed_def after_receive_def nf_release_def)
  ultimately show ?thesis by (auto simp: after_receive_def nf_release_def)
qed

theorem relay_front_loses_witness:
  "\<exists>w'. onFrontReadable slow_config 0 Readable session_world = (Inr (), w')
     \<and> received_bytes 0 (wire w') = [1, 2, 3] \<and> sent_bytes 1 (wire w') = [1, 2]
     \<and> \<not> ss_closed (sessions w' 0)"
  using relay_front_loses [OF session_world_relay slow_config_delivers(2), of 2 Readable]
  by (auto simp: relayed_def slow_config_def session_world_def initial_world_def sample_sock_def
      sample_os_def POCO_INVALID_SOCKET_def)

end
