(* ===== verification/Session_End.thy ===== *)
theory Session_End
  imports Relay
begin

text \<open>
  How sessions end: every notification that tells of the end of one of the two connections runs
  \<open>Close\<close> in the session's callback, through the log lines that name the peers.
\<close>

section \<open>Endings\<close>

text \<open>A peer that has sent everything: \<open>recv\<close> answers 0 bytes.\<close>

definition end_of_stream :: "config \<Rightarrow> world \<Rightarrow> sid \<Rightarrow> bool" where
  "end_of_stream C w a \<longleftrightarrow> sockfd (socks w a) \<noteq> POCO_INVALID_SOCKET \<and> no_timeouts (socks w a)
     \<and> 0 < os_fuel (c_os C) \<and> os_recv (c_os C) (clk w) (sockfd (socks w a)) m_buffer_len = Ok []"

text \<open>The callbacks that end session \<open>s\<close> in state \<open>w\<close>.\<close>

fun ends_session :: "config \<Rightarrow> nat \<Rightarrow> world \<Rightarrow> callback \<Rightarrow> bool" where
  "ends_session C s w OnFrontReadable =
     (ss_back_connected (sessions w s) \<and> end_of_stream C w (ss_front (sessions w s)))"
| "ends_session C s w OnBackReadable =
     (ss_back_connected (sessions w s) \<and> end_of_stream C w (ss_back (sessions w s)))"
| "ends_session C s w OnFrontShutdown = True"
| "ends_session C s w OnFrontError = True"
| "ends_session C s w OnBackShutdown = True"
| "ends_session C s w OnBackError = True"
| "ends_session C s w _ = False"

definition names_always :: "config \<Rightarrow> nat \<Rightarrow> world \<Rightarrow> bool" where
  "names_always C s w \<longleftrightarrow> (\<forall>n. peer_named (c_os C) n (sockfd (socks w (ss_front (sessions w s))))
     \<and> peer_named (c_os C) n (sockfd (socks w (ss_back (sessions w s)))))"

definition session_destroyed :: "nat \<Rightarrow> world \<Rightarrow> world \<Rightarrow> bool" where
  "session_destroyed s w w' \<longleftrightarrow>
     sockfd (socks w' (ss_front (sessions w s))) = POCO_INVALID_SOCKET
     \<and> sockfd (socks w' (ss_back (sessions w s))) = POCO_INVALID_SOCKET
     \<and> svc_log w' = svc_log w @ disconnect_events s (ss_service (sessions w s))
     \<and> \<not> ss_alive (sessions w' s)
     \<and> (\<forall>j < nobs w'. ob_obj (observers w' j) \<noteq> Some (SessionObj s))
     \<and> lifetime_ok w'"

text \<open>What the callbacks do before \<open>Close\<close> leaves the objects as they are.\<close>

definition same_parts :: "world \<Rightarrow> world \<Rightarrow> bool" where
  "same_parts w v \<longleftrightarrow> same_registry w v \<and> sessions v = sessions w \<and> nsess v = nsess w \<and> acc_alive v = acc_alive w
     \<and> acc_socket v = acc_socket w \<and> socks v = socks w \<and> svc_log v = svc_log w"

lemma Close_after:
  assumes "same_parts w v" and "c_logging C \<longrightarrow> names_always C s w" and "lifetime_ok w" and "s < nsess w"
    and "ss_alive (sessions w s)" and "\<not> ss_closed (sessions w s)"
  shows "\<exists>w'. Close C s v = (Inr (), w') \<and> session_destroyed s w w'"
proof -
  have "lifetime_ok v" using assms(1) by (intro lifetime_more [OF assms(3)]) (simp_all add: same_parts_def)
  moreover have "c_logging C \<longrightarrow> names_readable C s v"
    using assms(1,2) by (simp add: same_parts_def names_always_def names_readable_def)
  ultimately obtain w' where w': "Close C s v = (Inr (), w')
    \<and> sockfd (socks w' (ss_front (sessions v s))) = POCO_INVALID_SOCKET
    \<and> sockfd (socks w' (ss_back (sessions v s))) = POCO_INVALID_SOCKET
    \<and> svc_log w' = svc_log v @ disconnect_events s (ss_service (sessions v s))
    \<and> \<not> ss_alive (sessions w' s)
    \<and> (\<forall>j < nobs w'. ob_obj (observers w' j) \<noteq> Some (SessionObj s))
    \<and> lifetime_ok w'"
    using Close_completes [of C s v] assms(1,4-6) by (auto simp: same_parts_def)
  then show ?thesis
    using assms(1) by (intro exI [of _ w']) (simp add: session_destroyed_def same_parts_def)
qed

lemma same_parts_release: "same_parts w (nf_release k w)"
  by (simp add: same_parts_def same_registry_def nf_release_def)

section \<open>The callbacks\<close>

lemma receive_nothing:
  assumes "end_of_stream C w a"
  shows "SocketImpl_receiveBytes (c_os C) a m_buffer_len (nf_release k w) =
    (Inr (0, []), (nf_release k w)\<lparr>clk := Suc (clk w), wire := wire w @ [Received a []]\<rparr>)"
proof -
  obtain f where "os_fuel (c_os C) = Suc f" using assms by (cases "os_fuel (c_os C)") (auto simp: end_of_stream_def)
  with assms show ?thesis
    by (simp add: SocketImpl_receiveBytes_def comp_simps recv_loop_Suc end_of_stream_def Let_def nf_release_def no_timeouts_def
        SocketImpl_checkBrokenTimeout_def)
qed

lemma read_end:
  assumes "end_of_stream C w a" and "ss_alive (sessions w s)" and "ss_back_connected (sessions w s)"
    and "Close C s ((nf_release k w)\<lparr>clk := Suc (clk w), wire := wire w @ [Received a []]\<rparr>) = (Inr (), w')"
    and "a = sock (sessions w s)"
  shows "andthen (modify (nf_release k))
     (catch_poco
       (with_session s (\<lambda>x.
          if \<not> ss_back_connected x then skip
          else bnd (SocketImpl_receiveBytes (c_os C) (sock x) m_buffer_len) (\<lambda>(n, buffer).
            if n \<le> 0 then Close C s else with_service x (\<lambda>v. f x v buffer))))
       (session_error C s)) w = (Inr (), w')"
proof -
  have "with_session s (\<lambda>x.
          if \<not> ss_back_connected x then skip
          else bnd (SocketImpl_receiveBytes (c_os C) (sock x) m_buffer_len) (\<lambda>(n, buffer).
            if n \<le> 0 then Close C s else with_service x (\<lambda>v. f x v buffer))) (nf_release k w) = (Inr (), w')"
    using assms receive_nothing [OF assms(1), of k]
    by (simp add: with_session_def bnd_def gets_def) (simp add: nf_release_def)
  then show ?thesis by (simp add: andthen_def modify_def catch_poco_def bnd_def [of "\<lambda>w. (Inr (), nf_release k w)"])
qed

lemma log_then_close:
  assumes "c_logging C \<longrightarrow> names_always C s w" and "ss_alive (sessions w s)"
  shows "\<exists>v. same_parts w v \<and>
    andthen (modify (nf_release k))
     (andthen (log_msg C (bnd (front_address C s) (\<lambda>f. ret (t @ f @ '']''))))
       (Close C s)) w = Close C s v"
proof (cases "c_logging C")
  case False
  then show ?thesis
    by (intro exI [of _ "nf_release k w"] conjI same_parts_release)
      (simp add: andthen_def bnd_def modify_def log_msg_def when_do_def skip_def ret_def)
next
  case True
  let ?v = "nf_release k w"
  have "peer_named (c_os C) (clk ?v) (sockfd (socks ?v (ss_front (sessions w s))))"
    using assms(1) True by (simp add: names_always_def nf_release_def)
  from peerAddress_named [OF this] obtain a where
    a: "SocketImpl_peerAddress (c_os C) (ss_front (sessions w s)) ?v = (Inr a, ?v\<lparr>clk := Suc (clk ?v)\<rparr>)" by blast
  let ?u = "?v\<lparr>clk := Suc (clk ?v), log_text := log_text ?v @ [t @ addr_toString a @ '']'']\<rparr>"
  have "same_parts w ?u" by (simp add: same_parts_def same_registry_def nf_release_def)
  moreover have "sessions ?v = sessions w" by (simp add: nf_release_def)
  ultimately show ?thesis
    using True a assms(2)
    by (intro exI [of _ ?u]) (simp add: log_msg_def when_do_def front_address_def with_session_def comp_simps)
qed

section \<open>Properties\<close>

text \<open>C8: A connection that ends takes its session with it. For a live session that is not closed yet: on a
  shutdown or error notification of either side, and on a readable notification of either side when
  the back side is connected, the socket is open without timeouts and \<open>recv\<close> gives the end of the
  stream, the callback returns, and both sockets are closed, the service has been told once of each
  disconnection and deleted, the session is destroyed, no observer refers to it and all lifetimes
  are in order. With logging on this holds if the addresses of both peers can be read at any time.\<close>

theorem peer_end_destroys:
  assumes "ends_session C s w m" and "c_logging C \<longrightarrow> names_always C s w" and "lifetime_ok w" and "s < nsess w"
    and "ss_alive (sessions w s)" and "\<not> ss_closed (sessions w s)"
  shows "\<exists>w'. session_callback C s m k w = (Inr (), w') \<and> session_destroyed s w w'"
proof -
  note alive = assms(5)
  have close: "\<exists>w'. Close C s v = (Inr (), w') \<and> session_destroyed s w w'" if "same_parts w v" for v
    by (rule Close_after [OF that assms(2-6)])
  have logged: "\<exists>w'. andthen (modify (nf_release k))
      (andthen (log_msg C (bnd (front_address C s) (\<lambda>f. ret (t @ f @ '']'')))) (Close C s)) w = (Inr (), w')
      \<and> session_destroyed s w w'" for t
    using log_then_close [OF assms(2) alive, of k t] close by metis
  have read: "\<exists>w'. andthen (modify (nf_release k))
     (catch_poco
       (with_session s (\<lambda>x.
          if \<not> ss_back_connected x then skip
          else bnd (SocketImpl_receiveBytes (c_os C) (sock x) m_buffer_len) (\<lambda>(n, buffer).
            if n \<le> 0 then Close C s else with_service x (\<lambda>v. f x v buffer))))
       (session_error C s)) w = (Inr (), w') \<and> session_destroyed s w w'"
    if "end_of_stream C w (sock (sessions w s))" "ss_back_connected (sessions w s)" for sock f
  proof -
    have "same_parts w ((nf_release k w)\<lparr>clk := Suc (clk w), wire := wire w @ [Received (sock (sessions w s)) []]\<rparr>)"
      by (simp add: same_parts_def same_registry_def nf_release_def)
    from close [OF this] obtain w' where
      "Close C s ((nf_release k w)\<lparr>clk := Suc (clk w), wire := wire w @ [Received (sock (sessions w s)) []]\<rparr>) = (Inr (), w')"
      "session_destroyed s w w'" by blast
    with read_end [where sock = sock and f = f, OF that(1) alive that(2) _ refl] show ?thesis by blast
  qed
  have run: "session_callback C s m k w = (case m of
      OnFrontReadable \<Rightarrow> onFrontReadable C s k | OnFrontShutdown \<Rightarrow> onFrontShutdown C s k
    | OnFrontError \<Rightarrow> onFrontError C s k | OnBackReadable \<Rightarrow> onBackReadable C s k
    | OnBackShutdown \<Rightarrow> onBackShutdown C s k | OnBackError \<Rightarrow> onBackError C s k | _ \<Rightarrow> skip) w"
    using assms(1) alive by (cases m) (simp_all add: session_callback_def with_session_def bnd_def gets_def)
  from assms(1) show ?thesis
    unfolding run
    using logged [of "''onShutdown from[''"] logged [of "''onError from[''"]
      read [of ss_front "OnFrontReadable_virtual C s"] read [of ss_back "OnBackReadable_virtual C s"]
    by (cases m) (simp_all add: onFrontShutdown_def onFrontError_def onBackShutdown_def onBackError_def
        onFrontReadable_def onBackReadable_def)
qed

theorem peer_end_destroys_witness:
  "\<exists>w'. session_callback logging_config 0 OnBackError Error registered_world = (Inr (), w')
    \<and> session_destroyed 0 registered_world w'"
proof -
  have a: "lifetime_ok registered_world" "0 < nsess registered_world" "ss_alive (sessions registered_world 0)"
    using registered_world_alive by (simp_all add: alive_at_def)
  have s: "socks registered_world = socks session_world"
    using registered_world_io by (simp_all add: io_part_def)
  have c: "\<not> ss_closed (sessions registered_world 0)"
    by (simp add: registered_world_sessions session_world_def)
  have n: "c_logging logging_config \<longrightarrow> names_always logging_config 0 registered_world"
    by (simp add: names_always_def peer_named_def registered_world_sessions s logging_config_def sample_config_def
        sample_os_def session_world_def sample_sock_def POCO_INVALID_SOCKET_def)
  have e: "ends_session logging_config 0 registered_world OnBackError" by simp
  show ?thesis by (rule peer_end_destroys [OF e n a c])
qed

end
