(* ===== verification/Session_Start.thy ===== *)
theory Session_Start
  imports Session_End
begin

text \<open>
  How sessions begin: \<open>onAccept\<close> makes the session of a new connection, opens its back socket and
  starts the connection to the back server, and registers the handlers. When that connection is
  refused at once, \<open>SetService\<close> throws before it registers anything.
\<close>

section \<open>Registration\<close>

definition registered :: "nat \<Rightarrow> (nkind \<times> callback) set \<Rightarrow> world \<Rightarrow> bool" where
  "registered s A w \<longleftrightarrow> (\<forall>(k, m) \<in> A. \<exists>j. enabled w j \<and> observers w j = session_observer s k m)"

definition keeps_observers :: "world \<Rightarrow> world \<Rightarrow> bool" where
  "keeps_observers w w' \<longleftrightarrow> (\<forall>j. enabled w j \<longrightarrow> enabled w' j \<and> observers w' j = observers w j)"

definition registering :: "world \<Rightarrow> nat \<Rightarrow> sid \<Rightarrow> sid \<Rightarrow> (nkind \<times> callback) set \<Rightarrow> world \<Rightarrow> bool" where
  "registering w0 s f b A w \<longleftrightarrow> alive_at s f b 0 0 w \<and> same_objects w0 w \<and> keeps_observers w0 w \<and> registered s A w"

lemma returns_add_registered:
  assumes "(if (k, m) \<in> front_slots then Some f else if (k, m) \<in> back_slots then Some b else None) = Some x"
  shows "returns (registering w0 s f b A) (addEventHandler x (session_observer s k m))
    (\<lambda>_. registering w0 s f b (insert (k, m) A))"
proof (rule returnsI)
  fix w assume "registering w0 s f b A w"
  then have w: "alive_at s f b 0 0 w" "same_objects w0 w" "keeps_observers w0 w" "registered s A w"
    by (simp_all add: registering_def)
  have "place w (session_observer s k m) = Some x" using place_session [OF w(1)] assms by simp
  with w(1) obtain w' where w': "addEventHandler x (session_observer s k m) w = (Inr (), w')"
    "lifetime_ok w'" "same_objects w w'" "adds_observer (session_observer s k m) w w'"
    using addEventHandler_lifetime unfolding alive_at_def by blast
  have "keeps_observers w0 w'" using w(3) w'(4) by (simp add: keeps_observers_def adds_observer_def)
  moreover have "registered s (insert (k, m) A) w'"
    using w(4) w'(4) unfolding registered_def adds_observer_def by (auto split: prod.splits) metis
  moreover have "same_objects w0 w'" using w(2) w'(3) by (auto simp: same_objects_def)
  ultimately show "\<exists>a w'. addEventHandler x (session_observer s k m) w = (Inr a, w')
      \<and> registering w0 s f b (insert (k, m) A) w'"
    using w' alive_at_same [OF w(1) w'(3,2)] by (simp add: registering_def)
qed

lemma RegisterHandler_registers:
  assumes "alive_at s f b 0 0 w"
  shows "\<exists>w'. RegisterHandler s w = (Inr (), w') \<and> registering w s f b (front_slots \<union> back_slots) w'"
proof -
  have set: "front_slots \<union> back_slots = {(Error, OnBackError), (Shutdown, OnBackShutdown), (Readable, OnBackReadable),
      (Writable, OnBackWritable), (Error, OnFrontError), (Shutdown, OnFrontShutdown), (Readable, OnFrontReadable)}"
    by (auto simp: slots)
  have "returns (registering w s f b {})
     (andthen (addEventHandler f (session_observer s Readable OnFrontReadable))
     (andthen (addEventHandler f (session_observer s Shutdown OnFrontShutdown))
     (andthen (addEventHandler f (session_observer s Error OnFrontError))
     (andthen (addEventHandler b (session_observer s Writable OnBackWritable))
     (andthen (addEventHandler b (session_observer s Readable OnBackReadable))
     (andthen (addEventHandler b (session_observer s Shutdown OnBackShutdown))
              (addEventHandler b (session_observer s Error OnBackError))))))))
     (\<lambda>_. registering w s f b (front_slots \<union> back_slots))"
    unfolding set by ((rule returns_andthen)?, rule returns_add_registered, simp add: slots)+
  moreover have "registering w s f b {} w" using assms
    by (simp add: registering_def same_objects_def keeps_observers_def registered_def)
  ultimately show ?thesis using assms
    by (auto simp: returns_def RegisterHandler_def with_session_def bnd_def gets_def alive_at_def)
qed

section \<open>Accepting\<close>

text \<open>The listening socket has a connection, and with logging its peer's address can be read.\<close>

definition connection_waits :: "config \<Rightarrow> world \<Rightarrow> poco_socket_t \<Rightarrow> bool" where
  "connection_waits C w fd \<longleftrightarrow> acc_alive w \<and> sockfd (socks w (acc_socket w)) \<noteq> POCO_INVALID_SOCKET
     \<and> 0 < os_fuel (c_os C) \<and> fd \<noteq> POCO_INVALID_SOCKET
     \<and> os_accept (c_os C) (clk w) (sockfd (socks w (acc_socket w))) = Ok fd
     \<and> (c_logging C \<longrightarrow> peer_named (c_os C) (Suc (clk w)) fd)"

definition connect_clk :: "config \<Rightarrow> world \<Rightarrow> nat" where
  "connect_clk C w = clk w + (if c_logging C then 2 else 1)"

text \<open>The system gives a non-blocking socket for the back connection.\<close>

definition back_socket_opens :: "config \<Rightarrow> world \<Rightarrow> poco_socket_t \<Rightarrow> bool" where
  "back_socket_opens C w fd \<longleftrightarrow> os_socket (c_os C) (connect_clk C w) = Ok fd
     \<and> os_ioctl (c_os C) (connect_clk C w + 1) fd = Ok ()"

definition back_connects :: "config \<Rightarrow> world \<Rightarrow> poco_socket_t \<Rightarrow> unit sysres" where
  "back_connects C w fd = os_connect (c_os C) (connect_clk C w + 2) fd (acc_back_addr w)"

definition new_session :: "sid \<Rightarrow> sid \<Rightarrow> service option \<Rightarrow> session" where
  "new_session f b v = \<lparr>ss_front = f, ss_back = b, ss_service = v, ss_front_buffer = True, ss_back_buffer = True,
     ss_back_connected = False, ss_closed = False, ss_alive = True\<rparr>"

definition connect_events :: "nat \<Rightarrow> service option \<Rightarrow> (nat \<times> svc_event) list" where
  "connect_events s v = (if v = None then [] else [(s, FrontConnect)])"

text \<open>The session of a new connection: its record, its sockets, and nothing of the others touched.\<close>

definition session_made :: "config \<Rightarrow> poco_socket_t \<Rightarrow> poco_socket_t \<Rightarrow> world \<Rightarrow> world \<Rightarrow> bool" where
  "session_made C fd bfd w w' \<longleftrightarrow> nsess w' = Suc (nsess w)
     \<and> sessions w' = (sessions w)(nsess w :=
         new_session (nsock w) (Suc (nsock w)) (c_creator C (nsock w) (Suc (nsock w))))
     \<and> socks w' = (socks w)(nsock w := new_socket_impl (c_os C) fd,
         Suc (nsock w) := (new_socket_impl (c_os C) bfd)\<lparr>blocking := False\<rparr>)
     \<and> keeps_observers w w' \<and> lifetime_ok w'"

text \<open>The state before the back socket is opened.\<close>

definition made_world :: "config \<Rightarrow> poco_socket_t \<Rightarrow> nkind \<Rightarrow> world \<Rightarrow> world" where
  "made_world C fd k w = (nf_release k w)\<lparr>nsock := Suc (Suc (nsock w)),
     socks := (socks w)(nsock w := new_socket_impl (c_os C) fd,
       Suc (nsock w) := new_socket_impl (c_os C) POCO_INVALID_SOCKET),
     nsess := Suc (nsess w), sessions := (sessions w)(nsess w :=
         new_session (nsock w) (Suc (nsock w)) (c_creator C (nsock w) (Suc (nsock w))))\<rparr>"

lemma accept_run:
  assumes "connection_waits C w fd"
  shows "SocketImpl_acceptConnection (c_os C) (acc_socket w) (nf_release k w) = (Inr (nsock w),
    (nf_release k w)\<lparr>clk := Suc (clk w), nsock := Suc (nsock w),
      socks := (socks w)(nsock w := new_socket_impl (c_os C) fd)\<rparr>)"
proof -
  obtain f where "os_fuel (c_os C) = Suc f" using assms by (cases "os_fuel (c_os C)") (auto simp: connection_waits_def)
  with assms show ?thesis
    by (simp add: connection_waits_def SocketImpl_acceptConnection_def guard_fd_run alloc_socket_def syscall_def
        comp_simps nf_release_def)
qed

lemma peer_log:
  assumes "c_logging C \<longrightarrow> peer_named (c_os C) (clk w) (sockfd (socks w f))"
  shows "\<exists>t. log_msg C (bnd (SocketImpl_peerAddress (c_os C) f) (\<lambda>a. ret (p @ addr_toString a @ q))) w =
    (Inr (), w\<lparr>clk := clk w + (if c_logging C then 1 else 0), log_text := t\<rparr>)"
proof (cases "c_logging C")
  case True
  with assms obtain a where "SocketImpl_peerAddress (c_os C) f w = (Inr a, w\<lparr>clk := Suc (clk w)\<rparr>)"
    using peerAddress_named by blast
  with True show ?thesis by (auto simp: log_msg_def comp_simps)
next
  case False
  then show ?thesis by (intro exI [of _ "log_text w"]) (simp add: log_msg_def comp_simps)
qed

lemma bnd_run: "m w = (Inr x, w') \<Longrightarrow> bnd m f w = f x w'"
  by (simp add: bnd_def)

lemma bnd_gets: "bnd (gets g) f w = f (g w) w"
  by (simp add: bnd_def gets_def)

lemma andthen_run: "m w = (Inr x, w') \<Longrightarrow> andthen m k w = k w'"
  by (simp add: andthen_def bnd_def)

lemma ctor_run:
  assumes "c_logging C \<longrightarrow> peer_named (c_os C) (clk w) (sockfd (socks w f))" and "f \<noteq> nsock w"
  shows "\<exists>t. ProxySession_ctor C f w = (Inr (nsess w), w\<lparr>clk := clk w + (if c_logging C then 1 else 0),
      nsock := Suc (nsock w), socks := (socks w)(nsock w := new_socket_impl (c_os C) POCO_INVALID_SOCKET),
      nsess := Suc (nsess w), sessions := (sessions w)(nsess w := new_session f (nsock w) None), log_text := t\<rparr>)"
proof -
  let ?w = "w\<lparr>nsock := Suc (nsock w), socks := (socks w)(nsock w := new_socket_impl (c_os C) POCO_INVALID_SOCKET)\<rparr>"
  have alloc: "alloc_socket (c_os C) POCO_INVALID_SOCKET w = (Inr (nsock w), ?w)"
    by (simp add: alloc_socket_def comp_simps)
  have "c_logging C \<longrightarrow> peer_named (c_os C) (clk ?w) (sockfd (socks ?w f))" using assms by simp
  from peer_log [OF this] obtain t where t: "log_msg C (bnd (SocketImpl_peerAddress (c_os C) f) (\<lambda>a.
      ret (''Front Connection from['' @ addr_toString a @ '']''))) ?w =
    (Inr (), ?w\<lparr>clk := clk ?w + (if c_logging C then 1 else 0), log_text := t\<rparr>)" by blast
  have "ProxySession_ctor C f w = bnd (gets nsess) (\<lambda>s.
      andthen (modify (\<lambda>w. w\<lparr>nsess := Suc s, sessions := (sessions w)(s := new_session f (nsock w0) None)\<rparr>)) (ret s))
      (?w\<lparr>clk := clk ?w + (if c_logging C then 1 else 0), log_text := t\<rparr>)" if "w0 = w" for w0
    unfolding ProxySession_ctor_def that new_session_def
    by (subst bnd_run, rule alloc, rule andthen_run, rule t)
  from this [OF refl] show ?thesis
    by (intro exI [of _ t]) (simp add: bnd_def gets_def andthen_def modify_def ret_def)
qed

lemma log_ret: "\<exists>t. log_msg C (ret x) w = (Inr (), w\<lparr>log_text := t\<rparr>)"
proof (cases "c_logging C")
  case False
  then show ?thesis by (intro exI [of _ "log_text w"]) (simp add: log_msg_def comp_simps)
qed (auto simp: log_msg_def comp_simps)

lemma SetService_run:
  assumes "sessions w s = new_session f b v0"
  shows "\<exists>t. SetService C s v a w = andthen (SocketImpl_connectNB (c_os C) b a)
      (andthen (RegisterHandler s) (if v = None then skip else OnFrontConnect s))
      (w\<lparr>sessions := (sessions w)(s := new_session f b v), log_text := t\<rparr>)"
proof -
  let ?w = "w\<lparr>sessions := (sessions w)(s := new_session f b v)\<rparr>"
  obtain t where t: "log_msg C (ret (''POCO Try back connection Sesseion ['' @ addr_toString a @ ''] '')) ?w =
      (Inr (), ?w\<lparr>log_text := t\<rparr>)" using log_ret by blast
  have "SetService C s v a w = with_session s (\<lambda>x.
      andthen (SocketImpl_connectNB (c_os C) (ss_back x) a)
      (andthen (RegisterHandler s) (with_service x (\<lambda>_. OnFrontConnect s)))) (?w\<lparr>log_text := t\<rparr>)"
    unfolding SetService_def
    by (subst andthen_run [where w' = ?w], use assms in \<open>simp add: upd_session_def modify_def new_session_def\<close>)
      (rule andthen_run, rule t)
  then show ?thesis
    by (intro exI [of _ t]) (cases v; simp add: with_session_def bnd_gets new_session_def with_service_def)
qed

lemma accept_to_connect:
  assumes "connection_waits C w fd"
  shows "\<exists>t. onAccept C k w = andthen (SocketImpl_connectNB (c_os C) (Suc (nsock w)) (acc_back_addr w))
      (andthen (RegisterHandler (nsess w))
        (if c_creator C (nsock w) (Suc (nsock w)) = None then skip else OnFrontConnect (nsess w)))
      ((made_world C fd k w)\<lparr>clk := connect_clk C w, log_text := t\<rparr>)"
proof -
  let ?S = "c_os C" and ?f = "nsock w" and ?b = "Suc (nsock w)"
  let ?w1 = "(nf_release k w)\<lparr>clk := Suc (clk w), nsock := Suc (nsock w),
      socks := (socks w)(nsock w := new_socket_impl (c_os C) fd)\<rparr>"
  have named: "c_logging C \<longrightarrow> peer_named ?S (clk ?w1) (sockfd (socks ?w1 ?f))"
    using assms by (simp add: connection_waits_def new_socket_impl_def)
  obtain t w2 where c: "ProxySession_ctor C ?f ?w1 = (Inr (nsess w), w2)"
    and w2: "w2 = ?w1\<lparr>clk := clk ?w1 + (if c_logging C then 1 else 0),
      nsock := Suc (nsock ?w1), socks := (socks ?w1)(nsock ?w1 := new_socket_impl ?S POCO_INVALID_SOCKET),
      nsess := Suc (nsess w), sessions := (sessions w)(nsess w := new_session ?f (nsock ?w1) None), log_text := t\<rparr>"
    using ctor_run [OF named] by (auto simp: nf_release_def)
  have s2: "sessions w2 (nsess w) = new_session ?f ?b None" by (simp add: w2)
  let ?v = "c_creator C ?f ?b"
  obtain t' where "SetService C (nsess w) ?v (acc_back_addr w) w2 = andthen (SocketImpl_connectNB ?S ?b (acc_back_addr w))
      (andthen (RegisterHandler (nsess w)) (if ?v = None then skip else OnFrontConnect (nsess w)))
      (w2\<lparr>sessions := (sessions w2)(nsess w := new_session ?f ?b ?v), log_text := t'\<rparr>)"
    using SetService_run [of w2 "nsess w", OF s2] by blast
  moreover have "w2\<lparr>sessions := (sessions w2)(nsess w := new_session ?f ?b ?v), log_text := t'\<rparr> =
      (made_world C fd k w)\<lparr>clk := connect_clk C w, log_text := t'\<rparr>"
    by (simp add: w2 made_world_def connect_clk_def nf_release_def)
  moreover have "onAccept C k w = SetService C (nsess w) ?v (acc_back_addr w) w2"
  proof -
    have cc: "catch_poco (ProxySession_ctor C ?f) h ?w1 = (Inr (nsess w), w2)" for h
      unfolding catch_poco_def c by simp
    have g: "(\<lambda>w. (c_creator C (ss_front (sessions w (nsess w'))) (ss_back (sessions w (nsess w'))), acc_back_addr w)) w2
        = (?v, acc_back_addr w)" if "w' = w" for w'
      unfolding that s2 by (simp add: new_session_def) (simp add: w2 nf_release_def)
    have "createServiceHandler C ?f ?w1 = SetService C (nsess w) ?v (acc_back_addr w) w2"
      unfolding createServiceHandler_def
      by (subst bnd_run, rule cc) (simp add: bnd_gets g [OF refl, simplified])
    then show ?thesis
      using assms accept_run [OF assms, of k]
      by (simp add: onAccept_def andthen_def bnd_def modify_def gets_def connection_waits_def) (simp add: nf_release_def)
  qed
  ultimately show ?thesis by auto
qed

section \<open>The back connection\<close>

text \<open>\<open>connect\<close> on a non-blocking socket has begun; \<open>error()\<close> throws for every other code.\<close>

fun connect_started :: "unit sysres \<Rightarrow> bool" where
  "connect_started (Ok _) = True"
| "connect_started (Err e) = (e = EINPROGRESS \<or> e = EWOULDBLOCK \<or> e = ENOERR)"

definition opened_world :: "config \<Rightarrow> poco_socket_t \<Rightarrow> poco_socket_t \<Rightarrow> nkind \<Rightarrow> world \<Rightarrow> string list \<Rightarrow> world" where
  "opened_world C fd bfd k w t = (made_world C fd k w)\<lparr>clk := connect_clk C w + 3,
     socks := (socks w)(nsock w := new_socket_impl (c_os C) fd,
         Suc (nsock w) := (new_socket_impl (c_os C) bfd)\<lparr>blocking := False\<rparr>), log_text := t\<rparr>"

lemma connectNB_run:
  assumes "back_socket_opens C w bfd"
  shows "SocketImpl_connectNB (c_os C) (Suc (nsock w)) (acc_back_addr w)
      ((made_world C fd k w)\<lparr>clk := connect_clk C w, log_text := t\<rparr>) =
    (case back_connects C w bfd of
        Ok _ \<Rightarrow> skip
      | Err e \<Rightarrow> when_do (e \<noteq> EINPROGRESS \<and> e \<noteq> EWOULDBLOCK) (SocketImpl_error e (addr_toString (acc_back_addr w))))
      (opened_world C fd bfd k w t)"
  using assms
  by (simp add: SocketImpl_connectNB_def ensure_init_def SocketImpl_initSocket_def SocketImpl_setBlocking_def
      SocketImpl_ioctl_def upd_sock_def syscall_def check_def comp_simps back_socket_opens_def back_connects_def
      opened_world_def made_world_def new_socket_impl_def numeral_3_eq_3 SocketImpl_error_def
      split: sysres.split option.split)

lemma connectNB_started:
  assumes "back_socket_opens C w bfd" and "connect_started (back_connects C w bfd)"
  shows "SocketImpl_connectNB (c_os C) (Suc (nsock w)) (acc_back_addr w)
      ((made_world C fd k w)\<lparr>clk := connect_clk C w, log_text := t\<rparr>) = (Inr (), opened_world C fd bfd k w t)"
  using assms by (cases "back_connects C w bfd") (auto simp: connectNB_run comp_simps SocketImpl_error_def error_exn_def)

lemma connectNB_refused:
  assumes "back_socket_opens C w bfd" and "\<not> connect_started (back_connects C w bfd)"
  shows "\<exists>c t' n. SocketImpl_connectNB (c_os C) (Suc (nsock w)) (acc_back_addr w)
      ((made_world C fd k w)\<lparr>clk := connect_clk C w, log_text := t\<rparr>) = (Inl (Poco c t' n), opened_world C fd bfd k w t)"
proof -
  obtain e where e: "back_connects C w bfd = Err e" "e \<noteq> EINPROGRESS" "e \<noteq> EWOULDBLOCK" "e \<noteq> ENOERR"
    using assms(2) by (cases "back_connects C w bfd") auto
  from error_exn_code [OF e(4)] obtain c t' where
    "error_exn e (addr_toString (acc_back_addr w)) = Some (Poco c t' (wsa_code e))" by blast
  with e show ?thesis by (simp add: connectNB_run [OF assms(1)] comp_simps SocketImpl_error_def)
qed

lemma opened_world_sel:
  "same_registry w (opened_world C fd bfd k w t)" "nsess (opened_world C fd bfd k w t) = Suc (nsess w)"
  "sessions (opened_world C fd bfd k w t) = (sessions w)(nsess w :=
     new_session (nsock w) (Suc (nsock w)) (c_creator C (nsock w) (Suc (nsock w))))"
  "acc_alive (opened_world C fd bfd k w t) = acc_alive w" "acc_socket (opened_world C fd bfd k w t) = acc_socket w"
  "svc_log (opened_world C fd bfd k w t) = svc_log w"
  "socks (opened_world C fd bfd k w t) = (socks w)(nsock w := new_socket_impl (c_os C) fd,
     Suc (nsock w) := (new_socket_impl (c_os C) bfd)\<lparr>blocking := False\<rparr>)"
  "enabled (opened_world C fd bfd k w t) = enabled w" "observers (opened_world C fd bfd k w t) = observers w"
  "nobs (opened_world C fd bfd k w t) = nobs w"
  by (simp_all add: opened_world_def made_world_def same_registry_def nf_release_def enabled_def [abs_def])

text \<open>An observer of a session that does not exist yet is never enabled.\<close>

lemma no_observer_yet: "lifetime_ok w \<Longrightarrow> j < nobs w \<Longrightarrow> ob_obj (observers w j) \<noteq> Some (SessionObj (nsess w))"
  using lifetime_sits [of w j] by (auto simp: enabled_def sits_def place_def)

lemma opened_world_lifetime:
  assumes "lifetime_ok w"
  shows "lifetime_ok (opened_world C fd bfd k w t)"
proof (rule lifetime_cong [OF assms opened_world_sel(1)])
  fix j assume "enabled w j"
  then have "place w (observers w j) \<noteq> None" using lifetime_sits [OF assms] by (auto simp: sits_def)
  then show "place (opened_world C fd bfd k w t) (observers w j) = place w (observers w j)"
    by (auto simp: place_def opened_world_sel less_Suc_eq split: option.split objref.split)
qed

lemma opened_world_made:
  assumes "lifetime_ok w"
  shows "session_made C fd bfd w (opened_world C fd bfd k w t)"
  using opened_world_lifetime [OF assms]
  by (simp add: session_made_def opened_world_sel keeps_observers_def)

section \<open>Properties\<close>

text \<open>C9: When a connection waits at the acceptor (and its peer's address can be read if logging is on), the
  back socket can be opened and made non-blocking, and \<open>connect\<close> has succeeded or begun, \<open>onAccept\<close>
  returns and makes exactly one session: alive, not closed, not yet connected, with the creator's service on the accepted socket and a non-blocking back
  socket; its seven observers are registered and enabled, the service has been told of the front
  connection, and nothing of the other sessions and their observers has changed.\<close>

theorem accept_creates_session:
  assumes "lifetime_ok w" and "connection_waits C w fd" and "back_socket_opens C w bfd"
    and "connect_started (back_connects C w bfd)"
  shows "\<exists>w'. onAccept C k w = (Inr (), w') \<and> session_made C fd bfd w w'
    \<and> registered (nsess w) (front_slots \<union> back_slots) w'
    \<and> svc_log w' = svc_log w @ connect_events (nsess w) (c_creator C (nsock w) (Suc (nsock w)))"
proof -
  let ?s = "nsess w" and ?f = "nsock w" and ?b = "Suc (nsock w)"
  obtain t where run: "onAccept C k w = andthen (SocketImpl_connectNB (c_os C) ?b (acc_back_addr w))
      (andthen (RegisterHandler ?s) (if c_creator C ?f ?b = None then skip else OnFrontConnect ?s))
      ((made_world C fd k w)\<lparr>clk := connect_clk C w, log_text := t\<rparr>)"
    using accept_to_connect [OF assms(2)] by blast
  let ?o = "opened_world C fd bfd k w t"
  have "alive_at ?s ?f ?b 0 0 ?o"
    using opened_world_lifetime [OF assms(1)] by (simp add: alive_at_def older_def opened_world_sel new_session_def)
  from RegisterHandler_registers [OF this] obtain v where v: "RegisterHandler ?s ?o = (Inr (), v)"
    "registering ?o ?s ?f ?b (front_slots \<union> back_slots) v" by blast
  let ?w = "v\<lparr>svc_log := svc_log v @ connect_events ?s (c_creator C ?f ?b)\<rparr>"
  have "onAccept C k w = (Inr (), ?w)"
    unfolding run andthen_run [of "SocketImpl_connectNB S x a" for S x a, OF connectNB_started [OF assms(3,4)]]
      andthen_run [of "RegisterHandler ?s", OF v(1)]
    by (simp add: OnFrontConnect_def svc_call_def modify_def skip_def ret_def connect_events_def)
  moreover have "session_made C fd bfd w ?w"
  proof -
    have "lifetime_ok v" using v(2) by (simp add: registering_def alive_at_def)
    then have "lifetime_ok ?w" by (rule lifetime_more) (simp_all add: same_registry_def)
    with v(2) show ?thesis
      by (simp add: session_made_def registering_def same_objects_def opened_world_sel keeps_observers_def enabled_def)
  qed
  moreover have "registered ?s (front_slots \<union> back_slots) ?w"
    using v(2) by (simp add: registering_def registered_def enabled_def)
  moreover have "svc_log ?w = svc_log w @ connect_events ?s (c_creator C ?f ?b)"
    using v(2) by (simp add: registering_def same_objects_def opened_world_sel)
  ultimately show ?thesis by blast
qed

text \<open>A proxy with a registered acceptor and no session.\<close>

definition accepting_world :: world where
  "accepting_world = snd (CPOCOProxyAcceptor_ctor 0 sample_addr (initial_world\<lparr>nsock := 1\<rparr>))"

lemma addEventHandler_nsock: "preserves nsock (addEventHandler s ob)"
  unfolding addEventHandler_def
  by (intro frame preserves_modify)
    (auto simp: preserves_def getNotifier_def new_SocketNotifier_def SocketNotifier_addObserver_def
      NotificationCenter_addObserver_def Let_def split: option.split)

lemma accepting_world_made:
  "lifetime_ok accepting_world \<and> same_objects (initial_world\<lparr>nsock := 1, acc_alive := True\<rparr>) accepting_world
    \<and> clk accepting_world = 0 \<and> nsock accepting_world = 1"
proof -
  let ?w = "initial_world\<lparr>nsock := 1, acc_alive := True\<rparr>"
  have ok: "lifetime_ok ?w" by (simp add: lifetime_ok_def registry_ok_def enabled_def initial_world_def)
  have "place ?w acceptor_observer = Some 0"
    by (simp add: place_def acceptor_observer_def mkObserver_def initial_world_def)
  from addEventHandler_lifetime [OF ok this] obtain v where
    v: "addEventHandler 0 acceptor_observer ?w = (Inr (), v)" "lifetime_ok v" "same_objects ?w v" by blast
  have eq: "initial_world\<lparr>nsock := 1, acc_alive := True, acc_socket := 0, acc_back_addr := sample_addr\<rparr> = ?w"
    by (simp add: initial_world_def)
  have "accepting_world = v"
    unfolding accepting_world_def CPOCOProxyAcceptor_ctor_def andthen_modify eq v(1) by simp
  moreover have "clk v = 0"
    using preservesD [OF addEventHandler_frame v(1)] by (auto simp: io_part_def initial_world_def)
  moreover have "nsock v = 1"
    using preservesD [OF addEventHandler_nsock v(1)] by simp
  ultimately show ?thesis using v by simp
qed

lemma accepting_world_lifetime: "lifetime_ok accepting_world"
  using accepting_world_made by simp

lemma accepting_world_facts:
  "acc_alive accepting_world" "acc_socket accepting_world = 0" "socks accepting_world = (\<lambda>_. sample_sock)"
  "nsess accepting_world = 0" "svc_log accepting_world = []" "clk accepting_world = 0" "nsock accepting_world = 1"
  using accepting_world_made by (simp_all add: same_objects_def initial_world_def)

theorem accept_creates_session_witness:
  "\<exists>w'. onAccept logging_config Readable accepting_world = (Inr (), w') \<and> nsess w' = 1
    \<and> ss_alive (sessions w' 0) \<and> \<not> blocking (socks w' 2) \<and> svc_log w' = [(0, FrontConnect)]
    \<and> registered 0 (front_slots \<union> back_slots) w'"
proof -
  have "connection_waits logging_config accepting_world 1" "back_socket_opens logging_config accepting_world 3"
    "connect_started (back_connects logging_config accepting_world 3)"
    by (simp_all add: connection_waits_def back_socket_opens_def back_connects_def connect_clk_def logging_config_def
        accepting_world_facts sample_config_def sample_os_def POCO_INVALID_SOCKET_def sample_sock_def peer_named_def)
  from accept_creates_session [OF accepting_world_lifetime this, of Readable] show ?thesis
    by (auto simp: session_made_def accepting_world_facts new_session_def connect_events_def numeral_2_eq_2
        logging_config_def sample_config_def)
qed

end
