(* ===== verification/Server.thy ===== *)
theory Server
  imports Session_Life
begin

text \<open>
  The body of the worker thread of \<open>CPOCOProxyServer\<close>, \<open>ThreadLoop\<close>, as one computation over the
  proxy's state: resolving the back address, making reactor, server socket and acceptor, the event
  loop, and the resets. How it interleaves with the caller is in \<open>Server_Threads\<close>.
\<close>

section \<open>\<open>ThreadLoop\<close>\<close>

text \<open>A new \<open>SocketReactor\<close>.\<close>

definition make_reactor :: "unit proxy" where
  "make_reactor = modify (\<lambda>w. w\<lparr>r_handlers := [], r_timeout := DEFAULT_TIMEOUT, pollset := empty_pollset\<rparr>)"

text \<open>
  Destruction of the reactor destroys its handler map, with it the notifiers in the map and the
  observers these hold: an observer in the list of one of them calls no object any more. An
  observer outside the map would be untouched; that there is none left is proved, from the
  lifetime invariant (\<open>valid_reset_reactor\<close>).
\<close>

definition in_handlers :: "world \<Rightarrow> nat \<Rightarrow> bool" where
  "in_handlers w j \<longleftrightarrow> list_ex (\<lambda>(s, i). j \<in> set (nf_observers (notifiers w i))) (r_handlers w)"

definition reset_reactor :: "unit proxy" where
  "reset_reactor = modify (\<lambda>w. w\<lparr>r_handlers := [], pollset := empty_pollset,
     observers := (\<lambda>j. if in_handlers w j then (observers w j)\<lparr>ob_obj := None\<rparr> else observers w j)\<rparr>)"

definition reset_acceptor :: "unit proxy" where
  "reset_acceptor = bnd (gets acc_alive) (\<lambda>alive. when_do alive CPOCOProxyAcceptor_dtor)"

definition reset_server_socket :: "unit proxy" where
  "reset_server_socket = bnd (gets srv_socket) (\<lambda>p. case p of
      None \<Rightarrow> skip
    | Some s \<Rightarrow> andthen (SocketImpl_close s) (modify (\<lambda>w. w\<lparr>srv_socket := None\<rparr>)))"

definition resolve :: "config \<Rightarrow> string \<Rightarrow> u16 \<Rightarrow> addr proxy" where
  "resolve C host port = (case c_resolve C host port of
      Inl (c, t, n) \<Rightarrow> throw (Poco c t n)
    | Inr a \<Rightarrow> ret a)"

text \<open>
  The ports are \<open>int\<close> members passed as \<open>UInt16\<close>. The three \<open>reset\<close> calls follow the
  \<open>try\<close> block whether or not it was left by an exception.
\<close>

definition ThreadLoop :: "config \<Rightarrow> int \<Rightarrow> string \<Rightarrow> int \<Rightarrow> nat \<Rightarrow> unit proxy" where
  "ThreadLoop C front_port back_ip back_port turns =
     andthen (log_msg C (ret ''POCO Rroxy Server Thread Start''))
     (andthen (catch_poco
        (bnd (resolve C back_ip (word_of_int back_port)) (\<lambda>back_addr.
         andthen make_reactor
         (bnd (ServerSocket_ctor (c_os C) (word_of_int front_port) 64) (\<lambda>s.
          andthen (modify (\<lambda>w. w\<lparr>srv_socket := Some s\<rparr>))
          (andthen (CPOCOProxyAcceptor_ctor s back_addr)
            (reactor_run (proxy_dispatch C) (c_os C) turns))))))
        (\<lambda>e. log_msg C (ret (''POCO Server error : ['' @ displayText e @ '']''))))
     (andthen reset_acceptor
     (andthen reset_reactor
     (andthen reset_server_socket
       (log_msg C (ret ''POCO Server Thread End''))))))"

text \<open>
  Between two runs of \<open>ThreadLoop\<close> there is no acceptor, no server socket, no registered handler and no
  enabled observer. Nothing is said of the sessions: those that the shutdown notification has not
  ended stay alive with their sockets open (theory \<open>Leftover_Sessions\<close>).
\<close>

definition stopped :: "world \<Rightarrow> bool" where
  "stopped w \<longleftrightarrow> \<not> acc_alive w \<and> srv_socket w = None \<and> r_handlers w = [] \<and> (\<forall>j. \<not> enabled w j)
     \<and> (\<forall>i < nnotif w. notifier_ok i w)"

lemma stopped_lifetime: "stopped w \<Longrightarrow> lifetime_ok w"
  by (simp add: stopped_def lifetime_ok_def registry_ok_def)

text \<open>The acceptor takes its place before it registers.\<close>

definition no_acceptor :: "world \<Rightarrow> bool" where
  "no_acceptor w \<longleftrightarrow> lifetime_ok w \<and> \<not> acc_alive w"

lemma no_acceptor_stable: "reactor_stable no_acceptor"
  unfolding no_acceptor_def
  by (intro reactor_stable_conj lifetime_stable) (simp add: reactor_stable_def)

lemma valid_acceptor_ctor:
  "valid no_acceptor (CPOCOProxyAcceptor_ctor s a) (\<lambda>_. lifetime_ok) lifetime_ok"
proof (rule validI)
  fix w assume w: "no_acceptor w"
  let ?w = "w\<lparr>acc_alive := True, acc_socket := s, acc_back_addr := a\<rparr>"
  have ok: "lifetime_ok w" using w by (simp add: no_acceptor_def)
  have "lifetime_ok ?w"
  proof (rule lifetime_cong [OF ok])
    fix j assume "enabled w j"
    then have "place w (observers w j) \<noteq> None" using lifetime_sits [OF ok] by (auto simp: sits_def)
    with w show "place ?w (observers w j) = place w (observers w j)"
      by (auto simp: place_def no_acceptor_def split: option.split objref.split)
  qed (simp add: same_registry_def)
  moreover have "place ?w acceptor_observer = Some s"
    by (simp add: place_def acceptor_observer_def mkObserver_def)
  ultimately obtain w' where "addEventHandler s acceptor_observer ?w = (Inr (), w')" "lifetime_ok w'"
    using addEventHandler_lifetime by blast
  then show "outcome (\<lambda>_. lifetime_ok) lifetime_ok (CPOCOProxyAcceptor_ctor s a w)"
    by (simp add: CPOCOProxyAcceptor_ctor_def comp_simps)
qed

lemma valid_acceptor_dtor:
  "valid (\<lambda>w. lifetime_ok w \<and> acc_alive w) CPOCOProxyAcceptor_dtor
     (\<lambda>_ w. lifetime_ok w \<and> \<not> acc_alive w) E"
proof (rule validI, elim conjE)
  fix w assume w: "lifetime_ok w" "acc_alive w"
  have "place w acceptor_observer = Some (acc_socket w)"
    using w by (simp add: place_def acceptor_observer_def mkObserver_def)
  with w(1) obtain w' where w': "removeEventHandler (acc_socket w) acceptor_observer w = (Inr (), w')"
    "lifetime_ok w'" "only_without acceptor_observer w w'"
    using removeEventHandler_lifetime by blast
  let ?w = "w'\<lparr>acc_alive := False\<rparr>"
  have "lifetime_ok ?w"
  proof (rule lifetime_cong [OF w'(2)])
    fix j assume j: "enabled w' j"
    then have pl: "place w' (observers w' j) \<noteq> None"
      using lifetime_sits [OF w'(2)] by (auto simp: sits_def)
    have "ob_obj (observers w' j) \<noteq> Some AcceptorObj"
    proof
      assume o: "ob_obj (observers w' j) = Some AcceptorObj"
      with pl have "observers w' j = acceptor_observer"
        by (cases "observers w' j") (auto simp: place_def acceptor_observer_def mkObserver_def split: if_splits)
      with j w'(3) show False by (auto simp: only_without_def)
    qed
    then show "place ?w (observers w' j) = place w' (observers w' j)"
      by (auto simp: place_def split: option.split objref.split)
  qed (simp add: same_registry_def)
  with w'(1) show "outcome (\<lambda>_ w. lifetime_ok w \<and> \<not> acc_alive w) E (CPOCOProxyAcceptor_dtor w)"
    by (simp add: CPOCOProxyAcceptor_dtor_def comp_simps)
qed

lemma keeps_bind [keep]: "sock_stable P \<Longrightarrow> keeps P (SocketImpl_bind S s a r)"
  unfolding SocketImpl_bind_def by (intro keep)

lemma keeps_listen [keep]: "sock_stable P \<Longrightarrow> keeps P (SocketImpl_listen S s n)"
  unfolding SocketImpl_listen_def by (intro keep)

lemma keeps_ServerSocket_ctor [keep]: "sock_stable P \<Longrightarrow> keeps P (ServerSocket_ctor S port n)"
  unfolding ServerSocket_ctor_def by (intro keep)

lemma keeps_resolve [keep]: "keeps P (resolve C host port)"
  unfolding resolve_def by (cases "c_resolve C host port") (auto intro: keep)

lemma keeps_log_ret:
  "(\<And>w t. P w \<Longrightarrow> P (w\<lparr>log_text := t\<rparr>)) \<Longrightarrow> valid P (log_msg C (ret t)) (\<lambda>_. P) E"
  by (cases "c_logging C") (simp_all add: log_msg_def valid_def comp_simps)

lemma stopped_log: "stopped w \<Longrightarrow> stopped (w\<lparr>log_text := t\<rparr>)"
  by (simp add: stopped_def enabled_def notifier_ok_def)

lemma lifetime_log: "lifetime_ok w \<Longrightarrow> lifetime_ok (w\<lparr>log_text := t\<rparr>)"
  by (erule lifetime_more) (simp_all add: same_registry_def)

lemma valid_serve:
  assumes S: "send_documented (c_os C)"
  shows "valid stopped
    (bnd (resolve C ip bp) (\<lambda>back_addr.
       andthen make_reactor
       (bnd (ServerSocket_ctor (c_os C) fp 64) (\<lambda>s.
        andthen (modify (\<lambda>w. w\<lparr>srv_socket := Some s\<rparr>))
        (andthen (CPOCOProxyAcceptor_ctor s back_addr)
          (reactor_run (proxy_dispatch C) (c_os C) turns))))))
    (\<lambda>_. lifetime_ok) lifetime_ok"
proof (rule valid_bnd)
  show "valid stopped (resolve C ip bp) (\<lambda>_. stopped) lifetime_ok"
    by (rule valid_post [OF valid_keeps [OF keeps_resolve]]) (simp_all add: stopped_lifetime)
  fix back_addr
  show "valid stopped (andthen make_reactor
       (bnd (ServerSocket_ctor (c_os C) fp 64) (\<lambda>s.
        andthen (modify (\<lambda>w. w\<lparr>srv_socket := Some s\<rparr>))
        (andthen (CPOCOProxyAcceptor_ctor s back_addr)
          (reactor_run (proxy_dispatch C) (c_os C) turns))))) (\<lambda>_. lifetime_ok) lifetime_ok"
  proof (rule valid_andthen [where R = no_acceptor])
    show "valid stopped make_reactor (\<lambda>_. no_acceptor) lifetime_ok"
      unfolding make_reactor_def
      by (rule valid_modify)
        (auto simp: no_acceptor_def stopped_def lifetime_ok_def registry_ok_def enabled_def notifier_ok_def)
    show "valid no_acceptor
       (bnd (ServerSocket_ctor (c_os C) fp 64) (\<lambda>s.
        andthen (modify (\<lambda>w. w\<lparr>srv_socket := Some s\<rparr>))
        (andthen (CPOCOProxyAcceptor_ctor s back_addr)
          (reactor_run (proxy_dispatch C) (c_os C) turns)))) (\<lambda>_. lifetime_ok) lifetime_ok"
    proof (rule valid_bnd [where R = "\<lambda>_. no_acceptor"])
      show "valid no_acceptor (ServerSocket_ctor (c_os C) fp 64) (\<lambda>_. no_acceptor) lifetime_ok"
        by (rule valid_post [OF valid_keeps
              [OF keeps_ServerSocket_ctor [OF reactor_stable_sock [OF no_acceptor_stable]]]])
          (simp_all add: no_acceptor_def)
      fix s
      have "keeps lifetime_ok (reactor_run (proxy_dispatch C) (c_os C) turns)"
        using proxy.keeps_run [of C "c_os C" turns] S by (simp add: documented_id)
      then show "valid no_acceptor (andthen (modify (\<lambda>w. w\<lparr>srv_socket := Some s\<rparr>))
        (andthen (CPOCOProxyAcceptor_ctor s back_addr)
          (reactor_run (proxy_dispatch C) (c_os C) turns))) (\<lambda>_. lifetime_ok) lifetime_ok"
        by (intro valid_andthen [where R = no_acceptor] valid_modify
            valid_andthen [OF valid_acceptor_ctor] valid_keeps)
          (auto simp: no_acceptor_def same_registry_def elim!: lifetime_more)
    qed
  qed
qed

lemma valid_reset_reactor:
  "valid (\<lambda>w. lifetime_ok w \<and> \<not> acc_alive w) reset_reactor
    (\<lambda>_ w. stopped (w\<lparr>srv_socket := None\<rparr>)) E"
  unfolding reset_reactor_def
proof (rule valid_modify)
  fix w assume w: "lifetime_ok w \<and> \<not> acc_alive w"
  let ?o = "\<lambda>j. if in_handlers w j then (observers w j)\<lparr>ob_obj := None\<rparr> else observers w j"
  let ?w = "w\<lparr>r_handlers := [], pollset := empty_pollset, observers := ?o, srv_socket := None\<rparr>"
  have "notifier_ok i ?w" if "i < nnotif w" for i
  proof (rule notifier_ok_other [where w = w])
    show "notifier_ok i w" using w that by (auto dest!: lifetime_registry simp: registry_ok_def)
  qed simp_all
  moreover have "\<not> enabled ?w j" for j
  proof
    assume e: "enabled ?w j"
    then have "enabled w j" "\<not> in_handlers w j" by (auto simp: enabled_def split: if_splits)
    moreover obtain x i where "map_of (r_handlers w) x = Some i" "j \<in> set (nf_observers (notifiers w i))"
      using lifetime_sits [of w j] w \<open>enabled w j\<close> by (auto simp: sits_def)
    ultimately show False by (auto simp: in_handlers_def list_ex_iff dest: map_of_SomeD)
  qed
  ultimately have "stopped ?w" using w by (simp add: stopped_def)
  then show "stopped ((w\<lparr>r_handlers := [], pollset := empty_pollset, observers := ?o\<rparr>)\<lparr>srv_socket := None\<rparr>)"
    by simp
qed

lemma close_stopped: "stopped (w\<lparr>srv_socket := p\<rparr>) \<Longrightarrow> SocketImpl_close s w = (r, w') \<Longrightarrow>
    r = Inr () \<and> stopped (w'\<lparr>srv_socket := p\<rparr>)"
  by (auto simp: SocketImpl_close_def comp_simps record_io_def upd_sock_def stopped_def enabled_def
      notifier_ok_def split: if_splits)

lemma valid_reset_server_socket:
  "valid (\<lambda>w. stopped (w\<lparr>srv_socket := None\<rparr>)) reset_server_socket (\<lambda>_. stopped) E"
proof (rule validI)
  fix w assume w: "stopped (w\<lparr>srv_socket := None\<rparr>)"
  show "outcome (\<lambda>_. stopped) E (reset_server_socket w)"
  proof (cases "srv_socket w")
    case None
    then have "w\<lparr>srv_socket := None\<rparr> = w" by simp
    with None w show ?thesis by (simp add: reset_server_socket_def comp_simps)
  next
    case (Some s)
    obtain r w' where c: "SocketImpl_close s w = (r, w')" by (cases "SocketImpl_close s w")
    from close_stopped [OF w c] Some c show ?thesis by (simp add: reset_server_socket_def comp_simps)
  qed
qed

lemma valid_ThreadLoop:
  assumes "send_documented (c_os C)"
  shows "valid stopped (ThreadLoop C fp ip bp turns) (\<lambda>_. stopped) (\<lambda>_. False)"
  unfolding ThreadLoop_def
proof (intro valid_andthen)
  show "valid stopped (log_msg C (ret ''POCO Rroxy Server Thread Start'')) (\<lambda>_. stopped) (\<lambda>_. False)"
    by (intro keeps_log_ret stopped_log)
  show "valid stopped (catch_poco
        (bnd (resolve C ip (word_of_int bp)) (\<lambda>back_addr.
         andthen make_reactor
         (bnd (ServerSocket_ctor (c_os C) (word_of_int fp) 64) (\<lambda>s.
          andthen (modify (\<lambda>w. w\<lparr>srv_socket := Some s\<rparr>))
          (andthen (CPOCOProxyAcceptor_ctor s back_addr)
            (reactor_run (proxy_dispatch C) (c_os C) turns))))))
        (\<lambda>e. log_msg C (ret (''POCO Server error : ['' @ displayText e @ '']''))))
     (\<lambda>_. lifetime_ok) (\<lambda>_. False)"
    by (rule valid_catch [OF valid_serve [OF assms]]) (intro keeps_log_ret lifetime_log)
  show "valid lifetime_ok reset_acceptor (\<lambda>_ w. lifetime_ok w \<and> \<not> acc_alive w) (\<lambda>_. False)"
  proof (rule validI)
    fix w assume w: "lifetime_ok w"
    show "outcome (\<lambda>_ w. lifetime_ok w \<and> \<not> acc_alive w) (\<lambda>_. False) (reset_acceptor w)"
    proof (cases "acc_alive w")
      case True
      with w validD [OF valid_acceptor_dtor] show ?thesis
        by (simp add: reset_acceptor_def comp_simps)
    qed (use w in \<open>simp add: reset_acceptor_def comp_simps\<close>)
  qed
  show "valid (\<lambda>w. lifetime_ok w \<and> \<not> acc_alive w) reset_reactor
      (\<lambda>_ w. stopped (w\<lparr>srv_socket := None\<rparr>)) (\<lambda>_. False)"
    by (rule valid_reset_reactor)
  show "valid (\<lambda>w. stopped (w\<lparr>srv_socket := None\<rparr>)) reset_server_socket (\<lambda>_. stopped) (\<lambda>_. False)"
    by (rule valid_reset_server_socket)
  show "valid stopped (log_msg C (ret ''POCO Server Thread End'')) (\<lambda>_. stopped) (\<lambda>_. False)"
    by (intro keeps_log_ret stopped_log)
qed

section \<open>Properties\<close>

text \<open>The worker thread is memory safe. From a stopped state, whatever the peers, the resolver, the
  service creator and the system calls do, \<open>ThreadLoop\<close> never uses a destroyed session, acceptor or
  notifier and never leaves a buffer; it does not throw, and when it returns the acceptor, the
  reactor, the server socket and every observer are gone, so that it can be started again.\<close>

theorem ThreadLoop_safe:
  assumes "send_documented (c_os C)" and "stopped w"
  shows "case ThreadLoop C front_port back_ip back_port turns w of
      (Inr _, w') \<Rightarrow> stopped w'
    | (Inl e, _) \<Rightarrow> e = Diverge"
  using validD [OF valid_ThreadLoop [OF assms(1)] assms(2), of front_port back_ip back_port turns]
  by (cases "ThreadLoop C front_port back_ip back_port turns w" rule: result_cases) simp_all

theorem ThreadLoop_safe_witness:
  "case ThreadLoop sample_config 1470 ''localhost'' 4242 5 initial_world of
      (Inr _, w') \<Rightarrow> stopped w'
    | (Inl e, _) \<Rightarrow> e = Diverge"
  by (rule ThreadLoop_safe)
    (simp_all add: sample_config_def sample_send_documented stopped_def initial_world_def enabled_def)

text \<open>C4: No use after free in the event loop. From any state in which every enabled observer names a
  live object at its place (sessions in any number and phase), running the reactor for any
  number of turns, with sessions destroyed by their own callbacks in the middle of a dispatch,
  has no undefined behaviour and ends in such a state again.\<close>

theorem reactor_no_use_after_free:
  assumes "send_documented (c_os C)" and "lifetime_ok w"
  shows "case reactor_run (proxy_dispatch C) (c_os C) turns w of
      (Inl e, w') \<Rightarrow> (\<forall>t. e \<noteq> UB t) \<and> (e \<noteq> Diverge \<longrightarrow> lifetime_ok w')
    | (Inr _, w') \<Rightarrow> lifetime_ok w'"
proof -
  have "keeps lifetime_ok (reactor_run (proxy_dispatch C) (c_os C) turns)"
    using proxy.keeps_run [of C "c_os C" turns] assms(1) by (simp add: documented_id)
  from validD [OF this [unfolded keeps_def] assms(2)] show ?thesis
    by (cases "reactor_run (proxy_dispatch C) (c_os C) turns w" rule: result_cases) simp_all
qed

theorem reactor_no_use_after_free_witness:
  "case reactor_run (proxy_dispatch sample_config) sample_os 3 registered_world of
      (Inl e, w') \<Rightarrow> (\<forall>t. e \<noteq> UB t) \<and> (e \<noteq> Diverge \<longrightarrow> lifetime_ok w')
    | (Inr _, w') \<Rightarrow> lifetime_ok w'"
proof -
  have "c_os sample_config = sample_os" by (simp add: sample_config_def)
  moreover have "lifetime_ok registered_world" using registered_world_alive by (simp add: alive_at_def)
  ultimately show ?thesis
    using reactor_no_use_after_free [of sample_config registered_world 3] sample_send_documented by simp
qed

end
