(* ===== verification/Reactor_Life.thy ===== *)
theory Reactor_Life
  imports Server Relay
begin

text \<open>
  Two properties of the reactor as the proxy uses it: the shared notification objects are released
  exactly as often as they are duplicated, and what the poll set still watches after a session
  has been closed.
\<close>

section \<open>Reference counts of the notifications\<close>

text \<open>
  \<open>balanced m\<close>: unless \<open>m\<close> has undefined behaviour it leaves every count as it was;
  \<open>releases k m\<close>: it gives up one reference to the notification of kind \<open>k\<close>.
\<close>

definition balanced :: "('a notif_world_scheme, 'b) cpp \<Rightarrow> bool" where
  "balanced m \<longleftrightarrow> (\<forall>w. (\<exists>t. fst (m w) = Inl (UB t)) \<or> nf_refs (snd (m w)) = nf_refs w)"

definition releases :: "nkind \<Rightarrow> ('a notif_world_scheme, 'b) cpp \<Rightarrow> bool" where
  "releases k m \<longleftrightarrow>
     (\<forall>w. (\<exists>t. fst (m w) = Inl (UB t)) \<or> nf_refs (snd (m w)) = (nf_refs w)(k := nf_refs w k - 1))"

named_theorems balance "rules for the reference counts of notifications"

lemma balanced_preserves: "preserves nf_refs m \<Longrightarrow> balanced m"
  by (simp add: balanced_def preserves_def)

lemma balancedD: "balanced m \<Longrightarrow> (\<exists>t. fst (m w) = Inl (UB t)) \<or> nf_refs (snd (m w)) = nf_refs w"
  by (simp add: balanced_def)

lemma balanced_bnd [balance]:
  assumes "balanced m" and "\<And>a. balanced (f a)"
  shows "balanced (bnd m f)"
  unfolding balanced_def
proof
  fix w
  obtain r w1 where m: "m w = (r, w1)" by (cases "m w")
  show "(\<exists>t. fst (bnd m f w) = Inl (UB t)) \<or> nf_refs (snd (bnd m f w)) = nf_refs w"
  proof (cases r)
    case (Inl e)
    with m balancedD [OF assms(1), of w] show ?thesis by (simp add: bnd_def)
  next
    case (Inr a)
    with m balancedD [OF assms(1), of w] have "nf_refs w1 = nf_refs w" by simp
    with m Inr balancedD [OF assms(2) [of a], of w1] show ?thesis by (simp add: bnd_def)
  qed
qed

lemma balanced_andthen [balance]: "balanced m \<Longrightarrow> balanced k \<Longrightarrow> balanced (andthen m k)"
  unfolding andthen_def by (rule balanced_bnd)

lemma balanced_gets [balance]: "balanced (gets f)"
  by (rule balanced_preserves) (rule frame)

lemma balanced_skip [balance]: "balanced skip"
  by (rule balanced_preserves) (rule frame)

lemma balanced_throw [balance]: "balanced (throw e)"
  by (rule balanced_preserves) (rule frame)

lemma balanced_when_do [balance]: "balanced m \<Longrightarrow> balanced (when_do b m)"
  by (simp add: when_do_def balanced_skip)

lemma balanced_if [balance]: "balanced m \<Longrightarrow> balanced k \<Longrightarrow> balanced (if b then m else k)"
  by simp

lemma balanced_for_each [balance]: "(\<And>x. balanced (f x)) \<Longrightarrow> balanced (for_each xs f)"
  by (induction xs) (simp_all add: balanced_skip balanced_andthen)

lemma balanced_catch [balance]:
  assumes "balanced m" and "\<And>e. balanced (h e)"
  shows "balanced (catch_poco m h)"
  unfolding balanced_def
proof
  fix w
  show "(\<exists>t. fst (catch_poco m h w) = Inl (UB t)) \<or> nf_refs (snd (catch_poco m h w)) = nf_refs w"
  proof (cases "m w" rule: result_cases)
    case (Throws c t n w1)
    with balancedD [OF assms(1), of w] have "nf_refs w1 = nf_refs w" by simp
    moreover have "catch_poco m h w = h (Poco c t n) w1" by (simp add: catch_poco_def Throws)
    ultimately show ?thesis using balancedD [OF assms(2), of "Poco c t n" w1] by simp
  qed (use assms(1) in \<open>auto simp: catch_poco_def balanced_def dest: spec [of _ w]\<close>)
qed

lemma balanced_option [balance]:
  "balanced a \<Longrightarrow> (\<And>x. balanced (b x)) \<Longrightarrow> balanced (case p of None \<Rightarrow> a | Some x \<Rightarrow> b x)"
  by (cases p) auto

lemma releases_release: "balanced m \<Longrightarrow> releases k (andthen (modify (nf_release k)) m)"
  unfolding balanced_def releases_def andthen_modify by (auto simp: nf_release_def)

section \<open>The sessions leave the counts alone\<close>

lemma refs_io: "preserves io_part m \<Longrightarrow> preserves nf_refs m"
  unfolding preserves_def by (metis io_part_parts)

lemma refs_blind: "sock_blind nf_refs"
  by (simp add: sock_blind_def)

lemma refs_upd_session [frame]: "preserves nf_refs (upd_session s g)"
  by (rule refs_io) (rule upd_session_frame_io)

lemma refs_log_msg [frame]: "preserves nf_refs t \<Longrightarrow> preserves nf_refs (log_msg C t)"
  unfolding log_msg_def by (intro frame preserves_modify) simp_all

lemma refs_svc_call [frame]: "preserves nf_refs (svc_call s e)"
  by (simp add: svc_call_def preserves_modify)

lemma refs_front_address [frame]: "preserves nf_refs (front_address C s)"
  unfolding front_address_def by (intro frame refs_blind)

lemma refs_back_address [frame]: "preserves nf_refs (back_address C s)"
  unfolding back_address_def by (intro frame refs_blind)

lemma refs_Close [frame]: "preserves nf_refs (Close C s)"
  unfolding Close_def service_events by (intro frame refs_blind refs_io [OF dtor_frame])

lemma refs_session_error [frame]: "preserves nf_refs (session_error C s e)"
  unfolding session_error_def by (intro frame)

lemma refs_SetService [frame]: "preserves nf_refs (SetService C s v a)"
  unfolding SetService_def service_events by (intro frame refs_blind refs_io [OF RegisterHandler_frame])

lemma refs_ctor [frame]: "preserves nf_refs (ProxySession_ctor C f)"
  unfolding ProxySession_ctor_def by (intro frame refs_blind preserves_modify) simp_all

lemma refs_createServiceHandler [frame]: "preserves nf_refs (createServiceHandler C f)"
  unfolding createServiceHandler_def by (intro frame refs_blind)

lemma refs_relay [frame]:
  "preserves nf_refs (ByPass_OnFrontReadable C x b)" "preserves nf_refs (ByPass_OnBackReadable C x b)"
  unfolding ByPass_OnFrontReadable_def ByPass_OnBackReadable_def by (intro frame refs_blind)+

lemma refs_service_case [frame]:
  "preserves f p \<Longrightarrow> preserves f q \<Longrightarrow> preserves f (case v of ProxyHandler \<Rightarrow> p | ByPassHandler \<Rightarrow> q)"
  by (cases v) simp_all

lemma refs_front_virtual [frame]: "preserves nf_refs (OnFrontReadable_virtual C s x v b)"
  unfolding OnFrontReadable_virtual_def by (intro frame)

lemma refs_back_virtual [frame]: "preserves nf_refs (OnBackReadable_virtual C s x v b)"
  unfolding OnBackReadable_virtual_def by (intro frame)

lemma releases_throw_UB: "releases k (throw (UB t))"
  by (simp add: releases_def throw_def)

lemma releases_gets: "(\<And>a. releases k (f a)) \<Longrightarrow> releases k (bnd (gets g) f)"
  by (simp add: releases_def bnd_def gets_def)

lemma releases_with_session: "(\<And>x. releases k (f x)) \<Longrightarrow> releases k (with_session s f)"
  unfolding with_session_def by (rule releases_gets) (simp add: releases_throw_UB)

lemma releases_only: "releases k (modify (nf_release k))"
  by (simp add: releases_def modify_def nf_release_def)

lemma releases_handlers:
  "releases k (onFrontReadable C s k)" "releases k (onBackReadable C s k)" "releases k (onBackWritable C s k)"
  "releases k (onFrontShutdown C s k)" "releases k (onFrontError C s k)" "releases k (onBackShutdown C s k)"
  "releases k (onBackError C s k)" "releases k (onRelease k)"
  unfolding onFrontReadable_def onBackReadable_def onBackWritable_def onFrontShutdown_def onFrontError_def
    onBackShutdown_def onBackError_def onRelease_def service_events
  by (rule releases_release balanced_preserves releases_only; (intro frame refs_blind)?)+

lemma releases_session_callback: "releases k (session_callback C s m k)"
  unfolding session_callback_def
  by (rule releases_with_session, cases m) (simp_all add: releases_handlers releases_throw_UB)

lemma releases_onAccept: "releases k (onAccept C k)"
  unfolding onAccept_def
  by (intro releases_release balance) (auto intro!: balance balanced_preserves frame refs_blind)

lemma releases_dispatch: "releases k (proxy_dispatch C p m k)"
  by (cases p) (simp_all add: proxy_dispatch_def releases_session_callback releases_onAccept releases_throw_UB)

section \<open>Dispatch is balanced\<close>

lemma balanced_dup:
  assumes "releases k m" and "\<And>w. nf_refs (g w) = (nf_refs w)(k := nf_refs w k + 1)"
  shows "balanced (andthen (modify g) m)"
  unfolding balanced_def andthen_modify
proof
  fix w
  have "(\<exists>t. fst (m (g w)) = Inl (UB t)) \<or> nf_refs (snd (m (g w))) = (nf_refs (g w))(k := nf_refs (g w) k - 1)"
    using assms(1) by (simp add: releases_def)
  then show "(\<exists>t. fst (m (g w)) = Inl (UB t)) \<or> nf_refs (snd (m (g w))) = nf_refs w"
    by (simp add: assms(2))
qed

lemma finally_parts: "fst (finally_upd m g w) = fst (m w)" "snd (finally_upd m g w) = g (snd (m w))"
  by (simp_all add: finally_upd_def split: prod.split)

lemma balanced_finally: "balanced m \<Longrightarrow> (\<And>w. nf_refs (g w) = nf_refs w) \<Longrightarrow> balanced (finally_upd m g)"
  by (simp add: balanced_def finally_parts)

lemma releases_finally: "balanced m \<Longrightarrow> releases k (finally_upd m (nf_release k))"
  by (auto simp: balanced_def releases_def finally_parts nf_release_def)

lemma balanced_notify: "balanced (Observer_notify (proxy_dispatch C) k i)"
  unfolding Observer_notify_def
  by (rule balanced_bnd [OF balanced_gets], rule balanced_option [OF balanced_skip], rule balanced_when_do,
      rule balanced_dup [OF releases_dispatch]) (simp add: nf_duplicate_def)

lemma balanced_dispatch: "balanced (SocketNotifier_dispatch (proxy_dispatch C) i k)"
  unfolding SocketNotifier_dispatch_def NotificationCenter_postNotification_def
  by (rule balanced_finally [OF balanced_dup [OF releases_finally]], intro balance balanced_notify)
    (simp_all add: nf_duplicate_def nf_setSocket_def)

section \<open>The event loop\<close>

lemma balanced_getNotifier: "balanced (getNotifier s b)"
  by (auto simp: balanced_def getNotifier_def new_SocketNotifier_def split: option.split)

lemma balanced_notifier: "balanced (dispatch_notifier (proxy_dispatch C) i k)"
  unfolding dispatch_notifier_def handle_errors_def by (intro balance balanced_dispatch)

lemma balanced_socket: "balanced (dispatch_socket (proxy_dispatch C) s k)"
  unfolding dispatch_socket_def
  by (rule balanced_bnd [OF balanced_getNotifier], rule balanced_option [OF balanced_skip], rule balanced_notifier)

lemma balanced_all: "balanced (dispatch_all (proxy_dispatch C) k)"
  unfolding dispatch_all_def by (intro balance balanced_notifier)

lemma refs_poll_loop: "preserves nf_refs (PollSet_poll_loop n S r)"
  by (induction n arbitrary: r)
    (auto intro!: frame preserves_modify refs_blind)

lemma balanced_poll: "balanced (PollSet_poll S t)"
  unfolding PollSet_poll_def
  by (rule balanced_preserves) (intro frame preserves_modify refs_poll_loop; simp)

lemma balanced_modes: "balanced (dispatch_modes (proxy_dispatch C) e)"
  unfolding dispatch_modes_def by (intro balance balanced_socket)

lemma balanced_prod [balance]: "(\<And>x y. balanced (f x y)) \<Longrightarrow> balanced (case p of (x, y) \<Rightarrow> f x y)"
  by (cases p) simp

lemma balanced_turn: "balanced (reactor_turn (proxy_dispatch C) S)"
  unfolding reactor_turn_def handle_errors_def
  by (intro balance balanced_all balanced_poll balanced_modes)

lemma balanced_run: "balanced (reactor_run (proxy_dispatch C) S turns)"
proof -
  have "balanced (reactor_loop (proxy_dispatch C) S n)" for n
    by (induction n) (simp_all add: balanced_skip balanced_andthen balanced_turn)
  then show ?thesis unfolding reactor_run_def by (intro balance balanced_all)
qed

lemma run_defined:
  assumes "send_documented (c_os C)" and "lifetime_ok w"
  shows "fst (reactor_run (proxy_dispatch C) (c_os C) turns w) \<noteq> Inl (UB t)"
  using keepsD_UB [OF proxy.keeps_run [of C "c_os C" turns] assms(2)] assms(1) by (simp add: documented_id)

text \<open>C13: The notification objects, which all sessions share, are reference-counted right: a run of the
  event loop of any length, with any number of sessions being opened, served and destroyed in it,
  leaves every count as it found it. No notification is destroyed while in use, and none leaks.\<close>

theorem notification_refs_balanced:
  assumes "send_documented (c_os C)" and "lifetime_ok w"
  shows "nf_refs (snd (reactor_run (proxy_dispatch C) (c_os C) turns w)) = nf_refs w"
  using balancedD [OF balanced_run, of C "c_os C" turns w] run_defined [OF assms] by auto

lemma registered_world_lifetime: "lifetime_ok registered_world"
  using registered_world_alive by (simp add: alive_at_def)

theorem notification_refs_balanced_witness:
  "nf_refs (snd (reactor_run (proxy_dispatch sample_config) (c_os sample_config) 3 registered_world)) = (\<lambda>_. 1)"
proof -
  have "send_documented (c_os sample_config)" by (simp add: sample_config_def sample_send_documented)
  moreover have "nf_refs registered_world = (\<lambda>_. 1)"
    using registered_world_io by (simp add: io_part_def session_world_def initial_world_def)
  ultimately show ?thesis
    using notification_refs_balanced [of sample_config registered_world 3] registered_world_lifetime by simp
qed

section \<open>The poll set as a set of descriptors\<close>

text \<open>
  What the poll set watches: the descriptors the next \<open>poll\<close> asks the system about. This is the
  abstraction under which the deferred bookkeeping (\<open>_addMap\<close>, \<open>_removeSet\<close>) is a set.
\<close>

definition watched_fds :: "pollset \<Rightarrow> poco_socket_t set" where
  "watched_fds p = (pfd_fd ` set (ps_pollfds p) - ps_removeSet p) \<union> fst ` set (ps_addMap p)"

lemma update_pollfds_fds: "map pfd_fd (fst (update_pollfds fd mode ps want)) = map pfd_fd ps"
  by (induction fd mode ps want rule: update_pollfds.induct) (auto split: prod.split)

lemma push_added_fds: "pfd_fd ` set (fst (push_added m want ps)) = pfd_fd ` set ps \<union> fst ` set m"
  by (induction m want ps rule: push_added.induct) (auto split: prod.split)

lemma prepare_parts:
  "ps_removeSet (PollSet_prepare p) = {}" "ps_addMap (PollSet_prepare p) = []"
  "ps_socketMap (PollSet_prepare p) = ps_socketMap p"
  "pfd_fd ` set (ps_pollfds (PollSet_prepare p)) = watched_fds p"
proof -
  let ?p = "prune_removed p"
  obtain pfds want where r: "push_added (ps_addMap ?p) (ps_wantPOLLOUT ?p) (ps_pollfds ?p) = (pfds, want)"
    by (cases "push_added (ps_addMap ?p) (ps_wantPOLLOUT ?p) (ps_pollfds ?p)")
  show "ps_removeSet (PollSet_prepare p) = {}" "ps_addMap (PollSet_prepare p) = []"
    "ps_socketMap (PollSet_prepare p) = ps_socketMap p"
    using r by (simp_all add: PollSet_prepare_def Let_def prune_removed_def)
  show "pfd_fd ` set (ps_pollfds (PollSet_prepare p)) = watched_fds p"
    using push_added_fds [of "ps_addMap ?p" "ps_wantPOLLOUT ?p" "ps_pollfds ?p"] r
    by (auto simp: PollSet_prepare_def Let_def prune_removed_def watched_fds_def image_iff)
qed

lemma update_parts [simp]:
  "watched_fds (PollSet_update fd mode p) = watched_fds p"
  "ps_socketMap (PollSet_update fd mode p) = ps_socketMap p"
proof -
  obtain ps want where r: "update_pollfds fd mode (ps_pollfds p) (ps_wantPOLLOUT p) = (ps, want)"
    by (cases "update_pollfds fd mode (ps_pollfds p) (ps_wantPOLLOUT p)")
  have "pfd_fd ` set ps = pfd_fd ` set (ps_pollfds p)"
    using arg_cong [OF update_pollfds_fds [of fd mode "ps_pollfds p" "ps_wantPOLLOUT p"], of set] r by simp
  with r show "watched_fds (PollSet_update fd mode p) = watched_fds p"
    "ps_socketMap (PollSet_update fd mode p) = ps_socketMap p"
    by (simp_all add: PollSet_update_def watched_fds_def)
qed

lemma watched_ops [simp]:
  "watched_fds (PollSet_add fd s m p) = insert fd (watched_fds p)"
  "watched_fds (PollSet_remove fd p) = watched_fds p - {fd}"
  "watched_fds (PollSet_prepare p) = watched_fds p"
proof -
  show "watched_fds (PollSet_add fd s m p) = insert fd (watched_fds p)"
    "watched_fds (PollSet_remove fd p) = watched_fds p - {fd}"
    by (auto simp: watched_fds_def PollSet_add_def PollSet_remove_def)
  show "watched_fds (PollSet_prepare p) = watched_fds p"
    by (simp add: watched_fds_def [of "PollSet_prepare p"] prepare_parts)
qed

lemma watched_none:
  "watched_fds empty_pollset = {}" "watched_fds (PollSet_clear p) = {}"
  by (simp_all add: watched_fds_def empty_pollset_def PollSet_clear_def)

lemma registry_ops:
  "map_of (ps_socketMap empty_pollset) = Map.empty" "map_of (ps_socketMap (PollSet_clear p)) = Map.empty"
  "map_of (ps_socketMap (PollSet_add fd s m p)) = (map_of (ps_socketMap p))(fd \<mapsto> s)"
  "map_of (ps_socketMap (PollSet_remove fd p)) = (map_of (ps_socketMap p))(fd := None)"
  by (simp_all add: empty_pollset_def PollSet_clear_def PollSet_add_def PollSet_remove_def fun_eq_iff)

text \<open>C22: The poll set refines a set of descriptors: under \<open>watched_fds\<close> its operations are insertion,
  deletion, the empty set and the identity, the array \<open>poll\<close> hands to the system holds exactly this
  set, and \<open>has\<close> answers membership in a set that changes in the same way, so the registry and the
  watched descriptors never come apart.\<close>

theorem pollset_refines_set:
  "watched_fds empty_pollset = {} \<and> {x. PollSet_has x empty_pollset} = {}
   \<and> watched_fds (PollSet_add fd s m p) = insert fd (watched_fds p)
   \<and> {x. PollSet_has x (PollSet_add fd s m p)} = insert fd {x. PollSet_has x p}
   \<and> watched_fds (PollSet_remove fd p) = watched_fds p - {fd}
   \<and> {x. PollSet_has x (PollSet_remove fd p)} = {x. PollSet_has x p} - {fd}
   \<and> watched_fds (PollSet_update fd m p) = watched_fds p
   \<and> {x. PollSet_has x (PollSet_update fd m p)} = {x. PollSet_has x p}
   \<and> watched_fds (PollSet_clear p) = {} \<and> {x. PollSet_has x (PollSet_clear p)} = {}
   \<and> watched_fds (PollSet_prepare p) = watched_fds p
   \<and> {x. PollSet_has x (PollSet_prepare p)} = {x. PollSet_has x p}
   \<and> pfd_fd ` set (ps_pollfds (PollSet_prepare p)) = watched_fds p"
  by (auto simp: PollSet_has_def prepare_parts registry_ops watched_none)

section \<open>What a closed session leaves behind\<close>

text \<open>\<open>stays P m\<close>: \<open>P\<close> survives \<open>m\<close> on every way out.\<close>

definition stays :: "('w \<Rightarrow> bool) \<Rightarrow> ('w, 'a) cpp \<Rightarrow> bool" where
  "stays P m \<longleftrightarrow> (\<forall>w. P w \<longrightarrow> P (snd (m w)))"

lemma stays_bnd:
  assumes "stays P m" and "\<And>a. stays P (f a)"
  shows "stays P (bnd m f)"
  unfolding stays_def
proof (intro allI impI)
  fix w assume "P w"
  obtain r w1 where m: "m w = (r, w1)" by (cases "m w")
  with assms(1) \<open>P w\<close> have "P w1" unfolding stays_def by force
  with m assms(2) show "P (snd (bnd m f w))" by (cases r) (simp_all add: bnd_def stays_def)
qed

lemma stays_andthen: "stays P m \<Longrightarrow> stays P k \<Longrightarrow> stays P (andthen m k)"
  unfolding andthen_def by (rule stays_bnd)

lemma stays_gets: "stays P (gets f)"
  by (simp add: stays_def gets_def)

lemma stays_skip: "stays P skip"
  by (simp add: stays_def skip_def ret_def)

lemma stays_modify: "(\<And>w. P w \<Longrightarrow> P (f w)) \<Longrightarrow> stays P (modify f)"
  by (simp add: stays_def modify_def)

lemma stays_when_do: "stays P m \<Longrightarrow> stays P (when_do b m)"
  by (simp add: when_do_def stays_skip)

lemma stays_option: "stays P a \<Longrightarrow> (\<And>x. stays P (b x)) \<Longrightarrow> stays P (case p of None \<Rightarrow> a | Some x \<Rightarrow> b x)"
  by (cases p) auto

lemma stays_prod: "(\<And>x y. stays P (f x y)) \<Longrightarrow> stays P (case p of (x, y) \<Rightarrow> f x y)"
  by (cases p) simp

lemmas stays = stays_bnd stays_andthen stays_gets stays_skip stays_when_do stays_option stays_prod

text \<open>A descriptor that the poll set watches, while both sockets of the session are closed.\<close>

definition left_behind :: "poco_socket_t \<Rightarrow> sid \<Rightarrow> sid \<Rightarrow> nat \<Rightarrow> world \<Rightarrow> bool" where
  "left_behind fd a b s w \<longleftrightarrow> fd \<noteq> POCO_INVALID_SOCKET \<and> fd \<in> watched_fds (pollset w)
     \<and> sockfd (socks w a) = POCO_INVALID_SOCKET \<and> sockfd (socks w b) = POCO_INVALID_SOCKET
     \<and> ss_front (sessions w s) = a \<and> ss_back (sessions w s) = b"

lemma stays_removeEventHandler:
  assumes "x = a \<or> x = b"
  shows "stays (left_behind fd a b s) (removeEventHandler x ob)"
proof -
  have rem: "left_behind fd a b s (SocketNotifier_removeObserver i ob w)" if "left_behind fd a b s w" for i w
    using that by (simp add: left_behind_def SocketNotifier_removeObserver_def NotificationCenter_removeObserver_def
        Let_def upd_notifier_def Observer_disable_def split: option.split)
  have "stays (left_behind fd a b s) (getNotifier x False)"
    by (auto simp: stays_def getNotifier_def split: option.split)
  then show ?thesis
    unfolding removeEventHandler_def using assms
    by (intro stays stays_modify rem) (auto simp: left_behind_def)
qed

lemma with_session_alive: "ss_alive (sessions w s) \<Longrightarrow> with_session s f w = f (sessions w s) w"
  by (simp add: with_session_def bnd_def gets_def)

lemma stays_dtor: "stays (left_behind fd a b s) (ProxySession_dtor s)"
proof -
  have upd: "stays (left_behind fd a b s) (upd_session s g)"
    if "\<And>x. ss_front (g x) = ss_front x \<and> ss_back (g x) = ss_back x" for g
    using that by (auto simp: upd_session_def left_behind_def intro!: stays_modify)
  have "stays (left_behind fd a b s) (UnregisterHandler s)"
    unfolding stays_def
  proof (intro allI impI)
    fix w assume w: "left_behind fd a b s w"
    let ?x = "sessions w s"
    have x: "ss_front ?x = a" "ss_back ?x = b" using w by (simp_all add: left_behind_def)
    show "left_behind fd a b s (snd (UnregisterHandler s w))"
    proof (cases "ss_alive ?x")
      case True
      have "stays (left_behind fd a b s)
          (andthen (removeEventHandler a (session_observer s Readable OnFrontReadable))
     (andthen (removeEventHandler a (session_observer s Shutdown OnFrontShutdown))
     (andthen (removeEventHandler a (session_observer s Error OnFrontError))
     (andthen (removeEventHandler b (session_observer s Writable OnBackWritable))
     (andthen (removeEventHandler b (session_observer s Readable OnBackReadable))
     (andthen (removeEventHandler b (session_observer s Shutdown OnBackShutdown))
     (andthen (removeEventHandler b (session_observer s Error OnBackError))
     (andthen (when_do (ss_front_buffer ?x) (upd_session s (\<lambda>x. x\<lparr>ss_front_buffer := False\<rparr>)))
              (when_do (ss_back_buffer ?x) (upd_session s (\<lambda>x. x\<lparr>ss_back_buffer := False\<rparr>)))))))))))"
        by (intro stays stays_removeEventHandler upd) simp_all
      with w True x show ?thesis
        by (simp add: stays_def UnregisterHandler_def with_session_alive)
    next
      case False
      with w show ?thesis by (simp add: UnregisterHandler_def with_session_def comp_simps)
    qed
  qed
  then show ?thesis unfolding ProxySession_dtor_def by (intro stays upd) simp_all
qed

text \<open>C26: \<open>Close\<close> takes the sockets out of the poll set too late. It closes both descriptors first
  and unregisters the handlers in the destructor; \<open>removeEventHandler\<close> then asks the poll set to
  remove whatever descriptor the socket has by then, which is the invalid one. So every descriptor
  of the session that \<open>poll\<close> watched before \<open>Close\<close> is still watched after it, although it is closed,
  and the next \<open>poll\<close> hands a dead descriptor to the system.\<close>

theorem Close_leaves_poll_entries:
  assumes "c_logging C \<longrightarrow> names_readable C s w" and "lifetime_ok w" and "s < nsess w"
    and "ss_alive (sessions w s)" and "\<not> ss_closed (sessions w s)"
    and "fd \<in> watched_fds (pollset w)" and "fd \<noteq> POCO_INVALID_SOCKET"
  shows "\<exists>w'. Close C s w = (Inr (), w') \<and> fd \<in> watched_fds (pollset w')
    \<and> sockfd (socks w' (ss_front (sessions w s))) = POCO_INVALID_SOCKET
    \<and> sockfd (socks w' (ss_back (sessions w s))) = POCO_INVALID_SOCKET"
proof -
  let ?x = "sessions w s"
  from Close_run_named [OF assms(1,4,5)] obtain n t where
    run: "Close C s w = ProxySession_dtor s (before_dtor s (w\<lparr>clk := n, log_text := t\<rparr>))" by blast
  let ?w = "before_dtor s (w\<lparr>clk := n, log_text := t\<rparr>)"
  have "alive_at s (ss_front ?x) (ss_back ?x) 0 0 w" using assms by (simp add: alive_at_def older_def)
  from alive_before_dtor [OF alive_clk_log [OF this]] obtain w' where w': "ProxySession_dtor s ?w = (Inr (), w')"
    using returns_dtor unfolding returns_def by fastforce
  have "left_behind fd (ss_front ?x) (ss_back ?x) s ?w"
    using assms(6,7) by (simp add: left_behind_def before_dtor_def Let_def closed_sock_def)
  with w' have "left_behind fd (ss_front ?x) (ss_back ?x) s w'"
    using stays_dtor by (fastforce simp: stays_def)
  with w' show ?thesis by (simp add: run left_behind_def)
qed

lemma watched_sample:
  "lifetime_ok (registered_world\<lparr>pollset := PollSet_add 8 1 POLL_READ empty_pollset\<rparr>)"
  by (rule lifetime_more [of registered_world])
    (simp_all add: registered_world_lifetime same_registry_def)

theorem Close_leaves_poll_entries_witness:
  "\<exists>w'. Close sample_config 0 (registered_world\<lparr>pollset := PollSet_add 8 1 POLL_READ empty_pollset\<rparr>) = (Inr (), w')
    \<and> 8 \<in> watched_fds (pollset w') \<and> sockfd (socks w' 1) = POCO_INVALID_SOCKET"
proof -
  let ?w = "registered_world\<lparr>pollset := PollSet_add 8 1 POLL_READ empty_pollset\<rparr>"
  have l: "c_logging sample_config \<longrightarrow> names_readable sample_config 0 ?w" by (simp add: sample_config_def)
  have n: "0 < nsess ?w" "ss_alive (sessions ?w 0)"
    using registered_world_alive by (simp_all add: alive_at_def)
  have c: "\<not> ss_closed (sessions ?w 0)" and b: "ss_back (sessions ?w 0) = 1"
    by (simp_all add: registered_world_sessions session_world_def)
  have f: "(8 :: poco_socket_t) \<in> watched_fds (pollset ?w)" "(8 :: poco_socket_t) \<noteq> POCO_INVALID_SOCKET"
    by (simp_all add: POCO_INVALID_SOCKET_def)
  show ?thesis
    using Close_leaves_poll_entries [OF l watched_sample n c f] b by auto
qed

end
