(* ===== verification/Session_Leak.thy ===== *)
theory Session_Leak
  imports Session_Start Reactor_Life
begin

text \<open>
  The session of a connection whose back connection is refused at once: \<open>SetService\<close> throws out of
  \<open>onAccept\<close> after the session exists and before it is registered, and no run of the reactor
  ever reaches it again.
\<close>

section \<open>What a session sees of the others' operations\<close>

definition view :: "nat \<Rightarrow> world \<Rightarrow> nat \<times> session \<times> nat set" where
  "view s w = (nsess w, sessions w s, {j. j < nobs w \<and> ob_obj (observers w j) = Some (SessionObj s)})"

lemma view_blind [frame]: "sock_blind (view s)"
  by (simp add: sock_blind_def view_def)

lemma view_getNotifier [frame]: "preserves (view s) (getNotifier x b)"
  by (auto simp: preserves_def getNotifier_def new_SocketNotifier_def view_def split: option.split)

lemma view_addEventHandler:
  assumes "ob_obj ob \<noteq> Some (SessionObj s)"
  shows "preserves (view s) (addEventHandler x ob)"
  unfolding addEventHandler_def
  by (intro frame preserves_modify)
    (use assms in \<open>auto simp: view_def addObserver_same SocketNotifier_addObserver_sel less_Suc_eq\<close>)

lemma view_removeObserver:
  assumes "ob_obj ob \<noteq> Some (SessionObj s)"
  shows "view s (SocketNotifier_removeObserver i ob w) = view s w"
proof (cases "find_observer (observers w) ob (nf_observers (notifiers w i))")
  case None
  then show ?thesis
    by (simp add: SocketNotifier_removeObserver_def NotificationCenter_removeObserver_def view_def
        upd_notifier_def Let_def split: option.split)
next
  case (Some j)
  then have "observers w j = ob" by (auto dest: find_observer_Some)
  with assms SocketNotifier_removeObserver_found [OF Some] show ?thesis
    by (auto simp: view_def removeObserver_same)
qed

lemma view_removeEventHandler:
  assumes "ob_obj ob \<noteq> Some (SessionObj s)"
  shows "preserves (view s) (removeEventHandler x ob)"
  unfolding removeEventHandler_def
  by (intro frame preserves_modify view_removeObserver [OF assms]) (simp_all add: view_def)

lemma view_upd_session [frame]: "s' \<noteq> s \<Longrightarrow> preserves (view s) (upd_session s' g)"
  by (simp add: upd_session_def preserves_modify view_def)

lemma view_svc_call [frame]: "preserves (view s) (svc_call s' e)"
  by (simp add: svc_call_def preserves_modify view_def)

lemma view_log_msg [frame]: "preserves (view s) t \<Longrightarrow> preserves (view s) (log_msg C t)"
  unfolding log_msg_def by (intro frame preserves_modify) (simp_all add: view_def)

lemma view_release [frame]: "preserves (view s) (modify (nf_release k))"
  by (simp add: preserves_modify nf_release_def view_def)

lemma view_RegisterHandler [frame]: "s' \<noteq> s \<Longrightarrow> preserves (view s) (RegisterHandler s')"
  unfolding RegisterHandler_def
  by (intro frame view_addEventHandler) (simp_all add: session_observer_def mkObserver_def)

lemma view_UnregisterHandler [frame]: "s' \<noteq> s \<Longrightarrow> preserves (view s) (UnregisterHandler s')"
  unfolding UnregisterHandler_def
  by (intro frame view_removeEventHandler) (simp_all add: session_observer_def mkObserver_def)

lemma view_dtor [frame]: "s' \<noteq> s \<Longrightarrow> preserves (view s) (ProxySession_dtor s')"
  unfolding ProxySession_dtor_def by (intro frame)

lemma view_address [frame]: "preserves (view s) (front_address C s')" "preserves (view s) (back_address C s')"
  unfolding front_address_def back_address_def by (intro frame)+

lemma view_Close [frame]: "s' \<noteq> s \<Longrightarrow> preserves (view s) (Close C s')"
  unfolding Close_def service_events by (intro frame)

lemma view_session_error [frame]: "s' \<noteq> s \<Longrightarrow> preserves (view s) (session_error C s' e)"
  unfolding session_error_def by (intro frame)

lemma view_SetService [frame]: "s' \<noteq> s \<Longrightarrow> preserves (view s) (SetService C s' v a)"
  unfolding SetService_def service_events by (intro frame)

lemma view_relay [frame]:
  "preserves (view s) (OnFrontReadable_virtual C s' x v b)" "preserves (view s) (OnBackReadable_virtual C s' x v b)"
  unfolding OnFrontReadable_virtual_def OnBackReadable_virtual_def ByPass_OnFrontReadable_def ByPass_OnBackReadable_def
  by (intro frame)+

lemma view_callback:
  assumes "s' \<noteq> s"
  shows "preserves (view s) (session_callback C s' m k)"
proof -
  have "preserves (view s) (onFrontReadable C s' k)" "preserves (view s) (onBackReadable C s' k)"
    "preserves (view s) (onBackWritable C s' k)" "preserves (view s) (onFrontShutdown C s' k)"
    "preserves (view s) (onFrontError C s' k)" "preserves (view s) (onBackShutdown C s' k)"
    "preserves (view s) (onBackError C s' k)" "preserves (view s) (onRelease k)"
    unfolding onFrontReadable_def onBackReadable_def onBackWritable_def onFrontShutdown_def onFrontError_def
      onBackShutdown_def onBackError_def onRelease_def service_events
    by (intro frame assms)+
  then show ?thesis
    unfolding session_callback_def by (intro frame) (cases m; simp add: preserves_throw)
qed

section \<open>Unreachable sessions\<close>

definition unreachable :: "nat \<Rightarrow> session \<Rightarrow> world \<Rightarrow> bool" where
  "unreachable s x w \<longleftrightarrow> s < nsess w \<and> sessions w s = x
     \<and> (\<forall>j < nobs w. ob_obj (observers w j) \<noteq> Some (SessionObj s))"

lemma unreachable_eq: "unreachable s x w \<longleftrightarrow> (case view s w of (n, y, J) \<Rightarrow> s < n \<and> y = x \<and> J = {})"
  by (auto simp: view_def unreachable_def)

lemma unreachable_view: "view s w' = view s w \<Longrightarrow> unreachable s x w \<Longrightarrow> unreachable s x w'"
  by (simp add: unreachable_eq)

lemma stays_view: "preserves (view s) m \<Longrightarrow> stays (unreachable s x) m"
  unfolding stays_def preserves_def by (blast intro: unreachable_view)

text \<open>The acceptor creates sessions of other names.\<close>

definition makes_other :: "nat \<Rightarrow> session \<Rightarrow> nat proxy \<Rightarrow> bool" where
  "makes_other s x m \<longleftrightarrow> (\<forall>w. unreachable s x w \<longrightarrow> unreachable s x (snd (m w)) \<and> (\<forall>a. fst (m w) = Inr a \<longrightarrow> a \<noteq> s))"

lemma makes_other_after: "stays (unreachable s x) m \<Longrightarrow> (\<And>a. makes_other s x (f a)) \<Longrightarrow> makes_other s x (bnd m f)"
  unfolding makes_other_def stays_def bnd_def by (auto split: prod.splits sum.splits) (metis snd_conv)+

lemma makes_other_new: "makes_other s x (bnd (gets nsess) (\<lambda>s'. andthen (modify (\<lambda>w. w\<lparr>nsess := Suc s',
    sessions := (sessions w)(s' := y)\<rparr>)) (ret s')))"
  by (auto simp: makes_other_def comp_simps unreachable_def)

lemma makes_other_ctor: "makes_other s x (ProxySession_ctor C front)"
  unfolding ProxySession_ctor_def andthen_def [of "log_msg C m" for m]
  by (intro makes_other_after stays_view makes_other_new) (intro frame)+

lemma makes_other_catch:
  assumes "makes_other s x m" and "\<And>e. preserves (view s) (h e)" and "\<And>e w. \<exists>d. fst (h e w) = Inl d"
  shows "makes_other s x (catch_poco m h)"
  unfolding makes_other_def
proof (intro allI impI)
  fix w assume w: "unreachable s x w"
  show "unreachable s x (snd (catch_poco m h w)) \<and> (\<forall>a. fst (catch_poco m h w) = Inr a \<longrightarrow> a \<noteq> s)"
  proof (cases "m w" rule: result_cases)
    case (Throws c t n w1)
    with assms(1) w have "unreachable s x w1" unfolding makes_other_def by force
    with stays_view [OF assms(2)] have "unreachable s x (snd (h (Poco c t n) w1))" by (simp add: stays_def)
    with Throws assms(3) [of "Poco c t n" w1] show ?thesis by (auto simp: catch_poco_def)
  qed (use assms(1) w in \<open>force simp: catch_poco_def makes_other_def\<close>)+
qed

lemma stays_makes_other:
  assumes "makes_other s x m" and "\<And>a. a \<noteq> s \<Longrightarrow> stays (unreachable s x) (f a)"
  shows "stays (unreachable s x) (bnd m f)"
  unfolding stays_def
proof (intro allI impI)
  fix w assume w: "unreachable s x w"
  obtain r w1 where m: "m w = (r, w1)" by (cases "m w")
  with assms(1) w have w1: "unreachable s x w1" "\<forall>a. r = Inr a \<longrightarrow> a \<noteq> s" unfolding makes_other_def by force+
  with m assms(2) show "unreachable s x (snd (bnd m f w))" by (cases r) (auto simp: bnd_def stays_def)
qed

lemma stays_createServiceHandler: "stays (unreachable s x) (createServiceHandler C front)"
  unfolding createServiceHandler_def
proof (rule stays_makes_other [OF makes_other_catch [OF makes_other_ctor]])
  show "preserves (view s) (andthen (SocketImpl_close front) (throw e))" for e :: exn
    by (intro frame)
  show "\<exists>d. fst (andthen (SocketImpl_close front) (throw e) w) = Inl d" for e w
    by (simp add: andthen_def bnd_def throw_def SocketImpl_close_run)
  show "stays (unreachable s x)
      (bnd (gets (\<lambda>w. (c_creator C (ss_front (sessions w a)) (ss_back (sessions w a)), acc_back_addr w)))
        (\<lambda>(v, b). SetService C a v b))" if "a \<noteq> s" for a
    using that by (intro stays_view frame)
qed

lemma stays_onAccept: "stays (unreachable s x) (onAccept C k)"
  unfolding onAccept_def
  by (intro stays stays_view [OF view_release])
    (auto intro!: stays_view [OF preserves_throw] stays stays_createServiceHandler stays_view [OF blind_acceptConnection]
      view_blind split: prod.split)

section \<open>The reactor never reaches them\<close>

lemma unreachable_stable: "reactor_stable (unreachable s x)"
  by (simp add: reactor_stable_def unreachable_def)

lemma outcome_conj: "outcome Q E r \<Longrightarrow> P (snd r) \<Longrightarrow> outcome (\<lambda>a w. Q a w \<and> P w) (\<lambda>w. E w \<and> P w) r"
  by (cases r rule: result_cases) auto

lemma callback_unreachable:
  assumes S: "send_documented (c_os C)"
  shows "valid (\<lambda>w. (lifetime_ok w \<and> unreachable s x w) \<and> older N M w \<and> (\<exists>j < nobs w. observers w j = mkObserver p k m))
    (proxy_dispatch C p m k) (\<lambda>_ w. (lifetime_ok w \<and> unreachable s x w) \<and> older N M w)
    (\<lambda>w. (lifetime_ok w \<and> unreachable s x w) \<and> older N M w)"
proof (rule validI, elim conjE)
  fix w assume w: "lifetime_ok w" "unreachable s x w" "older N M w" "\<exists>j < nobs w. observers w j = mkObserver p k m"
  from w(2,4) have p: "p \<noteq> SessionObj s" by (auto simp: unreachable_def mkObserver_def)
  have "stays (unreachable s x) (proxy_dispatch C p m k)"
    using p by (cases p) (auto simp: proxy_dispatch_def intro!: stays_view view_callback stays_onAccept preserves_throw)
  with w(2) have "unreachable s x (snd (proxy_dispatch C p m k w))" by (simp add: stays_def)
  moreover have "outcome (\<lambda>_ w. lifetime_ok w \<and> older N M w) (\<lambda>w. lifetime_ok w \<and> older N M w)
      (proxy_dispatch C p m k w)"
    by (rule validD [OF callback_safe [OF S]]) (use w in blast)
  ultimately have "outcome (\<lambda>_ w. (lifetime_ok w \<and> older N M w) \<and> unreachable s x w)
      (\<lambda>w. (lifetime_ok w \<and> older N M w) \<and> unreachable s x w) (proxy_dispatch C p m k w)"
    by (intro outcome_conj [where P = "unreachable s x"])
  then show "outcome (\<lambda>_ w. (lifetime_ok w \<and> unreachable s x w) \<and> older N M w)
      (\<lambda>w. (lifetime_ok w \<and> unreachable s x w) \<and> older N M w) (proxy_dispatch C p m k w)"
    by (rule outcome_mono) auto
qed

interpretation leak: reactor_client "proxy_dispatch (documented C)" "\<lambda>w. lifetime_ok w \<and> unreachable s x w" for C s x
  by unfold_locales (intro reactor_stable_poll reactor_stable_conj lifetime_stable unreachable_stable, simp add: lifetime_registry,
    rule callback_unreachable [OF documented_send])

section \<open>Property\<close>

text \<open>C11: A back connection that is refused at once leaks its session. \<open>onAccept\<close> throws; both sockets are
  open, the session is alive and the service exists, but the service is told nothing and no observer
  refers to the session; and no run of the event loop, however long, reaches the session again: unless a
  system call is interrupted without end, its record is afterwards as it was, not closed, with no
  observer.\<close>

theorem refused_connect_leaks:
  assumes "send_documented (c_os C)" and "lifetime_ok w" and "connection_waits C w fd" and "back_socket_opens C w bfd"
    and "\<not> connect_started (back_connects C w bfd)"
  shows "\<exists>e w'. onAccept C k w = (Inl e, w') \<and> session_made C fd bfd w w' \<and> svc_log w' = svc_log w
    \<and> unreachable (nsess w) (sessions w' (nsess w)) w'
    \<and> (\<forall>turns. case reactor_run (proxy_dispatch C) (c_os C) turns w' of (r, w'') \<Rightarrow>
        r = Inl Diverge \<or> unreachable (nsess w) (sessions w' (nsess w)) w'')"
proof -
  obtain t where run: "onAccept C k w = andthen (SocketImpl_connectNB (c_os C) (Suc (nsock w)) (acc_back_addr w))
      (andthen (RegisterHandler (nsess w))
        (if c_creator C (nsock w) (Suc (nsock w)) = None then skip else OnFrontConnect (nsess w)))
      ((made_world C fd k w)\<lparr>clk := connect_clk C w, log_text := t\<rparr>)"
    using accept_to_connect [OF assms(3)] by blast
  let ?o = "opened_world C fd bfd k w t"
  obtain c t' n where "SocketImpl_connectNB (c_os C) (Suc (nsock w)) (acc_back_addr w)
      ((made_world C fd k w)\<lparr>clk := connect_clk C w, log_text := t\<rparr>) = (Inl (Poco c t' n), ?o)"
    using connectNB_refused [OF assms(4,5)] by blast
  then have fail: "onAccept C k w = (Inl (Poco c t' n), ?o)" unfolding run andthen_def bnd_def by simp
  have un: "unreachable (nsess w) (sessions ?o (nsess w)) ?o"
    using no_observer_yet [OF assms(2)] by (simp add: unreachable_def opened_world_sel)
  have "outcome (\<lambda>_. unreachable (nsess w) (sessions ?o (nsess w))) (unreachable (nsess w) (sessions ?o (nsess w)))
      (reactor_run (proxy_dispatch C) (c_os C) turns ?o)" for turns
    using validD [OF leak.keeps_run [where C = C and s = "nsess w" and x = "sessions ?o (nsess w)" and S = "c_os C" and turns = turns, unfolded keeps_def], of ?o]
      un opened_world_lifetime [OF assms(2)] outcome_mono
    by (simp add: documented_id [OF assms(1)]) (erule outcome_mono; simp)
  moreover have "outcome (\<lambda>_. P) P z \<Longrightarrow> fst z = Inl Diverge \<or> P (snd z)" for P and z :: "(exn + unit) \<times> world"
    by (cases z rule: result_cases) auto
  ultimately have later: "case reactor_run (proxy_dispatch C) (c_os C) turns ?o of (r, w'') \<Rightarrow>
      r = Inl Diverge \<or> unreachable (nsess w) (sessions ?o (nsess w)) w''" for turns
    by (simp add: case_prod_beta)
  show ?thesis
    using fail opened_world_made [OF assms(2)] un later by (intro exI conjI allI) (assumption | simp add: opened_world_sel)+
qed

text \<open>Every \<open>connect\<close> answers that the network is down.\<close>

definition refusing_config :: config where
  "refusing_config = sample_config\<lparr>c_os := sample_os\<lparr>os_connect := \<lambda>_ _ _. Err ENETDOWN\<rparr>\<rparr>"

theorem refused_connect_leaks_witness:
  "\<exists>e w'. onAccept refusing_config Readable accepting_world = (Inl e, w') \<and> nsess w' = 1
    \<and> sockfd (socks w' 1) = 1 \<and> sockfd (socks w' 2) = 2
    \<and> (\<forall>turns. case reactor_run (proxy_dispatch refusing_config) (c_os refusing_config) turns w' of (r, w'') \<Rightarrow>
        r = Inl Diverge \<or> unreachable 0 (sessions w' 0) w'')"
proof -
  have S: "send_documented (c_os refusing_config)"
    using sample_send_documented by (simp add: refusing_config_def send_documented_def)
  have "connection_waits refusing_config accepting_world 1" "back_socket_opens refusing_config accepting_world 2"
    "\<not> connect_started (back_connects refusing_config accepting_world 2)"
    by (simp_all add: connection_waits_def back_socket_opens_def back_connects_def connect_clk_def refusing_config_def
        accepting_world_facts sample_config_def sample_os_def POCO_INVALID_SOCKET_def sample_sock_def)
  from refused_connect_leaks [OF S accepting_world_lifetime this, of Readable] show ?thesis
    by (auto simp: session_made_def accepting_world_facts new_socket_impl_def numeral_2_eq_2)
qed

end
