(* ===== verification/Server_Threads.thy ===== *)
theory Server_Threads
  imports Prelude
begin

text \<open>
  The two threads of \<open>CPOCOProxyServer\<close> as a step relation. The caller runs \<open>Activate\<close> and
  \<open>Deactivate\<close> one statement at a time, the worker the lambda of \<open>Activate\<close> with
  \<open>ThreadLoop\<close>. They share \<open>m_thread_running\<close>, the pointer \<open>m_reactor\<close> and the reactor's
  stop flag. What the reactor does between two looks at the flag is \<open>Server.ThreadLoop\<close>.

  The steps of the two threads interleave one statement at a time. \<open>m_thread_running\<close> is atomic, but
  \<open>m_reactor\<close> is read by the caller and written by the worker without synchronisation, which C++
  leaves undefined; the model gives it the meaning of a sequentially consistent interleaving, so
  what is proved here holds of an execution only as far as the hardware and the compiler keep that
  order. The null call that such an interleaving can make is in the model (\<open>NullReactor\<close>).
\<close>

section \<open>State\<close>

record server_cfg =
  m_front_port :: int
  m_back_ip :: string
  m_back_port :: int

definition CPOCOProxyServer_default :: server_cfg where
  "CPOCOProxyServer_default = \<lparr>m_front_port = 1470, m_back_ip = ''localhost'', m_back_port = 4242\<rparr>"

text \<open>
  The caller's position: idle, before the test of \<open>m_thread_running\<close> in \<open>Activate\<close>, before
  the assignments, before the join and before the creation of the thread; in \<open>Deactivate\<close>
  before the test of \<open>m_reactor\<close>, before \<open>stop()\<close> and before the join. \<open>Terminated\<close> is
  \<open>std::terminate\<close>, called by the assignment to a joinable thread; \<open>NullReactor\<close> the undefined
  behaviour of \<open>stop()\<close> through a null pointer.
\<close>

datatype caller_pc =
    Idle | ActCheck server_cfg | ActSet server_cfg | ActJoin | ActSpawn
  | DeactCheck | DeactStop | DeactJoin | Terminated | NullReactor

text \<open>
  The worker's position: before \<open>m_thread_running = true\<close>, before the address and the reactor
  are made, before the server socket and the acceptor are made, in the reactor's loop, before
  each \<open>reset()\<close>, before \<open>m_thread_running = false\<close>, and finished.
\<close>

datatype worker_pc =
    WStart | WAddress | WSocket | WLoop | WResetAcceptor | WResetReactor | WResetSocket | WClear | WDone

text \<open>
  \<open>sv_thread\<close> is \<open>None\<close> when \<open>m_thread\<close> is not joinable. \<open>sv_reactor\<close> is the pointer: null
  or the stop flag of the reactor it points to. \<open>sv_result\<close> is the last result returned.
\<close>

record server =
  sv_cfg :: server_cfg
  sv_caller :: caller_pc
  sv_thread :: "worker_pc option"
  sv_running :: bool
  sv_reactor :: "bool option"
  sv_result :: "bool option"

definition CPOCOProxyServer_ctor :: server where
  "CPOCOProxyServer_ctor = \<lparr>sv_cfg = CPOCOProxyServer_default, sv_caller = Idle, sv_thread = None,
     sv_running = False, sv_reactor = None, sv_result = None\<rparr>"

section \<open>Steps\<close>

definition joined :: "server \<Rightarrow> bool" where
  "joined s \<longleftrightarrow> sv_thread s = None \<or> sv_thread s = Some WDone"

text \<open>One step of the caller inside a call; \<open>None\<close> when it has to wait (\<open>join\<close>) or is idle.\<close>

definition caller_step :: "server \<Rightarrow> server option" where
  "caller_step s = (case sv_caller s of
      Idle \<Rightarrow> None
    | Terminated \<Rightarrow> None
    | NullReactor \<Rightarrow> None
    | ActCheck c \<Rightarrow> Some (if sv_running s then s\<lparr>sv_caller := Idle, sv_result := Some False\<rparr>
                          else s\<lparr>sv_caller := ActSet c\<rparr>)
    | ActSet c \<Rightarrow> Some (s\<lparr>sv_cfg := c, sv_caller := ActJoin\<rparr>)
    | ActJoin \<Rightarrow> if joined s then Some (s\<lparr>sv_thread := None, sv_caller := ActSpawn\<rparr>) else None
    | ActSpawn \<Rightarrow> Some (if sv_thread s \<noteq> None then s\<lparr>sv_caller := Terminated\<rparr>
                        else s\<lparr>sv_thread := Some WStart, sv_caller := Idle, sv_result := Some True\<rparr>)
    | DeactCheck \<Rightarrow> Some (s\<lparr>sv_caller := (if sv_reactor s = None then DeactJoin else DeactStop)\<rparr>)
    | DeactStop \<Rightarrow> Some (case sv_reactor s of
          None \<Rightarrow> s\<lparr>sv_caller := NullReactor\<rparr>
        | Some _ \<Rightarrow> s\<lparr>sv_reactor := Some True, sv_caller := DeactJoin\<rparr>)
    | DeactJoin \<Rightarrow> if joined s then Some (s\<lparr>sv_thread := None, sv_caller := Idle, sv_result := Some True\<rparr>)
                   else None)"

text \<open>
  The worker's steps. \<open>ok\<close> is whether the constructors of this step return; if one throws, the
  thread goes on with the resets. \<open>WLoop\<close> ends when the reactor finds its flag set.
\<close>

definition at_worker :: "worker_pc \<Rightarrow> server \<Rightarrow> server" where
  "at_worker p s = s\<lparr>sv_thread := Some p\<rparr>"

definition worker_step :: "bool \<Rightarrow> server \<Rightarrow> server option" where
  "worker_step ok s = (case sv_thread s of
      None \<Rightarrow> None
    | Some WDone \<Rightarrow> None
    | Some WStart \<Rightarrow> Some (at_worker WAddress (s\<lparr>sv_running := True\<rparr>))
    | Some WAddress \<Rightarrow> Some (if ok then at_worker WSocket (s\<lparr>sv_reactor := Some False\<rparr>)
                             else at_worker WResetAcceptor s)
    | Some WSocket \<Rightarrow> Some (at_worker (if ok then WLoop else WResetAcceptor) s)
    | Some WLoop \<Rightarrow> if sv_reactor s = Some True then Some (at_worker WResetAcceptor s) else None
    | Some WResetAcceptor \<Rightarrow> Some (at_worker WResetReactor s)
    | Some WResetReactor \<Rightarrow> Some (at_worker WResetSocket (s\<lparr>sv_reactor := None\<rparr>))
    | Some WResetSocket \<Rightarrow> Some (at_worker WClear s)
    | Some WClear \<Rightarrow> Some (at_worker WDone (s\<lparr>sv_running := False\<rparr>)))"

inductive server_step :: "server \<Rightarrow> server \<Rightarrow> bool" where
  CallActivate: "sv_caller s = Idle \<Longrightarrow> server_step s (s\<lparr>sv_caller := ActCheck c\<rparr>)"
| CallDeactivate: "sv_caller s = Idle \<Longrightarrow> server_step s (s\<lparr>sv_caller := DeactCheck\<rparr>)"
| Caller: "caller_step s = Some s' \<Longrightarrow> server_step s s'"
| Worker: "worker_step ok s = Some s' \<Longrightarrow> server_step s s'"

inductive_cases server_stepE: "server_step s s'"

inductive server_reach :: "server \<Rightarrow> bool" where
  Start: "server_reach CPOCOProxyServer_ctor"
| Next: "server_reach s \<Longrightarrow> server_step s s' \<Longrightarrow> server_reach s'"

section \<open>Invariant\<close>

text \<open>
  The pointer \<open>m_reactor\<close> is non-null exactly while the worker is between its creation and its
  reset, the flag \<open>m_thread_running\<close> is set only by a live worker, and no thread is joinable
  when a new one is about to be assigned.
\<close>

definition reactor_phase :: "worker_pc option \<Rightarrow> bool" where
  "reactor_phase t \<longleftrightarrow> t = Some WSocket \<or> t = Some WLoop \<or> t = Some WResetAcceptor \<or> t = Some WResetReactor"

definition server_inv :: "server \<Rightarrow> bool" where
  "server_inv s \<longleftrightarrow>
     (sv_reactor s \<noteq> None \<longrightarrow> reactor_phase (sv_thread s))
     \<and> (sv_thread s = Some WSocket \<or> sv_thread s = Some WLoop \<longrightarrow> sv_reactor s \<noteq> None)
     \<and> (sv_running s \<longleftrightarrow> sv_thread s \<noteq> None \<and> sv_thread s \<noteq> Some WStart \<and> sv_thread s \<noteq> Some WDone)
     \<and> (sv_caller s = ActSpawn \<longrightarrow> sv_thread s = None)
     \<and> sv_caller s \<noteq> Terminated"

lemma server_inv_init: "server_inv CPOCOProxyServer_ctor"
  by (simp add: server_inv_def reactor_phase_def CPOCOProxyServer_ctor_def)

lemma server_inv_caller: "server_inv s \<Longrightarrow> pred_option server_inv (caller_step s)"
  by (cases "sv_caller s"; cases "sv_reactor s";
      simp add: caller_step_def server_inv_def joined_def reactor_phase_def; fastforce?)

lemma server_inv_worker:
  assumes "server_inv s" and "worker_step ok s = Some s'"
  shows "server_inv s'"
proof (cases "sv_thread s")
  case (Some p)
  with assms show ?thesis
    by (cases p) (auto simp: server_inv_def worker_step_def at_worker_def reactor_phase_def
        split: if_splits)
qed (use assms in \<open>simp add: worker_step_def\<close>)

lemma server_inv_step: "server_step s s' \<Longrightarrow> server_inv s \<Longrightarrow> server_inv s'"
proof (induction rule: server_step.induct)
  case (Caller s s')
  then show ?case using server_inv_caller [of s] by simp
next
  case (Worker ok s s')
  then show ?case by (rule server_inv_worker [rotated])
qed (auto simp: server_inv_def)

lemma server_reach_inv: "server_reach s \<Longrightarrow> server_inv s"
  by (induction rule: server_reach.induct) (auto simp: server_inv_init intro: server_inv_step)

section \<open>What the callers can rely on\<close>

lemma idle_thread: "server_inv s \<Longrightarrow> joined s \<Longrightarrow> sv_reactor s = None \<and> \<not> sv_running s"
  by (auto simp: server_inv_def joined_def reactor_phase_def)













section \<open>Clients\<close>

text \<open>
  A program that owns a server: whatever it does to the server is a call, a step of a call in
  progress or a step of the worker. What holds of every caller holds in every state it reaches.
\<close>

locale server_client =
  fixes step :: "'a \<Rightarrow> 'a \<Rightarrow> bool" and start :: 'a and server_of :: "'a \<Rightarrow> server"
  assumes start_server: "server_of start = CPOCOProxyServer_ctor"
    and step_server: "step a a' \<Longrightarrow> server_of a' = server_of a \<or> server_step (server_of a) (server_of a')"
begin

lemma server_reached: "step\<^sup>*\<^sup>* start a \<Longrightarrow> server_reach (server_of a)"
proof (induction rule: rtranclp_induct)
  case base
  then show ?case by (simp add: start_server server_reach.Start)
next
  case (step a a')
  with step_server [OF step.hyps(2)] show ?case by (auto intro: server_reach.Next)
qed

lemma client_inv: "step\<^sup>*\<^sup>* start a \<Longrightarrow> server_inv (server_of a)"
  by (rule server_reach_inv [OF server_reached])

lemma client_joined:
  "step\<^sup>*\<^sup>* start a \<Longrightarrow> joined (server_of a) \<Longrightarrow> sv_reactor (server_of a) = None \<and> \<not> sv_running (server_of a)"
  by (rule idle_thread [OF client_inv])

end

section \<open>Runs\<close>

text \<open>A schedule: the caller's next call or step, or the worker's with the outcome of its constructors.\<close>

datatype sched = Call_Activate server_cfg | Call_Deactivate | CallerStep | WorkerStep bool

fun run_sched :: "sched list \<Rightarrow> server \<Rightarrow> server option" where
  "run_sched [] s = Some s"
| "run_sched (Call_Activate c # cs) s =
     (if sv_caller s = Idle then run_sched cs (s\<lparr>sv_caller := ActCheck c\<rparr>) else None)"
| "run_sched (Call_Deactivate # cs) s =
     (if sv_caller s = Idle then run_sched cs (s\<lparr>sv_caller := DeactCheck\<rparr>) else None)"
| "run_sched (CallerStep # cs) s = Option.bind (caller_step s) (run_sched cs)"
| "run_sched (WorkerStep ok # cs) s = Option.bind (worker_step ok s) (run_sched cs)"

lemma run_sched_reach:
  "run_sched cs s = Some s' \<Longrightarrow> server_reach s \<Longrightarrow> server_reach s'"
proof (induction cs s rule: run_sched.induct)
  case (2 c cs s)
  then show ?case by (auto split: if_splits intro: server_reach.Next server_step.CallActivate)
next
  case (3 cs s)
  then show ?case by (auto split: if_splits intro: server_reach.Next server_step.CallDeactivate)
next
  case (4 cs s)
  then show ?case by (auto simp: bind_eq_Some_conv intro: server_reach.Next server_step.Caller)
next
  case (5 ok cs s)
  then obtain s1 where "worker_step ok s = Some s1" "run_sched cs s1 = Some s'"
    by (auto simp: bind_eq_Some_conv)
  with 5 show ?case by (blast intro: server_reach.Next server_step.Worker)
qed simp

lemmas sched_simps = caller_step_def worker_step_def at_worker_def joined_def
  CPOCOProxyServer_ctor_def CPOCOProxyServer_default_def

definition activation :: "sched list" where
  "activation = [Call_Activate CPOCOProxyServer_default, CallerStep, CallerStep, CallerStep, CallerStep]"

definition stuck :: "server \<Rightarrow> bool" where
  "stuck s \<longleftrightarrow> caller_step s = None \<and> sv_caller s \<noteq> Idle \<and> worker_step True s = None \<and> worker_step False s = None"

lemma stuck_no_step: "stuck s \<Longrightarrow> \<not> server_step s s'"
proof
  assume s: "stuck s" "server_step s s'"
  from s(2) show False
  proof (cases rule: server_step.cases)
    case (Worker ok)
    with s(1) show False by (cases ok) (auto simp: stuck_def)
  qed (use s(1) in \<open>auto simp: stuck_def\<close>)
qed

lemma run_deactivate_stuck:
  "\<exists>s. run_sched (activation @ [Call_Deactivate, CallerStep, WorkerStep True, WorkerStep True, WorkerStep True])
     CPOCOProxyServer_ctor = Some s \<and> stuck s \<and> sv_caller s = DeactJoin \<and> sv_thread s = Some WLoop"
  by (simp add: activation_def sched_simps stuck_def)

lemma run_activate_stuck:
  "\<exists>s. run_sched (activation @ [Call_Activate CPOCOProxyServer_default, CallerStep, CallerStep,
      WorkerStep True, WorkerStep True, WorkerStep True])
     CPOCOProxyServer_ctor = Some s \<and> stuck s \<and> sv_caller s = ActJoin \<and> sv_thread s = Some WLoop"
  by (simp add: activation_def sched_simps stuck_def)

lemma run_null_reactor:
  "\<exists>s. run_sched (activation @ [WorkerStep True, WorkerStep True, Call_Deactivate, CallerStep,
      WorkerStep False, WorkerStep True, WorkerStep True, CallerStep])
     CPOCOProxyServer_ctor = Some s \<and> sv_caller s = NullReactor"
  by (simp add: activation_def sched_simps)

section \<open>Properties\<close>

text \<open>C16: \<open>Activate\<close> never assigns to a joinable \<open>std::thread\<close> (which would terminate the
  program): at any time there is at most one worker, and once it is finished or joined the
  reactor pointer is null and the running flag is clear.\<close>

theorem server_one_worker:
  assumes "server_reach s"
  shows "sv_caller s \<noteq> Terminated
    \<and> (sv_caller s = ActSpawn \<longrightarrow> sv_thread s = None)
    \<and> (joined s \<longrightarrow> sv_reactor s = None \<and> \<not> sv_running s)"
  using server_reach_inv [OF assms] idle_thread [of s] unfolding server_inv_def by blast

definition second_activation :: "sched list" where
  "second_activation = activation @ [WorkerStep True, WorkerStep False] @ replicate 4 (WorkerStep True)
     @ [Call_Activate CPOCOProxyServer_default, CallerStep, CallerStep, CallerStep]"

lemma second_activation_run: "\<exists>s. run_sched second_activation CPOCOProxyServer_ctor = Some s
    \<and> sv_caller s = ActSpawn"
  by (simp add: second_activation_def activation_def sched_simps eval_nat_numeral)

theorem server_one_worker_witness:
  "\<exists>s. run_sched second_activation CPOCOProxyServer_ctor = Some s \<and> sv_caller s = ActSpawn
     \<and> sv_thread s = None \<and> sv_reactor s = None \<and> \<not> sv_running s"
proof -
  obtain s where s: "run_sched second_activation CPOCOProxyServer_ctor = Some s" "sv_caller s = ActSpawn"
    using second_activation_run by blast
  have "server_reach s" by (rule run_sched_reach [OF s(1) server_reach.Start])
  from server_one_worker [OF this] s show ?thesis by (auto simp: joined_def)
qed

text \<open>C17: When \<open>Deactivate\<close> returns the worker has been joined, the reactor is destroyed and the
  running flag is clear, so a following \<open>Activate\<close> is accepted.\<close>

theorem deactivate_post:
  assumes "server_reach s" and "sv_caller s = DeactJoin" and "server_step s s'" and "sv_caller s' = Idle"
  shows "sv_thread s' = None \<and> sv_reactor s' = None \<and> \<not> sv_running s' \<and> sv_result s' = Some True"
proof -
  have "server_inv s'" using server_reach_inv server_reach.Next assms(1,3) by blast
  moreover have "sv_thread s' = None \<and> sv_result s' = Some True"
    using assms(3)
  proof (cases rule: server_step.cases)
    case (Worker ok)
    then have "sv_caller s' = sv_caller s"
      by (auto simp: worker_step_def at_worker_def split: option.splits worker_pc.splits if_splits)
    with assms(2,4) show ?thesis by simp
  qed (use assms(2) in \<open>auto simp: caller_step_def split: if_splits\<close>)
  ultimately show ?thesis using idle_thread [of s'] by (simp add: joined_def)
qed

definition served :: "sched list" where
  "served = activation @ [WorkerStep True, WorkerStep True, WorkerStep True, Call_Deactivate,
     CallerStep, CallerStep]"


lemma stopped_run: "\<exists>s s'. run_sched (served @ replicate 5 (WorkerStep True)) CPOCOProxyServer_ctor = Some s
    \<and> sv_caller s = DeactJoin \<and> caller_step s = Some s' \<and> sv_caller s' = Idle"
  by (simp add: served_def activation_def sched_simps eval_nat_numeral)



theorem deactivate_post_witness:
  "\<exists>s s'. run_sched (served @ replicate 5 (WorkerStep True)) CPOCOProxyServer_ctor = Some s
     \<and> caller_step s = Some s' \<and> sv_thread s' = None \<and> sv_reactor s' = None \<and> \<not> sv_running s'
     \<and> sv_result s' = Some True"
proof -
  from stopped_run obtain s s' where s: "sv_caller s = DeactJoin" "caller_step s = Some s'" "sv_caller s' = Idle"
    "run_sched (served @ replicate 5 (WorkerStep True)) CPOCOProxyServer_ctor = Some s" by blast
  have "server_reach s" by (rule run_sched_reach [OF s(4) server_reach.Start])
  from deactivate_post [OF this s(1) server_step.Caller [OF s(2)] s(3)] s(2,4) show ?thesis by blast
qed



text \<open>A \<open>Deactivate\<close> called before the worker has created its reactor never returns: it finds
  \<open>m_reactor\<close> null, so nobody sets the stop flag of the reactor the worker creates afterwards, and
  \<open>join\<close> waits for a loop that does not end.\<close>

theorem deactivate_can_hang:
  "\<exists>s. server_reach s \<and> sv_caller s = DeactJoin \<and> sv_thread s = Some WLoop
     \<and> sv_reactor s = Some False \<and> (\<nexists>s'. server_step s s')"
proof -
  from run_deactivate_stuck obtain s where s: "run_sched (activation @ [Call_Deactivate, CallerStep,
      WorkerStep True, WorkerStep True, WorkerStep True]) CPOCOProxyServer_ctor = Some s"
    "stuck s" "sv_caller s = DeactJoin" "sv_thread s = Some WLoop" by blast
  have r: "server_reach s" by (rule run_sched_reach [OF s(1) server_reach.Start])
  then have "sv_reactor s \<noteq> None" using server_reach_inv s(4) by (auto simp: server_inv_def)
  moreover have "sv_reactor s \<noteq> Some True" using s(2,4) by (auto simp: stuck_def worker_step_def)
  ultimately show ?thesis using r s stuck_no_step by (cases "sv_reactor s") auto
qed

text \<open>Two \<open>Activate\<close> calls in a row can hang: until the worker has set \<open>m_thread_running\<close> the second
  call passes the guard and joins a thread that nobody stops.\<close>

theorem activate_twice_can_hang:
  "\<exists>s. server_reach s \<and> sv_caller s = ActJoin \<and> sv_thread s = Some WLoop \<and> (\<nexists>s'. server_step s s')"
proof -
  from run_activate_stuck obtain s where s: "run_sched (activation @ [Call_Activate CPOCOProxyServer_default,
      CallerStep, CallerStep, WorkerStep True, WorkerStep True, WorkerStep True]) CPOCOProxyServer_ctor = Some s"
    "stuck s" "sv_caller s = ActJoin" "sv_thread s = Some WLoop" by blast
  have "server_reach s" by (rule run_sched_reach [OF s(1) server_reach.Start])
  with s stuck_no_step show ?thesis by blast
qed

text \<open>\<open>Deactivate\<close> can call \<open>stop()\<close> through a null pointer: the worker whose server socket cannot be
  opened resets \<open>m_reactor\<close> between the caller's test and its use.\<close>

theorem deactivate_can_crash: "\<exists>s. server_reach s \<and> sv_caller s = NullReactor"
  using run_null_reactor run_sched_reach [OF _ server_reach.Start] by blast

end
