(* ===== verification/Dialog.thy ===== *)
theory Dialog
  imports Server_Threads
begin

text \<open>
  The dialog of \<open>EmulatorDlg.cpp\<close> and what it does with the server. The dialog is the caller of
  \<open>Server_Threads\<close>: its handlers run one after the other in the thread of the user interface, and
  that thread stays in \<open>Activate\<close> or \<open>Deactivate\<close> until the call returns, while the worker goes on.
\<close>

section \<open>State\<close>

text \<open>
  The members of the dialog, the texts of its three edit boxes, the state of the button, which is
  an automatic check box (\<open>Emulator.rc\<close>), whether the timer is set and whether window and object
  exist. \<open>sv_cfg\<close> of the server holds the server's own copies of the members.
\<close>

record dialog =
  dm_front_port :: int
  dm_back_ip :: string
  dm_back_port :: int
  dc_front_port :: string
  dc_back_ip :: string
  dc_back_port :: string
  dc_activate :: bool
  dlg_timer :: bool
  dlg_window :: bool
  dlg_object :: bool

text \<open>What \<open>DDX_Text\<close> of MFC does with an \<open>int\<close>: reading a text, which can fail, and printing.\<close>

record mfc =
  scan :: "string \<Rightarrow> int option"
  print :: "int \<Rightarrow> string"

section \<open>Operations\<close>

definition EmulatorDlg_ctor :: dialog where
  "EmulatorDlg_ctor = \<lparr>dm_front_port = 1470, dm_back_ip = ''127.0.0.1'', dm_back_port = 4242,
     dc_front_port = '''', dc_back_ip = '''', dc_back_port = '''', dc_activate = False,
     dlg_timer = False, dlg_window = False, dlg_object = True\<rparr>"

definition GetButtonCheck :: "dialog \<Rightarrow> bool" where
  "GetButtonCheck d = dc_activate d"

definition SetButtonCheck :: "dialog \<Rightarrow> bool \<Rightarrow> dialog" where
  "SetButtonCheck d value = d\<lparr>dc_activate := value\<rparr>"

text \<open>
  The three exchanges in their order. A text that cannot be read throws: the members read before
  it keep their new values. The \<open>bool\<close> is what \<open>UpdateData\<close> returns.
\<close>

definition DoDataExchange_save :: "mfc \<Rightarrow> dialog \<Rightarrow> dialog \<times> bool" where
  "DoDataExchange_save M d =
    (case scan M (dc_front_port d) of
       None \<Rightarrow> (d, False)
     | Some p \<Rightarrow>
         (let d = d\<lparr>dm_front_port := p\<rparr>; d = d\<lparr>dm_back_ip := dc_back_ip d\<rparr>
          in case scan M (dc_back_port d) of
               None \<Rightarrow> (d, False)
             | Some q \<Rightarrow> (d\<lparr>dm_back_port := q\<rparr>, True)))"

definition DoDataExchange_load :: "mfc \<Rightarrow> dialog \<Rightarrow> dialog" where
  "DoDataExchange_load M d =
    d\<lparr>dc_front_port := print M (dm_front_port d), dc_back_ip := dm_back_ip d,
      dc_back_port := print M (dm_back_port d)\<rparr>"

definition UpdateData :: "mfc \<Rightarrow> bool \<Rightarrow> dialog \<Rightarrow> dialog \<times> bool" where
  "UpdateData M save d = (if save then DoDataExchange_save M d else (DoDataExchange_load M d, True))"

text \<open>A call that a handler makes as its last action.\<close>

datatype server_call = Activate server_cfg | Deactivate

definition TIMER_ID_AS_UPDATE :: nat where
  "TIMER_ID_AS_UPDATE = 100"

text \<open>\<open>CDialogEx::OnInitDialog\<close> is \<open>UpdateData(FALSE)\<close>.\<close>

definition OnInitDialog :: "mfc \<Rightarrow> dialog \<Rightarrow> dialog" where
  "OnInitDialog M d = (fst (UpdateData M False (d\<lparr>dlg_window := True\<rparr>)))\<lparr>dlg_timer := True\<rparr>"

definition OnDestroy :: "dialog \<Rightarrow> dialog \<times> server_call option" where
  "OnDestroy d = (d\<lparr>dlg_window := False, dlg_timer := False\<rparr>, Some Deactivate)"

definition OnTimer :: "mfc \<Rightarrow> nat \<Rightarrow> dialog \<Rightarrow> dialog" where
  "OnTimer M nIDEvent d = (if nIDEvent = TIMER_ID_AS_UPDATE then fst (UpdateData M False d) else d)"

definition OnBnClickedFrontActivate :: "mfc \<Rightarrow> dialog \<Rightarrow> dialog \<times> server_call option" where
  "OnBnClickedFrontActivate M d =
    (let check = GetButtonCheck d
     in if check then
          (let d = fst (UpdateData M True d)
           in (d, Some (Activate \<lparr>m_front_port = dm_front_port d, m_back_ip = dm_back_ip d, m_back_port = dm_back_port d\<rparr>)))
        else (d, Some Deactivate))"

section \<open>Events\<close>

text \<open>
  What the user and the system do to the window: edit a text, click the button (which flips its
  check before the handler runs), let the timer expire, close the window.
\<close>

datatype ui = Edit_front_port string | Edit_back_ip string | Edit_back_port string | Click | Tick | CloseWindow

fun ui_event :: "mfc \<Rightarrow> ui \<Rightarrow> dialog \<Rightarrow> dialog \<times> server_call option" where
  "ui_event M (Edit_front_port t) d = (d\<lparr>dc_front_port := t\<rparr>, None)"
| "ui_event M (Edit_back_ip t) d = (d\<lparr>dc_back_ip := t\<rparr>, None)"
| "ui_event M (Edit_back_port t) d = (d\<lparr>dc_back_port := t\<rparr>, None)"
| "ui_event M Click d = OnBnClickedFrontActivate M (d\<lparr>dc_activate := \<not> dc_activate d\<rparr>)"
| "ui_event M Tick d = (if dlg_timer d then OnTimer M TIMER_ID_AS_UPDATE d else d, None)"
| "ui_event M CloseWindow d = OnDestroy d"

fun ui_run :: "mfc \<Rightarrow> ui list \<Rightarrow> dialog \<Rightarrow> dialog \<times> server_call list" where
  "ui_run M [] d = (d, [])"
| "ui_run M (e # es) d =
    (let (d, c) = ui_event M e d; (d, cs) = ui_run M es d
     in (d, case c of None \<Rightarrow> cs | Some c \<Rightarrow> c # cs))"

section \<open>The application\<close>

record app =
  app_dialog :: dialog
  app_server :: server

definition begin_call :: "server_call option \<Rightarrow> server \<Rightarrow> server" where
  "begin_call c s = (case c of
      None \<Rightarrow> s
    | Some (Activate cfg) \<Rightarrow> s\<lparr>sv_caller := ActCheck cfg\<rparr>
    | Some Deactivate \<Rightarrow> s\<lparr>sv_caller := DeactCheck\<rparr>)"

text \<open>\<open>InitInstance\<close> makes the dialog, whose constructor makes the server, and runs it.\<close>

definition InitInstance :: "mfc \<Rightarrow> app" where
  "InitInstance M = \<lparr>app_dialog = OnInitDialog M EmulatorDlg_ctor, app_server = CPOCOProxyServer_ctor\<rparr>"

text \<open>
  An event is handled when no call is in progress. After the window the object goes: the server's
  destructor calls \<open>Deactivate\<close>.
\<close>

inductive app_step :: "mfc \<Rightarrow> app \<Rightarrow> app \<Rightarrow> bool" for M where
  Event: "sv_caller (app_server a) = Idle \<Longrightarrow> dlg_window (app_dialog a) \<Longrightarrow> ui_event M e (app_dialog a) = (d, c) \<Longrightarrow>
    app_step M a (a\<lparr>app_dialog := d, app_server := begin_call c (app_server a)\<rparr>)"
| Destructor: "sv_caller (app_server a) = Idle \<Longrightarrow> \<not> dlg_window (app_dialog a) \<Longrightarrow> dlg_object (app_dialog a) \<Longrightarrow>
    app_step M a (a\<lparr>app_dialog := (app_dialog a)\<lparr>dlg_object := False\<rparr>,
      app_server := begin_call (Some Deactivate) (app_server a)\<rparr>)"
| In_call: "caller_step (app_server a) = Some s \<Longrightarrow> app_step M a (a\<lparr>app_server := s\<rparr>)"
| In_worker: "worker_step ok (app_server a) = Some s \<Longrightarrow> app_step M a (a\<lparr>app_server := s\<rparr>)"

inductive_cases app_stepE: "app_step M a a'"

inductive app_reach :: "mfc \<Rightarrow> app \<Rightarrow> bool" for M where
  Init: "app_reach M (InitInstance M)"
| Then: "app_reach M a \<Longrightarrow> app_step M a a' \<Longrightarrow> app_reach M a'"

section \<open>The server in the application\<close>

text \<open>The dialog is one of the callers of \<open>Server_Threads\<close>: what holds of every caller holds here.\<close>

lemma begin_call_step:
  "sv_caller s = Idle \<Longrightarrow> begin_call c s = s \<or> server_step s (begin_call c s)"
  by (cases c) (auto simp: begin_call_def intro: server_step.intros split: server_call.splits)

lemma app_step_server: "app_step M a a' \<Longrightarrow> app_server a' = app_server a \<or> server_step (app_server a) (app_server a')"
  by (erule app_stepE) (use begin_call_step in \<open>auto intro: server_step.intros\<close>)

interpretation app: server_client "app_step M" "InitInstance M" app_server for M
  by unfold_locales (simp add: InitInstance_def, rule app_step_server)

lemma app_reach_star: "app_reach M a \<Longrightarrow> (app_step M)\<^sup>*\<^sup>* (InitInstance M) a"
  by (induction rule: app_reach.induct) (auto intro: rtranclp.rtrancl_into_rtrancl)

lemmas app_joined = app.client_joined [OF app_reach_star]

section \<open>A button that is off\<close>

text \<open>
  When the window is gone or the button is off, the caller is in \<open>Deactivate\<close> or has returned from it.
\<close>

definition off :: "dialog \<Rightarrow> bool" where
  "off d \<longleftrightarrow> \<not> dlg_window d \<or> \<not> dc_activate d"

definition stopping_or_stopped :: "server \<Rightarrow> bool" where
  "stopping_or_stopped s \<longleftrightarrow> sv_caller s \<in> {DeactCheck, DeactStop, DeactJoin, NullReactor}
     \<or> (sv_caller s = Idle \<and> sv_thread s = None)"

definition off_inv :: "app \<Rightarrow> bool" where
  "off_inv a \<longleftrightarrow> (off (app_dialog a) \<longrightarrow> stopping_or_stopped (app_server a))"

lemmas handler_defs = OnDestroy_def OnBnClickedFrontActivate_def OnTimer_def OnInitDialog_def UpdateData_def
  DoDataExchange_load_def DoDataExchange_save_def GetButtonCheck_def Let_def

lemma ui_event_off: "ui_event M e d = (d', c) \<Longrightarrow> dlg_window d \<Longrightarrow> off d' \<Longrightarrow> off d \<and> c = None \<or> c = Some Deactivate"
  by (cases e) (auto simp: off_def handler_defs split: if_splits option.splits)

lemma worker_step_caller: "worker_step ok s = Some s' \<Longrightarrow> sv_caller s' = sv_caller s \<and> sv_thread s \<noteq> None"
  by (auto simp: worker_step_def at_worker_def split: option.splits worker_pc.splits if_splits)

lemma stopping_or_stopped_caller: "stopping_or_stopped s \<Longrightarrow> caller_step s = Some s' \<Longrightarrow> stopping_or_stopped s'"
  by (auto simp: stopping_or_stopped_def caller_step_def split: if_splits option.splits)

lemma stopping_or_stopped_worker: "stopping_or_stopped s \<Longrightarrow> worker_step ok s = Some s' \<Longrightarrow> stopping_or_stopped s'"
  using worker_step_caller [of ok s s'] by (auto simp: stopping_or_stopped_def)

lemma stopping_or_stopped_call: "stopping_or_stopped (begin_call (Some Deactivate) s)"
  by (simp add: stopping_or_stopped_def begin_call_def)

lemma off_inv_step: "app_step M a a' \<Longrightarrow> off_inv a \<Longrightarrow> off_inv a'"
proof (induction rule: app_step.induct)
  case (Event a e d c)
  then show ?case
    using ui_event_off [of M e "app_dialog a" d c] stopping_or_stopped_call
    by (auto simp: off_inv_def begin_call_def)
next
  case (In_call a s)
  then show ?case by (auto simp: off_inv_def intro: stopping_or_stopped_caller)
next
  case (In_worker ok a s)
  then show ?case by (auto simp: off_inv_def intro: stopping_or_stopped_worker)
qed (simp add: off_inv_def stopping_or_stopped_call)

lemma off_inv_reach: "app_reach M a \<Longrightarrow> off_inv a"
proof (induction rule: app_reach.induct)
  case Init
  then show ?case
    by (simp add: off_inv_def stopping_or_stopped_def InitInstance_def CPOCOProxyServer_ctor_def)
next
  case (Then a a')
  then show ?case by (blast intro: off_inv_step)
qed

text \<open>The application never asks for a second worker: when it is in \<open>Activate\<close>, there is none.\<close>

definition activating :: "server \<Rightarrow> bool" where
  "activating s \<longleftrightarrow> (case sv_caller s of ActCheck _ \<Rightarrow> True | ActSet _ \<Rightarrow> True | ActJoin \<Rightarrow> True | ActSpawn \<Rightarrow> True | _ \<Rightarrow> False)"

definition activating_inv :: "app \<Rightarrow> bool" where
  "activating_inv a \<longleftrightarrow> (activating (app_server a) \<longrightarrow> sv_thread (app_server a) = None)"

lemma ui_event_activate: "ui_event M e d = (d', Some (Activate cfg)) \<Longrightarrow> off d"
  by (cases e) (auto simp: off_def handler_defs split: if_splits option.splits)

lemma activating_caller: "caller_step s = Some s' \<Longrightarrow> activating s' \<Longrightarrow> activating s \<and> sv_thread s' \<in> {sv_thread s, None}"
  by (auto simp: caller_step_def activating_def split: caller_pc.splits if_splits option.splits)

lemma activating_step: "app_step M a a' \<Longrightarrow> off_inv a \<Longrightarrow> activating_inv a \<Longrightarrow> activating_inv a'"
proof (induction rule: app_step.induct)
  case (Event a e d c)
  then show ?case
    using ui_event_activate [of M e "app_dialog a" d]
    by (auto simp: activating_inv_def off_inv_def stopping_or_stopped_def begin_call_def activating_def
        split: option.splits server_call.splits)
next
  case (In_call a s)
  then show ?case using activating_caller [of "app_server a" s] by (auto simp: activating_inv_def)
next
  case (In_worker ok a s)
  then show ?case
    using worker_step_caller [of ok "app_server a" s] by (auto simp: activating_inv_def activating_def)
qed (simp add: activating_inv_def activating_def begin_call_def)

lemma activating_reach: "app_reach M a \<Longrightarrow> activating_inv a"
proof (induction rule: app_reach.induct)
  case Init
  then show ?case
    by (simp add: activating_inv_def activating_def InitInstance_def CPOCOProxyServer_ctor_def)
next
  case (Then a a')
  then show ?case by (blast intro: activating_step off_inv_reach)
qed

section \<open>Runs\<close>

datatype app_act = Ui ui | Delete | Caller_thread | Worker_thread bool

fun app_exec :: "mfc \<Rightarrow> app_act list \<Rightarrow> app \<Rightarrow> app option" where
  "app_exec M [] a = Some a"
| "app_exec M (Ui e # as) a =
    (if sv_caller (app_server a) = Idle \<and> dlg_window (app_dialog a) then
       (let (d, c) = ui_event M e (app_dialog a)
        in app_exec M as (a\<lparr>app_dialog := d, app_server := begin_call c (app_server a)\<rparr>))
     else None)"
| "app_exec M (Delete # as) a =
    (if sv_caller (app_server a) = Idle \<and> \<not> dlg_window (app_dialog a) \<and> dlg_object (app_dialog a) then
       app_exec M as (a\<lparr>app_dialog := (app_dialog a)\<lparr>dlg_object := False\<rparr>,
         app_server := begin_call (Some Deactivate) (app_server a)\<rparr>)
     else None)"
| "app_exec M (Caller_thread # as) a =
    Option.bind (caller_step (app_server a)) (\<lambda>s. app_exec M as (a\<lparr>app_server := s\<rparr>))"
| "app_exec M (Worker_thread ok # as) a =
    Option.bind (worker_step ok (app_server a)) (\<lambda>s. app_exec M as (a\<lparr>app_server := s\<rparr>))"

lemma app_exec_reach: "app_exec M as a = Some a' \<Longrightarrow> app_reach M a \<Longrightarrow> app_reach M a'"
proof (induction M as a rule: app_exec.induct)
  case (2 M e as a)
  obtain d c where d: "ui_event M e (app_dialog a) = (d, c)" by fastforce
  with 2(2) have i: "sv_caller (app_server a) = Idle" "dlg_window (app_dialog a)"
    and e: "app_exec M as (a\<lparr>app_dialog := d, app_server := begin_call c (app_server a)\<rparr>) = Some a'"
    by (auto split: if_splits)
  from app_reach.Then [OF 2(3) app_step.Event [OF i d]]
  show ?case using 2(1) [OF conjI [OF i] d [symmetric] refl e] by blast
next
  case (3 M as a)
  then show ?case by (auto split: if_splits intro: app_reach.Then app_step.Destructor)
next
  case (4 M as a)
  then show ?case by (auto simp: bind_eq_Some_conv intro: app_reach.Then app_step.In_call)
next
  case (5 M ok as a)
  then show ?case by (auto simp: bind_eq_Some_conv intro: app_reach.Then app_step.In_worker)
qed simp

definition turn_on :: "app_act list" where
  "turn_on = Ui Click # replicate 4 Caller_thread"

text \<open>The server socket cannot be opened, for instance because the port is in use.\<close>

definition worker_fails :: "app_act list" where
  "worker_fails = [Worker_thread True, Worker_thread True, Worker_thread False, Worker_thread True,
     Worker_thread True, Worker_thread True, Worker_thread True]"

definition closed :: "app_act list" where
  "closed = [Ui CloseWindow, Caller_thread, Caller_thread]"

definition sample_mfc :: mfc where
  "sample_mfc = \<lparr>scan = (\<lambda>t. if t = ''80'' then Some 80 else if t = ''1470'' then Some 1470
      else if t = ''4242'' then Some 4242 else None), print = dec_int\<rparr>"

lemmas app_simps = sched_simps handler_defs InitInstance_def EmulatorDlg_ctor_def begin_call_def
  turn_on_def worker_fails_def closed_def TIMER_ID_AS_UPDATE_def eval_nat_numeral

lemma run_server_gone: "\<exists>a. app_exec M (turn_on @ worker_fails) (InitInstance M) = Some a
    \<and> sv_caller (app_server a) = Idle \<and> dlg_window (app_dialog a) \<and> dc_activate (app_dialog a)
    \<and> sv_thread (app_server a) = Some WDone \<and> snd (ui_event M Click (app_dialog a)) = Some Deactivate"
  by (cases "scan M (print M 1470)"; cases "scan M (print M 4242)") (simp_all add: app_simps)

lemma run_closed: "\<exists>a. app_exec M closed (InitInstance M) = Some a \<and> sv_caller (app_server a) = Idle
    \<and> \<not> dlg_window (app_dialog a) \<and> dlg_object (app_dialog a)"
  by (simp add: app_simps)

lemma run_close_stuck: "\<exists>a. app_exec M (turn_on @ [Ui CloseWindow, Caller_thread] @ replicate 3 (Worker_thread True))
      (InitInstance M) = Some a \<and> sv_caller (app_server a) = DeactJoin \<and> \<not> dlg_window (app_dialog a)
    \<and> stuck (app_server a) \<and> sv_thread (app_server a) = Some WLoop"
  by (cases "scan M (print M 1470)"; cases "scan M (print M 4242)") (simp_all add: app_simps stuck_def)

lemma stuck_app: "stuck (app_server a) \<Longrightarrow> \<not> app_step M a a'"
proof
  assume s: "stuck (app_server a)" and "app_step M a a'"
  from this(2) show False
  proof (cases rule: app_step.cases)
    case (In_call s')
    with s show False by (simp add: stuck_def)
  next
    case (In_worker ok s')
    with s show False by (cases ok) (simp_all add: stuck_def)
  qed (use s in \<open>simp_all add: stuck_def\<close>)
qed

section \<open>Properties\<close>

text \<open>When the button is off, or the window is gone, and no call is in progress, no worker exists: the
  thread has been joined and the reactor destroyed. So the destructor of the dialog, whatever
  happened before, never destroys a joinable thread.\<close>

theorem off_means_stopped:
  assumes "app_reach M a" and "sv_caller (app_server a) = Idle"
    and "\<not> dlg_window (app_dialog a) \<or> \<not> dc_activate (app_dialog a)"
  shows "sv_thread (app_server a) = None \<and> sv_reactor (app_server a) = None \<and> \<not> sv_running (app_server a)"
proof -
  have "sv_thread (app_server a) = None"
    using off_inv_reach [OF assms(1)] assms(2,3) by (auto simp: off_inv_def off_def stopping_or_stopped_def)
  moreover from this have "joined (app_server a)" by (simp add: joined_def)
  ultimately show ?thesis using app_joined [OF assms(1)] by blast
qed

theorem off_means_stopped_witness:
  "\<exists>a::app. \<not> dlg_window (app_dialog a) \<and> sv_thread (app_server a) = None \<and> sv_reactor (app_server a) = None"
proof -
  obtain a where a: "app_exec sample_mfc closed (InitInstance sample_mfc) = Some a"
    "sv_caller (app_server a) = Idle" "\<not> dlg_window (app_dialog a)" using run_closed by blast
  from off_means_stopped [OF app_exec_reach [OF a(1) app_reach.Init] a(2) disjI1 [OF a(3)]] a(3)
  show ?thesis by blast
qed

text \<open>C20: A click that switches the button on always starts a worker with the dialog's settings: in the
  application \<open>Activate\<close> is never refused and never waits, however the earlier workers ended, because
  every \<open>Activate\<close> is preceded by a \<open>Deactivate\<close> that has returned.\<close>

theorem activate_accepted:
  assumes "app_reach M a" and "sv_caller (app_server a) = ActCheck cfg"
  shows "\<exists>s. run_sched (replicate 4 CallerStep) (app_server a) = Some s \<and> sv_caller s = Idle \<and> sv_result s = Some True
    \<and> sv_cfg s = cfg \<and> sv_thread s = Some WStart"
proof -
  have t: "sv_thread (app_server a) = None"
    using activating_reach [OF assms(1)] assms(2) by (simp add: activating_inv_def activating_def)
  then have "\<not> sv_running (app_server a)"
    using app_joined [OF assms(1)] by (simp add: joined_def)
  with t assms(2) show ?thesis by (simp add: sched_simps eval_nat_numeral)
qed

lemma run_clicked: "\<exists>a cfg. app_exec M [Ui Click] (InitInstance M) = Some a \<and> sv_caller (app_server a) = ActCheck cfg"
  by (cases "scan M (print M 1470)"; cases "scan M (print M 4242)") (simp_all add: app_simps)

theorem activate_accepted_witness:
  "\<exists>a s. app_exec sample_mfc [Ui Click] (InitInstance sample_mfc) = Some a
    \<and> run_sched (replicate 4 CallerStep) (app_server a) = Some s \<and> sv_thread s = Some WStart"
proof -
  obtain a cfg where a: "app_exec sample_mfc [Ui Click] (InitInstance sample_mfc) = Some a"
    "sv_caller (app_server a) = ActCheck cfg" using run_clicked by blast
  from activate_accepted [OF app_exec_reach [OF a(1) app_reach.Init] a(2)] a(1) show ?thesis by blast
qed

text \<open>Closing the window can hang the application: when the button has just been switched on, the
  \<open>Deactivate\<close> of \<open>OnDestroy\<close> comes before the worker has made its reactor, nobody tells the
  reactor to stop, and neither thread can go on. No property of the texts is needed.\<close>

theorem close_can_hang:
  "\<exists>a. app_reach M a \<and> \<not> dlg_window (app_dialog a) \<and> sv_caller (app_server a) = DeactJoin \<and> (\<nexists>a'. app_step M a a')"
  using run_close_stuck [of M] app_exec_reach app_reach.Init stuck_app by metis

text \<open>The button can show a server that is gone: if the worker cannot open its socket, it ends, the
  button stays on and nothing is reported; the next click only switches the button off.\<close>

theorem button_without_server:
  "\<exists>a. app_reach M a \<and> sv_caller (app_server a) = Idle \<and> dc_activate (app_dialog a)
     \<and> sv_thread (app_server a) = Some WDone \<and> \<not> sv_running (app_server a)
     \<and> snd (ui_event M Click (app_dialog a)) = Some Deactivate"
proof -
  obtain a where a: "app_exec M (turn_on @ worker_fails) (InitInstance M) = Some a" "sv_caller (app_server a) = Idle"
    "dc_activate (app_dialog a)" "sv_thread (app_server a) = Some WDone"
    "snd (ui_event M Click (app_dialog a)) = Some Deactivate" using run_server_gone by blast
  have r: "app_reach M a" by (rule app_exec_reach [OF a(1) app_reach.Init])
  then have "\<not> sv_running (app_server a)"
    using app_joined [OF r] a(4) by (auto simp: joined_def)
  with r a show ?thesis by blast
qed

fun is_edit :: "ui \<Rightarrow> bool" where
  "is_edit (Edit_front_port t) = True"
| "is_edit (Edit_back_ip t) = True"
| "is_edit (Edit_back_port t) = True"
| "is_edit _ = False"

lemma edit_then_tick:
  assumes "is_edit e" and "dlg_timer d"
  shows "\<exists>d'. ui_event M e d = (d', None) \<and> dlg_timer d' \<and> ui_event M Tick d' = ui_event M Tick d"
  using assms by (cases e) (simp_all add: handler_defs)

text \<open>C27: What the user has typed is lost with the next tick of the timer, which comes every second: any
  edits before a tick change nothing of what follows it, neither the texts nor the calls. Only
  edits made in the same second as the click reach the server.\<close>

theorem edits_lost_by_tick:
  assumes "dlg_timer d" and "\<forall>e \<in> set es. is_edit e"
  shows "ui_run M (es @ Tick # rest) d = ui_run M (Tick # rest) d"
  using assms
proof (induction es arbitrary: d)
  case (Cons e es)
  then obtain d' where d': "ui_event M e d = (d', None)" "dlg_timer d'" "ui_event M Tick d' = ui_event M Tick d"
    using edit_then_tick [of e d M] by auto
  have "ui_run M (es @ Tick # rest) d' = ui_run M (Tick # rest) d'" using Cons d'(2) by simp
  also have "\<dots> = ui_run M (Tick # rest) d" using d'(3) by simp
  finally show ?case using d'(1) by (simp add: split_beta)
qed simp

theorem edits_lost_by_tick_witness:
  "snd (ui_run sample_mfc [Edit_front_port ''80'', Tick, Click] (OnInitDialog sample_mfc EmulatorDlg_ctor))
   = snd (ui_run sample_mfc [Tick, Click] (OnInitDialog sample_mfc EmulatorDlg_ctor))"
proof -
  have t: "dlg_timer (OnInitDialog sample_mfc EmulatorDlg_ctor)" by (simp add: OnInitDialog_def)
  have "\<forall>e \<in> set [Edit_front_port ''80'']. is_edit e" by simp
  from edits_lost_by_tick [OF t this, of sample_mfc "[Click]"] show ?thesis by simp
qed

text \<open>C28: What reaches the server from edits that no tick interrupts. Switching on passes the typed values
  when both ports can be read. A front port that cannot be read makes the old values be used, a
  back port that cannot be read the new front port and host with the old back port: the server is
  started in every case, since the result of \<open>UpdateData\<close> is not looked at.\<close>

theorem click_after_edits:
  assumes "\<not> dc_activate d"
  shows "snd (ui_run M [Edit_front_port s, Edit_back_ip h, Edit_back_port t, Click] d) =
    [Activate (case (scan M s, scan M t) of
        (Some p, Some q) \<Rightarrow> \<lparr>m_front_port = p, m_back_ip = h, m_back_port = q\<rparr>
      | (Some p, None) \<Rightarrow> \<lparr>m_front_port = p, m_back_ip = h, m_back_port = dm_back_port d\<rparr>
      | (None, _) \<Rightarrow> \<lparr>m_front_port = dm_front_port d, m_back_ip = dm_back_ip d, m_back_port = dm_back_port d\<rparr>)]"
  using assms by (cases "scan M s"; cases "scan M t") (simp_all add: handler_defs)

theorem click_after_edits_witness:
  "snd (ui_run sample_mfc [Edit_front_port ''80'', Edit_back_ip ''h'', Edit_back_port ''x'', Click] EmulatorDlg_ctor)
   = [Activate \<lparr>m_front_port = 80, m_back_ip = ''h'', m_back_port = 4242\<rparr>]"
  using click_after_edits [of EmulatorDlg_ctor sample_mfc "''80''" "''h''" "''x''"]
  by (simp add: EmulatorDlg_ctor_def sample_mfc_def)

end
