(* ===== verification/Proxy_System.thy ===== *)
theory Proxy_System
  imports Session_Leak Dialog
begin

text \<open>
  The whole program: the dialog and the thread of the user interface of \<open>Dialog\<close>, and the worker
  thread running the code of \<open>ThreadLoop\<close> on the proxy's state. \<open>Server_Threads\<close> has the worker's
  statements with their outcome left open, \<open>Server\<close> has their effect in one computation; here each
  step of the worker executes its statements, and between any two of them the other thread can
  act. The reactor looks at its stop flag before every turn.
\<close>

section \<open>State\<close>

text \<open>
  \<open>sy_addr\<close> is the worker's local variable \<open>back_addr\<close>. \<open>sy_start\<close> and \<open>sy_turns\<close> are history: the
  state in which the present worker began and the number of turns its reactor has made.
\<close>

record system =
  sy_app :: app
  sy_world :: world
  sy_addr :: addr
  sy_start :: world
  sy_turns :: nat

definition sys_server :: "system \<Rightarrow> server" where
  "sys_server y = app_server (sy_app y)"

definition sys_thread :: "system \<Rightarrow> worker_pc option" where
  "sys_thread y = sv_thread (sys_server y)"

definition boot :: "mfc \<Rightarrow> system" where
  "boot M = \<lparr>sy_app = InitInstance M, sy_world = initial_world, sy_addr = wildcard_addr 0,
     sy_start = initial_world, sy_turns = 0\<rparr>"

section \<open>The worker's statements\<close>

text \<open>A statement of the \<open>try\<close> block: an exception is logged, and the block is left.\<close>

definition log_error :: "config \<Rightarrow> exn \<Rightarrow> unit proxy" where
  "log_error C e = log_msg C (ret (''POCO Server error : ['' @ displayText e @ '']''))"

definition in_try :: "config \<Rightarrow> 'a proxy \<Rightarrow> 'a option proxy" where
  "in_try C m = catch_poco (bnd m (\<lambda>a. ret (Some a))) (\<lambda>e. andthen (log_error C e) (ret None))"

text \<open>
  What the worker executes at a position: whether the \<open>try\<close> block goes on, and \<open>back_addr\<close>. \<open>stop\<close> is
  the reactor's flag.
\<close>

definition make_acceptor :: "config \<Rightarrow> int \<Rightarrow> addr \<Rightarrow> unit proxy" where
  "make_acceptor C front_port back_addr = bnd (ServerSocket_ctor (c_os C) (word_of_int front_port) 64) (\<lambda>s.
     andthen (modify (\<lambda>w. w\<lparr>srv_socket := Some s\<rparr>)) (CPOCOProxyAcceptor_ctor s back_addr))"

fun worker_code :: "config \<Rightarrow> server_cfg \<Rightarrow> addr \<Rightarrow> bool \<Rightarrow> worker_pc \<Rightarrow> (bool \<times> addr) proxy" where
  "worker_code C c b stop WStart = andthen (log_msg C (ret ''POCO Rroxy Server Thread Start'')) (ret (True, b))"
| "worker_code C c b stop WAddress =
     bnd (in_try C (bnd (resolve C (m_back_ip c) (word_of_int (m_back_port c))) (\<lambda>a. andthen make_reactor (ret a))))
       (\<lambda>r. ret (case r of None \<Rightarrow> (False, b) | Some a \<Rightarrow> (True, a)))"
| "worker_code C c b stop WSocket = bnd (in_try C (make_acceptor C (m_front_port c) b)) (\<lambda>r. ret (r \<noteq> None, b))"
| "worker_code C c b stop WLoop =
     bnd (in_try C (if stop then dispatch_all (proxy_dispatch C) Shutdown else reactor_turn (proxy_dispatch C) (c_os C)))
       (\<lambda>r. ret (r \<noteq> None, b))"
| "worker_code C c b stop WResetAcceptor = andthen reset_acceptor (ret (True, b))"
| "worker_code C c b stop WResetReactor = andthen reset_reactor (ret (True, b))"
| "worker_code C c b stop WResetSocket =
     andthen reset_server_socket (andthen (log_msg C (ret ''POCO Server Thread End'')) (ret (True, b)))"
| "worker_code C c b stop WClear = ret (True, b)"
| "worker_code C c b stop WDone = ret (True, b)"

text \<open>Where the worker goes on: a turn of the reactor leaves it in the loop.\<close>

definition worker_next :: "bool \<Rightarrow> server \<Rightarrow> server option" where
  "worker_next ok s =
    (if sv_thread s = Some WLoop \<and> sv_reactor s \<noteq> Some True then Some (if ok then s else at_worker WResetAcceptor s)
     else worker_step ok s)"

definition sys_history :: "worker_pc \<Rightarrow> bool \<Rightarrow> system \<Rightarrow> system" where
  "sys_history p stop y =
    (if p = WStart then y\<lparr>sy_start := sy_world y, sy_turns := 0\<rparr>
     else if p = WLoop \<and> \<not> stop then y\<lparr>sy_turns := Suc (sy_turns y)\<rparr> else y)"

text \<open>A step of the worker; \<open>Inl\<close> when its statement has undefined behaviour or does not end.\<close>

definition sys_work :: "config \<Rightarrow> system \<Rightarrow> (exn + system) option" where
  "sys_work C y =
    (let s = sys_server y; stop = (sv_reactor s = Some True) in
     case sv_thread s of
       None \<Rightarrow> None
     | Some p \<Rightarrow>
         if p = WDone then None
         else (case worker_code C (sv_cfg s) (sy_addr y) stop p (sy_world y) of
             (Inl e, w) \<Rightarrow> Some (Inl e)
           | (Inr (ok, b), w) \<Rightarrow> map_option (\<lambda>s'. Inr ((sys_history p stop y)
               \<lparr>sy_app := (sy_app y)\<lparr>app_server := s'\<rparr>, sy_world := w, sy_addr := b\<rparr>)) (worker_next ok s)))"

section \<open>Runs\<close>

fun user_act :: "app_act \<Rightarrow> bool" where
  "user_act (Worker_thread ok) = False"
| "user_act _ = True"

datatype sys_act = User app_act | Work

fun sys_step :: "config \<Rightarrow> mfc \<Rightarrow> sys_act \<Rightarrow> system \<Rightarrow> system option" where
  "sys_step C M (User act) y =
     (if user_act act then map_option (\<lambda>a. y\<lparr>sy_app := a\<rparr>) (app_exec M [act] (sy_app y)) else None)"
| "sys_step C M Work y = (case sys_work C y of Some (Inr y') \<Rightarrow> Some y' | _ \<Rightarrow> None)"

inductive sys_reach :: "config \<Rightarrow> mfc \<Rightarrow> system \<Rightarrow> bool" for C M where
  Boot: "sys_reach C M (boot M)"
| Run: "sys_reach C M y \<Longrightarrow> sys_step C M act y = Some y' \<Longrightarrow> sys_reach C M y'"

fun sys_exec :: "config \<Rightarrow> mfc \<Rightarrow> sys_act list \<Rightarrow> system \<Rightarrow> system option" where
  "sys_exec C M [] y = Some y"
| "sys_exec C M (act # acts) y = Option.bind (sys_step C M act y) (sys_exec C M acts)"

lemma sys_exec_reach: "sys_exec C M acts y = Some y' \<Longrightarrow> sys_reach C M y \<Longrightarrow> sys_reach C M y'"
  by (induction acts arbitrary: y) (auto simp: bind_eq_Some_conv intro: sys_reach.Run)

section \<open>The \<open>try\<close> block\<close>

lemma log_error_run: "\<exists>t. log_error C e w = (Inr (), w\<lparr>log_text := t\<rparr>)"
  unfolding log_error_def by (rule log_ret)

lemma in_try_Some: "in_try C m w = (Inr (Some a), w') \<longleftrightarrow> m w = (Inr a, w')"
proof (cases "m w" rule: result_cases)
  case (Throws c t n w1)
  obtain t' where "log_error C (Poco c t n) w1 = (Inr (), w1\<lparr>log_text := t'\<rparr>)" using log_error_run by blast
  with Throws show ?thesis by (simp add: in_try_def comp_simps)
qed (auto simp: in_try_def comp_simps)

lemma in_try_None:
  "in_try C m w = (Inr None, w') \<longleftrightarrow> (\<exists>c t n w1. m w = (Inl (Poco c t n), w1) \<and> log_error C (Poco c t n) w1 = (Inr (), w'))"
proof (cases "m w" rule: result_cases)
  case (Throws c t n w1)
  obtain t' where "log_error C (Poco c t n) w1 = (Inr (), w1\<lparr>log_text := t'\<rparr>)" using log_error_run by blast
  with Throws show ?thesis by (auto simp: in_try_def comp_simps)
qed (auto simp: in_try_def comp_simps)

text \<open>A block is its first statement and the rest.\<close>

lemma try_goes_on:
  assumes "in_try C m w = (Inr (Some a), w')"
  shows "catch_poco (bnd m f) (log_error C) w = catch_poco (f a) (log_error C) w'"
  using assms by (simp add: in_try_Some catch_poco_def bnd_def)

lemma try_left:
  assumes "in_try C m w = (Inr None, w')"
  shows "catch_poco (bnd m f) (log_error C) w = (Inr (), w')"
  using assms by (auto simp: in_try_None catch_poco_def bnd_def)

section \<open>The program and the application\<close>

text \<open>
  What is proved of every run of the application of \<open>Dialog\<close>, where the worker's outcomes are left
  open, holds of the program: a step of the worker is one of its steps or leaves it alone.
\<close>

lemma sys_reactor_turn_handled: "reactor_turn cb S w \<noteq> (Inl (Poco c t n), w')"
  unfolding reactor_turn_def handle_errors_def
  by (auto simp: catch_poco_def skip_def ret_def split: prod.splits sum.splits exn.splits)

lemma sys_work_cases:
  assumes "sys_work C y = Some (Inr y')"
  obtains p ok b w s' where "sys_thread y = Some p" "p \<noteq> WDone"
    "worker_code C (sv_cfg (sys_server y)) (sy_addr y) (sv_reactor (sys_server y) = Some True) p (sy_world y) = (Inr (ok, b), w)"
    "worker_next ok (sys_server y) = Some s'"
    "y' = (sys_history p (sv_reactor (sys_server y) = Some True) y)
       \<lparr>sy_app := (sy_app y)\<lparr>app_server := s'\<rparr>, sy_world := w, sy_addr := b\<rparr>"
  using assms
  by (auto simp: sys_work_def Let_def sys_thread_def split: option.splits if_splits prod.splits sum.splits)

lemma turn_stays:
  assumes "worker_code C c b False WLoop w = (Inr (ok, b'), w')"
  shows "ok"
proof -
  obtain r where r: "in_try C (reactor_turn (proxy_dispatch C) (c_os C)) w = (Inr r, w')" "ok = (r \<noteq> None)"
    using assms by (auto simp: bnd_def ret_def split: prod.splits sum.splits)
  then show ?thesis by (cases r) (auto simp: in_try_None sys_reactor_turn_handled)
qed

lemma sys_work_app:
  assumes "sys_work C y = Some (Inr y')"
  shows "sy_app y' = sy_app y \<and> sys_thread y = Some WLoop \<or> app_step M (sy_app y) (sy_app y')"
  using assms
proof (rule sys_work_cases)
  fix p ok b w s'
  assume p: "sys_thread y = Some p"
    and code: "worker_code C (sv_cfg (sys_server y)) (sy_addr y) (sv_reactor (sys_server y) = Some True) p (sy_world y)
      = (Inr (ok, b), w)"
    and next_: "worker_next ok (sys_server y) = Some s'"
    and y': "y' = (sys_history p (sv_reactor (sys_server y) = Some True) y)
       \<lparr>sy_app := (sy_app y)\<lparr>app_server := s'\<rparr>, sy_world := w, sy_addr := b\<rparr>"
  have sy: "sy_app y' = (sy_app y)\<lparr>app_server := s'\<rparr>" using y' by simp
  show ?thesis
  proof (cases "p = WLoop \<and> sv_reactor (sys_server y) \<noteq> Some True")
    case True
    with code have ok by (auto intro: turn_stays)
    with True p next_ have "s' = sys_server y" by (simp add: worker_next_def sys_thread_def)
    with sy True p show ?thesis by (simp add: sys_server_def)
  next
    case False
    with p next_ have "worker_step ok (app_server (sy_app y)) = Some s'"
      by (auto simp: worker_next_def sys_thread_def sys_server_def split: if_splits)
    then show ?thesis unfolding sy by (intro disjI2 app_step.In_worker)
  qed
qed

text \<open>What a step of the other thread can do to the worker.\<close>

lemma user_act_server:
  assumes "app_exec M [act] a = Some a'" and "user_act act"
  shows "(sv_thread (app_server a') = sv_thread (app_server a)
      \<or> joined (app_server a) \<and> sv_thread (app_server a') = None
      \<or> sv_thread (app_server a') = Some WStart \<and> sv_caller (app_server a) = ActSpawn)
    \<and> (sv_cfg (app_server a') = sv_cfg (app_server a) \<or> activating (app_server a))"
  using assms
  by (cases act) (auto simp: caller_step_def joined_def activating_def begin_call_def bind_eq_Some_conv
      split: if_splits caller_pc.splits option.splits prod.splits server_call.splits)

section \<open>The states of the worker\<close>

definition worker_world :: "worker_pc option \<Rightarrow> world \<Rightarrow> bool" where
  "worker_world t w = (case t of
      Some WSocket \<Rightarrow> no_acceptor w
    | Some WLoop \<Rightarrow> lifetime_ok w
    | Some WResetAcceptor \<Rightarrow> lifetime_ok w
    | Some WResetReactor \<Rightarrow> lifetime_ok w \<and> \<not> acc_alive w
    | Some WResetSocket \<Rightarrow> stopped (w\<lparr>srv_socket := None\<rparr>)
    | _ \<Rightarrow> stopped w)"

definition after_code :: "worker_pc \<Rightarrow> bool \<Rightarrow> bool \<Rightarrow> worker_pc option" where
  "after_code p stop ok = map_option (\<lambda>s. the (sv_thread s))
     (worker_next ok (CPOCOProxyServer_ctor\<lparr>sv_thread := Some p, sv_reactor := Some stop\<rparr>))"

lemma after_code_simps [simp]:
  "after_code WStart stop ok = Some WAddress"
  "after_code WAddress stop ok = Some (if ok then WSocket else WResetAcceptor)"
  "after_code WSocket stop ok = Some (if ok then WLoop else WResetAcceptor)"
  "after_code WLoop stop ok = Some (if \<not> stop \<and> ok then WLoop else WResetAcceptor)"
  "after_code WResetAcceptor stop ok = Some WResetReactor"
  "after_code WResetReactor stop ok = Some WResetSocket"
  "after_code WResetSocket stop ok = Some WClear"
  "after_code WClear stop ok = Some WDone"
  by (simp_all add: after_code_def worker_next_def worker_step_def at_worker_def)

lemma worker_next_thread:
  "sv_thread s = Some p \<Longrightarrow> p \<noteq> WDone \<Longrightarrow> worker_next ok s = Some s' \<Longrightarrow>
     sv_thread s' = after_code p (sv_reactor s = Some True) ok \<and> sv_caller s' = sv_caller s \<and> sv_cfg s' = sv_cfg s"
  by (cases p) (auto simp: after_code_def worker_next_def worker_step_def at_worker_def split: if_splits)

lemma valid_in_try:
  assumes "valid P m Q E" and "\<And>w t. E w \<Longrightarrow> E (w\<lparr>log_text := t\<rparr>)"
  shows "valid P (in_try C m) (\<lambda>r w. case r of Some a \<Rightarrow> Q a w | None \<Rightarrow> E w) (\<lambda>_. False)"
proof (rule validI)
  fix w assume "P w"
  with assms(1) have o: "outcome Q E (m w)" by (rule validD)
  show "outcome (\<lambda>r w. case r of Some a \<Rightarrow> Q a w | None \<Rightarrow> E w) (\<lambda>_. False) (in_try C m w)"
  proof (cases "m w" rule: result_cases)
    case (Throws c t n w1)
    obtain t' where "log_error C (Poco c t n) w1 = (Inr (), w1\<lparr>log_text := t'\<rparr>)" using log_error_run by blast
    with Throws o assms(2) show ?thesis by (simp add: in_try_def comp_simps)
  qed (use o in \<open>auto simp: in_try_def comp_simps\<close>)
qed

lemma valid_make_reactor: "valid stopped make_reactor (\<lambda>_. no_acceptor) E"
  unfolding make_reactor_def
  by (rule valid_modify)
    (auto simp: no_acceptor_def stopped_def lifetime_ok_def registry_ok_def enabled_def notifier_ok_def)

lemma valid_make_acceptor: "valid no_acceptor (make_acceptor C p b) (\<lambda>_. lifetime_ok) lifetime_ok"
  unfolding make_acceptor_def
proof (rule valid_bnd [where R = "\<lambda>_. no_acceptor"])
  show "valid no_acceptor (ServerSocket_ctor (c_os C) (word_of_int p) 64) (\<lambda>_. no_acceptor) lifetime_ok"
    by (rule valid_post [OF valid_keeps [OF keeps_ServerSocket_ctor [OF reactor_stable_sock [OF no_acceptor_stable]]]])
      (simp_all add: no_acceptor_def)
  show "valid no_acceptor (andthen (modify (\<lambda>w. w\<lparr>srv_socket := Some s\<rparr>)) (CPOCOProxyAcceptor_ctor s b))
      (\<lambda>_. lifetime_ok) lifetime_ok" for s
    by (intro valid_andthen [where R = no_acceptor] valid_modify valid_acceptor_ctor)
      (auto simp: no_acceptor_def same_registry_def elim!: lifetime_more)
qed

lemma valid_reset_acceptor: "valid lifetime_ok reset_acceptor (\<lambda>_ w. lifetime_ok w \<and> \<not> acc_alive w) (\<lambda>_. False)"
proof (rule validI)
  fix w assume w: "lifetime_ok w"
  show "outcome (\<lambda>_ w. lifetime_ok w \<and> \<not> acc_alive w) (\<lambda>_. False) (reset_acceptor w)"
    using w validD [OF valid_acceptor_dtor] by (cases "acc_alive w") (simp_all add: reset_acceptor_def comp_simps)
qed

lemma keeps_reactor: "send_documented (c_os C) \<Longrightarrow> keeps lifetime_ok (reactor_turn (proxy_dispatch C) (c_os C))"
  "send_documented (c_os C) \<Longrightarrow> keeps lifetime_ok (dispatch_all (proxy_dispatch C) k)"
  using proxy.keeps_turn [of C] proxy.keeps_dispatch_all [of C] by (simp_all add: documented_id)

lemma valid_try_ret:
  assumes "valid P m Q E" and "\<And>w t. E w \<Longrightarrow> E (w\<lparr>log_text := t\<rparr>)" and "\<And>w. P' w \<Longrightarrow> P w"
    and "\<And>a w. Q a w \<Longrightarrow> R (g (Some a)) w" and "\<And>w. E w \<Longrightarrow> R (g None) w"
  shows "valid P' (bnd (in_try C m) (\<lambda>r. ret (g r))) R (\<lambda>_. False)"
proof (rule valid_bnd [OF valid_pre [OF valid_in_try [OF assms(1,2)] assms(3)]])
  show "valid (\<lambda>w. case r of Some a \<Rightarrow> Q a w | None \<Rightarrow> E w) (ret (g r)) R (\<lambda>_. False)" for r
    by (cases r) (auto intro!: valid_ret assms(4,5))
qed

lemma valid_then_ret:
  assumes "valid P m (\<lambda>_. Q) E" and "\<And>w. P' w \<Longrightarrow> P w" and "\<And>w. Q w \<Longrightarrow> R a w"
  shows "valid P' (andthen m (ret a)) R E"
  by (rule valid_andthen [OF valid_pre [OF assms(1,2)]]) (auto intro: valid_ret assms(3))

lemma valid_worker_code:
  assumes S: "send_documented (c_os C)" and "p \<noteq> WDone"
  shows "valid (worker_world (Some p)) (worker_code C c b stop p)
    (\<lambda>r. worker_world (after_code p stop (fst r))) (\<lambda>_. False)"
proof -
  note defs = worker_world_def after_code_def worker_next_def worker_step_def at_worker_def
  have log: "valid stopped (log_msg C (ret t)) (\<lambda>_. stopped) (\<lambda>_. False)" for t
    by (intro keeps_log_ret stopped_log)
  show ?thesis
  proof (cases p)
    case WStart
    show ?thesis unfolding WStart worker_code.simps by (rule valid_then_ret [OF log]) (simp_all add: defs)
  next
    case WAddress
    have r: "valid stopped (bnd (resolve C i q) (\<lambda>a. andthen make_reactor (ret a))) (\<lambda>_. no_acceptor) lifetime_ok" for i q
    proof (rule valid_bnd)
      show "valid stopped (resolve C i q) (\<lambda>_. stopped) lifetime_ok"
        by (rule valid_post [OF valid_keeps [OF keeps_resolve]]) (simp_all add: stopped_lifetime)
      show "valid stopped (andthen make_reactor (ret a)) (\<lambda>_. no_acceptor) lifetime_ok" for a
        by (rule valid_then_ret [OF valid_make_reactor])
    qed
    show ?thesis unfolding WAddress worker_code.simps
      by (rule valid_try_ret [OF r lifetime_log]) (simp_all add: defs)
  next
    case WSocket
    show ?thesis unfolding WSocket worker_code.simps
      by (rule valid_try_ret [OF valid_make_acceptor lifetime_log]) (simp_all add: defs)
  next
    case WLoop
    have r: "valid lifetime_ok (if stop then dispatch_all (proxy_dispatch C) Shutdown else reactor_turn (proxy_dispatch C) (c_os C))
      (\<lambda>_. lifetime_ok) lifetime_ok"
      using keeps_reactor [OF S] by (simp add: keeps_def)
    show ?thesis unfolding WLoop worker_code.simps
      by (rule valid_try_ret [OF r lifetime_log]) (simp_all add: defs)
  next
    case WResetAcceptor
    show ?thesis unfolding WResetAcceptor worker_code.simps
      by (rule valid_then_ret [OF valid_reset_acceptor]) (simp_all add: defs)
  next
    case WResetReactor
    show ?thesis unfolding WResetReactor worker_code.simps
      by (rule valid_then_ret [OF valid_reset_reactor]) (simp_all add: defs)
  next
    case WResetSocket
    show ?thesis unfolding WResetSocket worker_code.simps
      by (rule valid_andthen [OF valid_pre [OF valid_reset_server_socket] valid_then_ret [OF log]]) (simp_all add: defs)
  next
    case WClear
    show ?thesis unfolding WClear worker_code.simps by (rule valid_ret) (simp add: defs)
  qed (use assms(2) in simp)
qed

text \<open>What a step does to the proxy's state is what the worker's statement does to it.\<close>

lemma stays_ret: "stays P (ret a)"
  by (simp add: stays_def ret_def)

lemma stays_in_try:
  assumes "stays P m" and "\<And>w t. P w \<Longrightarrow> P (w\<lparr>log_text := t\<rparr>)"
  shows "stays P (in_try C m)"
  unfolding stays_def
proof (intro allI impI)
  fix w assume w: "P w"
  show "P (snd (in_try C m w))"
  proof (cases "m w" rule: result_cases)
    case (Throws c t n w1)
    obtain l where "log_error C (Poco c t n) w1 = (Inr (), w1\<lparr>log_text := l\<rparr>)" using log_error_run by blast
    moreover have "P (w1\<lparr>log_text := l\<rparr>)" using assms w Throws by (force simp: stays_def)
    ultimately show ?thesis using Throws by (simp add: in_try_def comp_simps)
  qed (use assms(1) w in \<open>force simp: in_try_def comp_simps stays_def\<close>)+
qed

section \<open>Invariant\<close>

text \<open>The worker's position and the proxy's state belong together in every reachable state.\<close>

definition sys_inv :: "mfc \<Rightarrow> system \<Rightarrow> bool" where
  "sys_inv M y \<longleftrightarrow> app_reach M (sy_app y) \<and> worker_world (sys_thread y) (sy_world y)"

lemma activating_no_worker: "app_reach M a \<Longrightarrow> activating (app_server a) \<Longrightarrow> sv_thread (app_server a) = None"
  using activating_reach by (simp add: activating_inv_def)

lemma user_step_inv:
  assumes "sys_inv M y" and "user_act act" and "app_exec M [act] (sy_app y) = Some a"
  shows "sys_inv M (y\<lparr>sy_app := a\<rparr>)"
  using assms user_act_server [OF assms(3,2)] app_exec_reach [OF assms(3)] activating_no_worker [of M "sy_app y"]
  by (auto simp: sys_inv_def sys_thread_def sys_server_def worker_world_def joined_def activating_def)

lemma work_inv:
  assumes S: "send_documented (c_os C)" and inv: "sys_inv M y" and work: "sys_work C y = Some (Inr y')"
  shows "sys_inv M y'"
  using work
proof (rule sys_work_cases)
  fix p ok b w s'
  let ?stop = "sv_reactor (sys_server y) = Some True"
  assume p: "sys_thread y = Some p" "p \<noteq> WDone"
    and code: "worker_code C (sv_cfg (sys_server y)) (sy_addr y) ?stop p (sy_world y) = (Inr (ok, b), w)"
    and next_: "worker_next ok (sys_server y) = Some s'"
    and y': "y' = (sys_history p ?stop y)\<lparr>sy_app := (sy_app y)\<lparr>app_server := s'\<rparr>, sy_world := w, sy_addr := b\<rparr>"
  have "worker_world (Some p) (sy_world y)" using inv p(1) by (simp add: sys_inv_def)
  from validD [OF valid_worker_code [where c = "sv_cfg (sys_server y)" and b = "sy_addr y" and stop = ?stop, OF S p(2)] this] code
  have "worker_world (after_code p ?stop ok) w" by simp
  moreover have "sys_thread y' = after_code p ?stop ok"
    using worker_next_thread [OF _ p(2) next_] p(1) y' by (simp add: sys_thread_def sys_server_def)
  moreover have "app_reach M (sy_app y')"
    using sys_work_app [OF work, of M] inv by (auto simp: sys_inv_def intro: app_reach.Then)
  ultimately show ?thesis using y' by (simp add: sys_inv_def)
qed

lemma sys_step_cases:
  assumes "sys_step C M act y = Some y'"
  obtains u a where "user_act u" "app_exec M [u] (sy_app y) = Some a" "y' = y\<lparr>sy_app := a\<rparr>"
    | "sys_work C y = Some (Inr y')"
  using assms by (cases act) (auto split: if_splits option.splits sum.splits)

lemma sys_step_world:
  assumes "sys_step C M act y = Some y'" and "P (sy_world y)"
    and "\<And>c b stop p r w. sys_thread y = Some p \<Longrightarrow> worker_code C c b stop p (sy_world y) = (Inr r, w) \<Longrightarrow> P w"
  shows "P (sy_world y')"
proof (rule sys_step_cases [OF assms(1)])
  assume "sys_work C y = Some (Inr y')"
  then show ?thesis by (rule sys_work_cases) (use assms(3) in auto)
qed (use assms(2) in simp)

lemma sys_inv_step: "send_documented (c_os C) \<Longrightarrow> sys_inv M y \<Longrightarrow> sys_step C M act y = Some y' \<Longrightarrow> sys_inv M y'"
  by (erule sys_step_cases) (auto intro: user_step_inv work_inv)

lemma sys_inv_boot: "sys_inv M (boot M)"
  by (simp add: sys_inv_def boot_def sys_thread_def sys_server_def worker_world_def InitInstance_def
      CPOCOProxyServer_ctor_def stopped_def initial_world_def enabled_def)
    (rule app_reach.Init [unfolded InitInstance_def CPOCOProxyServer_ctor_def])

lemma sys_reach_inv: "sys_reach C M y \<Longrightarrow> send_documented (c_os C) \<Longrightarrow> sys_inv M y"
  by (induction rule: sys_reach.induct) (auto intro: sys_inv_boot sys_inv_step)

section \<open>The steps of a worker are \<open>ThreadLoop\<close>\<close>

text \<open>\<open>remaining C c b p n\<close>: what is left of \<open>ThreadLoop\<close> at position \<open>p\<close>, with \<open>n\<close> more turns of the reactor.\<close>

definition closing :: "config \<Rightarrow> unit proxy" where
  "closing C = andthen reset_acceptor (andthen reset_reactor (andthen reset_server_socket
     (log_msg C (ret ''POCO Server Thread End''))))"

fun remaining :: "config \<Rightarrow> server_cfg \<Rightarrow> addr \<Rightarrow> worker_pc \<Rightarrow> nat \<Rightarrow> unit proxy" where
  "remaining C c b WStart n = ThreadLoop C (m_front_port c) (m_back_ip c) (m_back_port c) n"
| "remaining C c b WAddress n = andthen (catch_poco
     (bnd (bnd (resolve C (m_back_ip c) (word_of_int (m_back_port c))) (\<lambda>a. andthen make_reactor (ret a)))
       (\<lambda>a. bnd (make_acceptor C (m_front_port c) a) (\<lambda>_. reactor_run (proxy_dispatch C) (c_os C) n)))
     (log_error C)) (closing C)"
| "remaining C c b WSocket n = andthen (catch_poco
     (bnd (make_acceptor C (m_front_port c) b) (\<lambda>_. reactor_run (proxy_dispatch C) (c_os C) n)) (log_error C)) (closing C)"
| "remaining C c b WLoop n =
     andthen (catch_poco (reactor_run (proxy_dispatch C) (c_os C) n) (log_error C)) (closing C)"
| "remaining C c b WResetAcceptor n = closing C"
| "remaining C c b WResetReactor n = andthen reset_reactor (andthen reset_server_socket
     (log_msg C (ret ''POCO Server Thread End'')))"
| "remaining C c b WResetSocket n = andthen reset_server_socket (log_msg C (ret ''POCO Server Thread End''))"
| "remaining C c b WClear n = ret ()"
| "remaining C c b WDone n = ret ()"

fun in_block :: "worker_pc \<Rightarrow> bool" where
  "in_block WAddress = True"
| "in_block WSocket = True"
| "in_block WLoop = True"
| "in_block _ = False"

lemma andthen_assoc: "andthen (andthen m k) l = andthen m (andthen k l)"
  by (rule ext) (auto simp: andthen_def bnd_def split: prod.split sum.split)

lemma bnd_assoc: "bnd (bnd m f) g = bnd m (\<lambda>a. bnd (f a) g)"
  by (rule ext) (auto simp: bnd_def split: prod.split sum.split)

lemma ThreadLoop_start: "ThreadLoop C (m_front_port c) (m_back_ip c) (m_back_port c) n =
    andthen (log_msg C (ret ''POCO Rroxy Server Thread Start'')) (remaining C c b WAddress n)"
proof -
  have "bnd (bnd r (\<lambda>a. andthen make_reactor (ret a))) f = bnd r (\<lambda>a. andthen make_reactor (f a))"
    for r :: "addr proxy" and f :: "addr \<Rightarrow> unit proxy"
    by (rule ext) (auto simp: andthen_def bnd_def ret_def split: prod.split sum.split)
  moreover have "bnd (make_acceptor C p a) (\<lambda>_. k) = bnd (ServerSocket_ctor (c_os C) (word_of_int p) 64) (\<lambda>s.
      andthen (modify (\<lambda>w. w\<lparr>srv_socket := Some s\<rparr>)) (andthen (CPOCOProxyAcceptor_ctor s a) k))"
    for p a and k :: "unit proxy"
    by (simp add: make_acceptor_def andthen_def bnd_assoc)
  ultimately show ?thesis
    by (simp add: ThreadLoop_def closing_def log_error_def [abs_def])
qed

lemma reactor_run_Suc: "reactor_run cb S (Suc n) = bnd (reactor_turn cb S) (\<lambda>_. reactor_run cb S n)"
  by (simp add: reactor_run_def andthen_def bnd_assoc)

lemma reactor_run_0: "reactor_run cb S 0 = dispatch_all cb Shutdown"
  by (rule ext) (simp add: reactor_run_def andthen_def bnd_def skip_def ret_def)

text \<open>A statement of the \<open>try\<close> block, executed: the rest of the block and the resets, or the resets alone.\<close>

lemma block_step:
  assumes "bnd (in_try C m) (\<lambda>r. ret (g r)) w = (Inr x, w')"
  shows "(\<exists>a. x = g (Some a) \<and> andthen (catch_poco (bnd m f) (log_error C)) k w = andthen (catch_poco (f a) (log_error C)) k w')
    \<or> x = g None \<and> andthen (catch_poco (bnd m f) (log_error C)) k w = k w'"
proof -
  obtain r where r: "in_try C m w = (Inr r, w')" "x = g r"
    using assms by (auto simp: bnd_def ret_def split: prod.splits sum.splits)
  show ?thesis
  proof (cases r)
    case None
    with r try_left [of C m w w' f] show ?thesis by (simp add: andthen_def bnd_def)
  next
    case (Some a)
    with r try_goes_on [of C m w a w' f] show ?thesis by (auto simp: andthen_def bnd_def)
  qed
qed

lemma catch_as_block: "catch_poco m h = catch_poco (bnd m (\<lambda>a. ret a)) h"
  by (rule arg_cong2 [where f = catch_poco]) (auto simp: bnd_def ret_def split: prod.split sum.split)

lemma then_ret: "andthen m (ret x) w = (Inr y, w') \<longleftrightarrow> y = x \<and> m w = (Inr (), w')"
  by (auto simp: andthen_def bnd_def ret_def split: prod.splits sum.splits)

text \<open>One step of the worker: what is left after it does what was left before it.\<close>

lemma remaining_step:
  assumes "worker_code C c b stop p w = (Inr (ok, b'), w')" and "p \<noteq> WDone" and "after_code p stop ok = Some p'"
    and "n = (if p = WLoop \<and> \<not> stop then Suc n' else n')" and "in_block p' \<or> n' = 0" and "p = WLoop \<longrightarrow> stop \<longrightarrow> n = 0"
  shows "remaining C c b p n w = remaining C c b' p' n' w'"
proof -
  show ?thesis
  proof (cases p)
    case WStart
    with assms(1,3,4) show ?thesis
      by (auto simp: then_ret ThreadLoop_start [where b = b'] andthen_run)
  next
    case WAddress
    from block_step [OF assms(1) [unfolded WAddress worker_code.simps], of
        "\<lambda>a. bnd (make_acceptor C (m_front_port c) a) (\<lambda>_. reactor_run (proxy_dispatch C) (c_os C) n)" "closing C"]
      WAddress assms(3,4,5) show ?thesis by auto
  next
    case WSocket
    from block_step [OF assms(1) [unfolded WSocket worker_code.simps], of
        "\<lambda>_. reactor_run (proxy_dispatch C) (c_os C) n" "closing C"]
      WSocket assms(3,4,5) show ?thesis by auto
  next
    case WLoop
    show ?thesis
    proof (cases stop)
      case False
      with WLoop assms(1) have ok using turn_stays by simp
      with block_step [OF assms(1) [unfolded WLoop worker_code.simps], of
          "\<lambda>_. reactor_run (proxy_dispatch C) (c_os C) n'" "closing C"] False WLoop assms(3,4)
      show ?thesis by (auto simp: reactor_run_Suc)
    next
      case True
      with block_step [OF assms(1) [unfolded WLoop worker_code.simps], of "\<lambda>a. ret a" "closing C"] WLoop assms(3,4,6)
      show ?thesis
        by (auto simp: reactor_run_0 catch_as_block [of "dispatch_all (proxy_dispatch C) Shutdown"])
          (simp add: catch_poco_def ret_def andthen_def bnd_def)
    qed
  next
    case WResetAcceptor
    with assms(1,3) show ?thesis by (auto simp: then_ret closing_def andthen_run)
  next
    case WResetReactor
    with assms(1,3) show ?thesis by (auto simp: then_ret andthen_run)
  next
    case WResetSocket
    from assms(1,3) WResetSocket have "p' = WClear" "andthen reset_server_socket (log_msg C (ret ''POCO Server Thread End'')) w = (Inr (), w')"
      by (auto simp: andthen_assoc [symmetric] then_ret)
    with WResetSocket show ?thesis by (simp add: ret_def)
  next
    case WClear
    with assms(1,3) show ?thesis by (auto simp: ret_def)
  qed (use assms(2) in simp)
qed

definition loop_so_far :: "config \<Rightarrow> system \<Rightarrow> worker_pc \<Rightarrow> nat \<Rightarrow> bool" where
  "loop_so_far C y p n \<longleftrightarrow> (let c = sv_cfg (sys_server y) in
     ThreadLoop C (m_front_port c) (m_back_ip c) (m_back_port c) (sy_turns y + n) (sy_start y) =
     remaining C c (sy_addr y) p n (sy_world y))"

definition history_ok :: "config \<Rightarrow> system \<Rightarrow> bool" where
  "history_ok C y \<longleftrightarrow> (case sys_thread y of
      None \<Rightarrow> True
    | Some p \<Rightarrow> p = WStart \<or> (\<forall>n. n = 0 \<or> in_block p \<longrightarrow> loop_so_far C y p n))"

lemma app_exec_step: "app_exec M [act] a = Some a' \<Longrightarrow> app_step M a a'"
  by (cases act) (auto simp: bind_eq_Some_conv split: if_splits prod.splits intro: app_step.intros)

lemma sys_reach_app: "sys_reach C M y \<Longrightarrow> app_reach M (sy_app y)"
proof (induction rule: sys_reach.induct)
  case Boot
  then show ?case by (simp add: boot_def app_reach.Init)
next
  case (Run y act y')
  show ?case
    by (rule sys_step_cases [OF Run(2)])
      (use Run(3) sys_work_app [of C y y' M] in \<open>auto intro: app_reach.Then app_exec_step\<close>)
qed

lemma history_user:
  assumes "app_reach M (sy_app y)" and "history_ok C y" and "user_act u" and "app_exec M [u] (sy_app y) = Some a"
  shows "history_ok C (y\<lparr>sy_app := a\<rparr>)"
  using user_act_server [OF assms(4,3)] activating_no_worker [OF assms(1)] assms(2)
  by (auto simp: history_ok_def loop_so_far_def sys_thread_def sys_server_def split: option.splits)

lemma history_work:
  assumes h: "history_ok C y" and work: "sys_work C y = Some (Inr y')"
  shows "history_ok C y'"
  using work
proof (rule sys_work_cases)
  fix p ok b w s'
  let ?stop = "sv_reactor (sys_server y) = Some True" and ?c = "sv_cfg (sys_server y)"
  assume p: "sys_thread y = Some p" "p \<noteq> WDone"
    and code: "worker_code C ?c (sy_addr y) ?stop p (sy_world y) = (Inr (ok, b), w)"
    and next_: "worker_next ok (sys_server y) = Some s'"
    and y': "y' = (sys_history p ?stop y)\<lparr>sy_app := (sy_app y)\<lparr>app_server := s'\<rparr>, sy_world := w, sy_addr := b\<rparr>"
  have s': "sv_thread s' = after_code p ?stop ok" "sv_cfg s' = ?c"
    using worker_next_thread [OF _ p(2) next_] p(1) by (auto simp: sys_thread_def)
  obtain p' where p': "after_code p ?stop ok = Some p'"
    using p(2) by (cases p) simp_all
  have block: "in_block p \<or> p = WStart" if "in_block p'"
    using that p' p(2) by (cases p) auto
  have "loop_so_far C y' p' n" if n: "n = 0 \<or> in_block p'" for n
  proof -
    let ?n = "if p = WLoop \<and> \<not> ?stop then Suc n else n"
    have "p = WLoop \<longrightarrow> ?stop \<longrightarrow> ?n = 0"
      using n p' by auto
    from remaining_step [OF code p(2) p' refl _ this] n
    have r: "remaining C ?c (sy_addr y) p ?n (sy_world y) = remaining C ?c b p' n w" by auto
    show ?thesis
    proof (cases "p = WStart")
      case True
      with r y' s' show ?thesis
        by (simp add: loop_so_far_def Let_def sys_history_def sys_server_def)
    next
      case False
      with h p n block have "loop_so_far C y p ?n" by (auto simp: history_ok_def)
      with r y' s' False show ?thesis
        by (auto simp: loop_so_far_def Let_def sys_history_def sys_server_def split: if_splits)
    qed
  qed
  then show ?thesis using y' s' p' by (simp add: history_ok_def sys_thread_def sys_server_def)
qed

lemma sys_reach_history: "sys_reach C M y \<Longrightarrow> history_ok C y"
proof (induction rule: sys_reach.induct)
  case Boot
  then show ?case
    by (simp add: history_ok_def boot_def sys_thread_def sys_server_def InitInstance_def CPOCOProxyServer_ctor_def)
next
  case (Run y act y')
  show ?case
    by (rule sys_step_cases [OF Run(2)])
      (use Run(3) sys_reach_app [OF Run(1)] in \<open>auto intro: history_user history_work\<close>)
qed

section \<open>The program as a client of the server\<close>

lemma sys_step_app: "sys_step C M act y = Some y' \<Longrightarrow> sy_app y' = sy_app y \<or> app_step M (sy_app y) (sy_app y')"
  by (erule sys_step_cases) (auto intro: app_exec_step dest: sys_work_app)

interpretation sys: server_client "\<lambda>y y'. \<exists>act. sys_step C M act y = Some y'" "boot M" sys_server for C M
proof unfold_locales
  show "sys_server (boot M) = CPOCOProxyServer_ctor" by (simp add: sys_server_def boot_def InitInstance_def)
  show "sys_server y' = sys_server y \<or> server_step (sys_server y) (sys_server y')"
    if "\<exists>act. sys_step C M act y = Some y'" for y y'
    using that sys_step_app app_step_server unfolding sys_server_def by metis
qed

section \<open>Runs of the program\<close>

text \<open>Another program has the port.\<close>

definition busy_config :: config where
  "busy_config = sample_config\<lparr>c_os := sample_os\<lparr>os_bind := \<lambda>_ _ _. Err EADDRINUSE\<rparr>\<rparr>"

definition switch_on :: "sys_act list" where
  "switch_on = User (Ui Click) # replicate 4 (User Caller_thread)"

definition switch_off :: "sys_act list" where
  "switch_off = [User (Ui Click), User Caller_thread, User Caller_thread]"

definition port_in_use :: "sys_act list" where
  "port_in_use = switch_on @ replicate 7 Work"

definition close_early :: "sys_act list" where
  "close_early = switch_on @ [User (Ui CloseWindow), User Caller_thread, Work, Work, Work]"

definition crash_run :: "sys_act list" where
  "crash_run = switch_on @ [Work, Work, User (Ui Click), User Caller_thread, Work, Work, Work, User Caller_thread]"

lemma busy_send: "send_documented (c_os busy_config)"
  using sample_send_documented by (simp add: busy_config_def send_documented_def)

text \<open>The code a run executes; evaluation is by rewriting with these and the rules \<open>eval\<close>.\<close>

lemma eval_syscall: "syscall g w = (Inr (g (clk w)), w\<lparr>clk := Suc (clk w)\<rparr>)"
  by (simp add: syscall_def)

lemma printed_ports: "dec_int 1470 = ''1470''" "dec_int 4242 = ''4242''"
  by (simp_all add: dec_int_def dec_nat_ports)

lemma repeated: "replicate 4 x = [x, x, x, x]" "replicate 6 x = [x, x, x, x, x, x]"
  "replicate 7 x = [x, x, x, x, x, x, x]"
  by (simp_all add: eval_nat_numeral)

lemmas socket_code = ServerSocket_ctor_def alloc_socket_def SocketImpl_bind_def SocketImpl_listen_def ensure_init_def
  SocketImpl_initSocket_def new_socket_impl_def checkIsBrokenTimeout_def guard_fd_def upd_sock_def
  SocketImpl_setRawOption_def check_def SocketImpl_error_def error_exn_def SocketImpl_close_def record_io_def SocketImpl_acceptConnection_def
  SocketImpl_connectNB_def SocketImpl_setBlocking_def SocketImpl_ioctl_def SocketImpl_receiveBytes_def
  SocketImpl_checkBrokenTimeout_def StreamSocketImpl_sendBytes_def SocketImpl_sendBytes_def POCO_INVALID_SOCKET_def
  send_loop.simps recv_loop.simps

lemmas reactor_code = addEventHandler_def removeEventHandler_def getNotifier_def new_SocketNotifier_def
  NotificationCenter_hasObserver_def SocketNotifier_addObserver_def NotificationCenter_addObserver_def
  SocketNotifier_removeObserver_def NotificationCenter_removeObserver_def NotificationCenter_countObservers_def
  find_observer_def Observer_disable_def upd_notifier_def event_of_def Observer_accepts_def Observer_equals_def
  notifier_mode_def SocketNotifier_accepts_def PollSet_add_def PollSet_remove_def PollSet_update_def reactor_turn_def
  handle_errors_def hasSocketHandlers_def PollSet_empty_def PollSet_poll_def PollSet_prepare_def prune_removed_def
  PollSet_setMode_def hasSignaledFDs_def apply_revents_def collect_modes_def collect_one_def add_mode_def
  clear_revents_def dispatch_modes_def dispatch_socket_def dispatch_notifier_def dispatch_all_def
  SocketNotifier_dispatch_def NotificationCenter_postNotification_def Observer_notify_def nf_defs poll_modes poll_flags
  remaining_after_def cdiv_def DEFAULT_TIMEOUT_def empty_pollset_def

lemmas session_code = proxy_dispatch_def session_callback_def onAccept_def createServiceHandler_def ProxySession_ctor_def
  SetService_def log_msg_def with_session_def upd_session_def RegisterHandler_def session_observer_def with_service_def
  OnFrontConnect_def OnBackConnect_def svc_call_def onFrontReadable_def onBackReadable_def onBackWritable_def
  OnFrontReadable_virtual_def OnBackReadable_virtual_def ByPass_OnFrontReadable_def ByPass_OnBackReadable_def
  CPOCOProxyAcceptor_ctor_def CPOCOProxyAcceptor_dtor_def acceptor_observer_def mkObserver_def m_buffer_len_def

lemmas worker_statements = make_reactor_def make_acceptor_def in_try_def log_error_def resolve_def reset_acceptor_def
  reset_reactor_def reset_server_socket_def sys_work_def sys_history_def worker_next_def sys_server_def sys_thread_def
  boot_def sample_mfc_def wildcard_addr_def initial_world_def sample_config_def sample_os_def sample_sock_def

lemmas run_simps = eval eval_syscall printed_ports repeated socket_code reactor_code session_code worker_statements
  sched_simps handler_defs InitInstance_def EmulatorDlg_ctor_def begin_call_def

definition waiting :: "system \<Rightarrow> bool" where
  "waiting y \<longleftrightarrow> sv_caller (sys_server y) = DeactJoin \<and> sys_thread y = Some WLoop \<and> sv_reactor (sys_server y) = Some False"

lemma run_port_in_use: "\<exists>y. sys_exec busy_config sample_mfc port_in_use (boot sample_mfc) = Some y \<and> sys_thread y = Some WDone"
  by (simp add: port_in_use_def switch_on_def busy_config_def run_simps cong: eval_cong)

lemma run_switch_off: "\<exists>y. sys_exec busy_config sample_mfc (port_in_use @ switch_off) (boot sample_mfc) = Some y
    \<and> sv_caller (sys_server y) = Idle \<and> \<not> dc_activate (app_dialog (sy_app y))"
  by (simp add: port_in_use_def switch_on_def switch_off_def busy_config_def run_simps cong: eval_cong)

lemma run_crash: "\<exists>y. sys_exec busy_config sample_mfc crash_run (boot sample_mfc) = Some y
    \<and> sv_caller (sys_server y) = NullReactor"
  by (simp add: crash_run_def switch_on_def busy_config_def run_simps cong: eval_cong)

lemma run_close_early: "\<exists>y. sys_exec sample_config sample_mfc close_early (boot sample_mfc) = Some y
    \<and> waiting y \<and> \<not> dlg_window (app_dialog (sy_app y))"
  by (simp add: close_early_def switch_on_def waiting_def run_simps cong: eval_cong)

lemma waiting_step:
  assumes "waiting y" and "sys_step C M act y = Some y'"
  shows "waiting y'"
proof (rule sys_step_cases [OF assms(2)])
  fix u a assume "user_act u" "app_exec M [u] (sy_app y) = Some a"
  with assms(1) have False
    by (cases u) (auto simp: waiting_def sys_thread_def sys_server_def caller_step_def joined_def split: if_splits)
  then show ?thesis ..
next
  assume "sys_work C y = Some (Inr y')"
  then show ?thesis
  proof (rule sys_work_cases)
    fix p ok b w s'
    assume p: "sys_thread y = Some p"
      and code: "worker_code C (sv_cfg (sys_server y)) (sy_addr y) (sv_reactor (sys_server y) = Some True) p (sy_world y)
        = (Inr (ok, b), w)"
      and next_: "worker_next ok (sys_server y) = Some s'"
      and y': "y' = (sys_history p (sv_reactor (sys_server y) = Some True) y)
        \<lparr>sy_app := (sy_app y)\<lparr>app_server := s'\<rparr>, sy_world := w, sy_addr := b\<rparr>"
    have "p = WLoop" using p assms(1) by (simp add: waiting_def)
    moreover have "sv_reactor (sys_server y) \<noteq> Some True" using assms(1) by (simp add: waiting_def)
    ultimately have ok using code turn_stays by simp
    with next_ assms(1) have "s' = sys_server y" by (simp add: worker_next_def waiting_def sys_thread_def)
    with assms(1) y' show ?thesis by (simp add: waiting_def sys_thread_def sys_server_def)
  qed
qed

lemma waiting_exec: "sys_exec C M acts y = Some y' \<Longrightarrow> waiting y \<Longrightarrow> waiting y'"
  by (induction acts arbitrary: y) (auto simp: bind_eq_Some_conv intro: waiting_step)

section \<open>Properties\<close>

text \<open>C1: The worker is memory safe in every interleaving. Whatever the user does, the peers, the
  resolver and the system calls answer and however the two threads alternate: no statement of the
  worker uses a destroyed session, acceptor or notifier, calls through a null notifier or leaves a
  buffer, none lets an exception out, the worker is never blocked, every enabled observer names a
  live object at its place, once, and when there is no worker or it has finished there is no
  acceptor, no server socket, no registered handler and no enabled observer. Two things are outside
  the model and outside this statement: the deletion of the service through a base class without a
  virtual destructor, and the unsynchronised access to \<open>m_reactor\<close>. Of the sessions only
  their lifetimes are stated; which of them the end of the worker leaves is in \<open>Leftover_Sessions\<close>.\<close>

theorem system_safe:
  assumes "send_documented (c_os C)" and "sys_reach C M y"
  shows "(\<forall>e. sys_work C y = Some (Inl e) \<longrightarrow> e = Diverge)
    \<and> (sys_work C y = None \<longleftrightarrow> joined (sys_server y))
    \<and> lifetime_ok (sy_world y) \<and> (joined (sys_server y) \<longrightarrow> stopped (sy_world y))"
proof (intro conjI)
  have inv: "worker_world (sys_thread y) (sy_world y)"
    using sys_reach_inv [OF assms(2,1)] by (simp add: sys_inv_def)
  then show "joined (sys_server y) \<longrightarrow> stopped (sy_world y)"
    by (auto simp: joined_def worker_world_def sys_thread_def)
  have "lifetime_ok (w\<lparr>srv_socket := None\<rparr>) \<Longrightarrow> lifetime_ok w" for w
    by (erule lifetime_more) (simp_all add: same_registry_def)
  with inv show "lifetime_ok (sy_world y)"
    by (auto simp: worker_world_def no_acceptor_def intro: stopped_lifetime split: option.splits worker_pc.splits)
  show "\<forall>e. sys_work C y = Some (Inl e) \<longrightarrow> e = Diverge"
  proof (intro allI impI)
    fix e assume e: "sys_work C y = Some (Inl e)"
    let ?stop = "sv_reactor (sys_server y) = Some True"
    from e obtain p w where p: "sys_thread y = Some p" "p \<noteq> WDone"
      "worker_code C (sv_cfg (sys_server y)) (sy_addr y) ?stop p (sy_world y) = (Inl e, w)"
      by (auto simp: sys_work_def Let_def sys_thread_def split: option.splits if_splits prod.splits sum.splits)
    have "worker_world (Some p) (sy_world y)" using inv p(1) by simp
    from validD [OF valid_worker_code [where c = "sv_cfg (sys_server y)" and b = "sy_addr y" and stop = ?stop,
          OF assms(1) p(2)] this] p(3)
    show "e = Diverge" by (cases e) simp_all
  qed
  have "worker_next ok s \<noteq> None" if "sv_thread s = Some p" "p \<noteq> WDone" for ok s p
    using that by (cases p) (auto simp: worker_next_def worker_step_def)
  then show "sys_work C y = None \<longleftrightarrow> joined (sys_server y)"
    by (auto simp: sys_work_def Let_def joined_def split: option.splits prod.splits sum.splits)
qed

text \<open>C3: The steps of a worker add up to \<open>ThreadLoop\<close>, however they are interleaved with the other thread.
  When a worker has finished, the state is the one that \<open>ThreadLoop\<close>, run at once from the state in
  which the worker began, with the settings of the server and as many turns of the reactor, returns.\<close>

theorem worker_runs_ThreadLoop:
  assumes "sys_reach C M y" and "sv_thread (sys_server y) = Some WDone"
  shows "ThreadLoop C (m_front_port (sv_cfg (sys_server y))) (m_back_ip (sv_cfg (sys_server y)))
      (m_back_port (sv_cfg (sys_server y))) (sy_turns y) (sy_start y) = (Inr (), sy_world y)"
  using sys_reach_history [OF assms(1)] assms(2)
  by (simp add: history_ok_def sys_thread_def loop_so_far_def Let_def ret_def)

text \<open>C19: Switching the button off or closing the window closes the server. When the call has returned there is no
  worker, and in the proxy's state no acceptor, no server socket, no reactor and no enabled observer.\<close>

theorem off_closes_server:
  assumes "send_documented (c_os C)" and "sys_reach C M y" and "sv_caller (sys_server y) = Idle"
    and "\<not> dlg_window (app_dialog (sy_app y)) \<or> \<not> dc_activate (app_dialog (sy_app y))"
  shows "sv_thread (sys_server y) = None \<and> stopped (sy_world y)"
proof -
  have "off_inv (sy_app y)" by (rule off_inv_reach [OF sys_reach_app [OF assms(2)]])
  with assms(3,4) have t: "sv_thread (sys_server y) = None"
    by (auto simp: off_inv_def off_def stopping_or_stopped_def sys_server_def)
  moreover have "stopped (sy_world y)"
    using sys_reach_inv [OF assms(2,1)] t by (simp add: sys_inv_def sys_thread_def worker_world_def)
  ultimately show ?thesis by simp
qed

text \<open>C31: The window can be closed for ever. With a system that refuses nothing: the button is switched on, the
  window is closed before the worker has made its reactor, and from then on, whatever happens and
  however often the reactor turns, the thread of the user interface waits in \<open>Deactivate\<close>.\<close>

theorem close_hangs_forever:
  "\<exists>y. sys_reach sample_config sample_mfc y \<and> \<not> dlg_window (app_dialog (sy_app y))
    \<and> (\<forall>acts. pred_option (\<lambda>y'. sv_caller (sys_server y') = DeactJoin \<and> sys_thread y' = Some WLoop)
         (sys_exec sample_config sample_mfc acts y))"
proof -
  obtain y where y: "sys_exec sample_config sample_mfc close_early (boot sample_mfc) = Some y" "waiting y"
    "\<not> dlg_window (app_dialog (sy_app y))" using run_close_early by blast
  have "sys_reach sample_config sample_mfc y" by (rule sys_exec_reach [OF y(1) sys_reach.Boot])
  moreover have "pred_option (\<lambda>y'. sv_caller (sys_server y') = DeactJoin \<and> sys_thread y' = Some WLoop)
      (sys_exec sample_config sample_mfc acts y)" for acts
    using waiting_exec [OF _ y(2)] by (cases "sys_exec sample_config sample_mfc acts y") (auto simp: waiting_def)
  ultimately show ?thesis using y(3) by blast
qed

text \<open>C32: Switching off can crash. With the port in use by another program: the button is switched on and off
  again, and between the test of \<open>m_reactor\<close> and the call of \<open>stop\<close> the worker fails to bind its
  server socket and destroys the reactor.\<close>

theorem port_in_use_can_crash:
  "\<exists>y. sys_reach busy_config sample_mfc y \<and> sv_caller (sys_server y) = NullReactor"
  using run_crash sys_exec_reach sys_reach.Boot by metis

theorem system_safe_witness:
  "\<exists>y. sys_exec busy_config sample_mfc port_in_use (boot sample_mfc) = Some y
    \<and> stopped (sy_world y) \<and> sys_work busy_config y = None"
proof -
  obtain y where y: "sys_exec busy_config sample_mfc port_in_use (boot sample_mfc) = Some y" "sys_thread y = Some WDone"
    using run_port_in_use by blast
  have r: "sys_reach busy_config sample_mfc y" by (rule sys_exec_reach [OF y(1) sys_reach.Boot])
  have "joined (sys_server y)" using y(2) by (simp add: joined_def sys_thread_def)
  with system_safe [OF busy_send r] y(1) show ?thesis by blast
qed

theorem worker_runs_ThreadLoop_witness:
  "\<exists>y. sys_exec busy_config sample_mfc port_in_use (boot sample_mfc) = Some y
    \<and> (\<exists>p i q. ThreadLoop busy_config p i q (sy_turns y) (sy_start y) = (Inr (), sy_world y))"
proof -
  obtain y where y: "sys_exec busy_config sample_mfc port_in_use (boot sample_mfc) = Some y" "sys_thread y = Some WDone"
    using run_port_in_use by blast
  from worker_runs_ThreadLoop [OF sys_exec_reach [OF y(1) sys_reach.Boot]] y show ?thesis
    by (auto simp: sys_thread_def)
qed

theorem off_closes_server_witness:
  "\<exists>y. sys_exec busy_config sample_mfc (port_in_use @ switch_off) (boot sample_mfc) = Some y
    \<and> sv_thread (sys_server y) = None \<and> stopped (sy_world y)"
proof -
  obtain y where y: "sys_exec busy_config sample_mfc (port_in_use @ switch_off) (boot sample_mfc) = Some y"
    "sv_caller (sys_server y) = Idle" "\<not> dc_activate (app_dialog (sy_app y))" using run_switch_off by blast
  from off_closes_server [OF busy_send sys_exec_reach [OF y(1) sys_reach.Boot] y(2) disjI2 [OF y(3)]] y(1)
  show ?thesis by blast
qed

end
