(* ===== verification/Isolation.thy ===== *)
theory Isolation
  imports Proxy_System "HOL-Library.Sublist"
begin

text \<open>
  The two connections of a session over the whole life of the program: what leaves on one side came
  in on the other, and no two sessions share a socket. The reactor's contract gives it for the event
  loop, the step relation of \<open>Proxy_System\<close> for every interleaving of the threads.
\<close>

section \<open>What the data path depends on\<close>

text \<open>
  \<open>plan\<close>: how many sockets and sessions there are, which sockets can wait in a broken-timeout
  check, and the sockets of each session.
\<close>

definition plan :: "world \<Rightarrow> nat \<times> (sid \<Rightarrow> bool) \<times> nat \<times> (nat \<Rightarrow> sid \<times> sid)" where
  "plan w = (nsock w, (\<lambda>x. no_timeouts (socks w x)), nsess w,
     (\<lambda>s. (ss_front (sessions w s), ss_back (sessions w s))))"

lemma plan_eqI:
  "nsock w' = nsock w \<Longrightarrow> socks w' = socks w \<Longrightarrow> nsess w' = nsess w \<Longrightarrow> sessions w' = sessions w \<Longrightarrow> plan w' = plan w"
  by (simp add: plan_def)

lemma plan_syscall [frame]: "preserves plan (syscall g)"
  by (simp add: preserves_def syscall_def plan_def)

lemma plan_record_io [frame]: "preserves plan (record_io e)"
  by (simp add: record_io_def preserves_modify plan_def)

lemma plan_upd_sock [frame]:
  assumes "\<And>i. no_timeouts (f i) = no_timeouts i"
  shows "preserves plan (upd_sock s f)"
  using assms by (auto simp: upd_sock_def plan_def intro!: preserves_modify)

lemma plan_close [frame]: "preserves plan (SocketImpl_close s)"
  unfolding SocketImpl_close_def by (intro frame) (simp add: no_timeouts_def)

lemma plan_ensure_init [frame]: "preserves plan (ensure_init S s)"
  unfolding ensure_init_def SocketImpl_initSocket_def by (intro frame) (simp_all add: no_timeouts_def)

lemma plan_setBlocking [frame]: "preserves plan (SocketImpl_setBlocking S s b)"
  unfolding SocketImpl_setBlocking_def SocketImpl_ioctl_def by (intro frame) (simp_all add: no_timeouts_def)

lemma plan_connectNB [frame]: "preserves plan (SocketImpl_connectNB S s a)"
  unfolding SocketImpl_connectNB_def by (intro frame)

lemma plan_bind [frame]: "preserves plan (SocketImpl_bind S s a r)"
  unfolding SocketImpl_bind_def SocketImpl_setRawOption_def by (intro frame)

lemma plan_listen [frame]: "preserves plan (SocketImpl_listen S s n)"
  unfolding SocketImpl_listen_def by (intro frame)

lemma plan_peerAddress [frame]: "preserves plan (SocketImpl_peerAddress S s)"
  unfolding SocketImpl_peerAddress_def by (intro frame)

lemma plan_accept_loop [frame]: "preserves plan (accept_loop k S fd)"
  by (induction k) (auto intro!: frame)

lemma plan_poll_loop [frame]: "preserves plan (poll_loop k S fd ev rem)"
proof (induction k arbitrary: rem)
  case (Suc k)
  note blind_poll_loop [frame del]
  show ?case unfolding poll_loop.simps by (intro frame Suc)
qed (simp add: frame)

lemma plan_checkBrokenTimeout [frame]: "preserves plan (SocketImpl_checkBrokenTimeout S s m)"
  unfolding SocketImpl_checkBrokenTimeout_def SocketImpl_poll_def by (intro frame)

lemma plan_recv_loop [frame]: "preserves plan (recv_loop k S s len)"
  by (induction k) (auto intro!: frame simp: recv_loop.simps(2))

lemma plan_receiveBytes [frame]: "preserves plan (SocketImpl_receiveBytes S s len)"
  unfolding SocketImpl_receiveBytes_def by (intro frame)

lemma plan_send_loop [frame]: "preserves plan (send_loop k S s b)"
  by (induction k) (auto intro!: frame simp: send_loop.simps(2))

lemma plan_sendBytes [frame]: "preserves plan (SocketImpl_sendBytes S s b)"
  unfolding SocketImpl_sendBytes_def by (intro frame)

lemma plan_stream_send_loop [frame]: "preserves plan (stream_send_loop k S s bl p n)"
proof (induction k arbitrary: p n)
  case (Suc k)
  note blind_stream_send_loop [frame del]
  show ?case unfolding stream_send_loop.simps by (intro frame Suc)
qed (simp add: frame)

lemma plan_stream_sendBytes [frame]: "preserves plan (StreamSocketImpl_sendBytes S s b)"
  unfolding StreamSocketImpl_sendBytes_def by (intro frame)

lemma plan_getNotifier [frame]: "preserves plan (getNotifier x b)"
  by (auto simp: preserves_def getNotifier_def new_SocketNotifier_def plan_def split: option.split)

lemma plan_addObserver: "plan (SocketNotifier_addObserver i ob w) = plan w"
  by (rule plan_eqI) (simp_all add: SocketNotifier_addObserver_def NotificationCenter_addObserver_def Let_def
      upd_notifier_def split: option.split)

lemma plan_addEventHandler [frame]: "preserves plan (addEventHandler x ob)"
  unfolding addEventHandler_def
  by (intro frame preserves_modify plan_addObserver) (simp_all add: plan_def)

lemma plan_removeObserver: "plan (SocketNotifier_removeObserver i ob w) = plan w"
  by (rule plan_eqI) (simp_all add: removeObserver_same SocketNotifier_removeObserver_def
      NotificationCenter_removeObserver_def Let_def upd_notifier_def Observer_disable_def split: option.split)

lemma plan_removeEventHandler [frame]: "preserves plan (removeEventHandler x ob)"
  unfolding removeEventHandler_def
  by (intro frame preserves_modify plan_removeObserver) (simp_all add: plan_def)

lemma plan_upd_session [frame]:
  assumes "\<And>x. ss_front (f x) = ss_front x \<and> ss_back (f x) = ss_back x"
  shows "preserves plan (upd_session s f)"
  using assms by (auto simp: upd_session_def plan_def fun_eq_iff intro!: preserves_modify)

lemma plan_svc_call [frame]: "preserves plan (svc_call s e)"
  by (simp add: svc_call_def preserves_modify plan_def)

lemma plan_log_msg [frame]: "preserves plan t \<Longrightarrow> preserves plan (log_msg C t)"
  unfolding log_msg_def by (intro frame preserves_modify) (simp_all add: plan_def)

lemma plan_release [frame]: "preserves plan (modify (nf_release k))"
  by (simp add: preserves_modify nf_release_def plan_def)

lemma plan_RegisterHandler [frame]: "preserves plan (RegisterHandler s)"
  unfolding RegisterHandler_def by (intro frame)

lemma plan_dtor [frame]: "preserves plan (ProxySession_dtor s)"
  unfolding ProxySession_dtor_def UnregisterHandler_def by (intro frame) simp_all

lemma plan_address [frame]: "preserves plan (front_address C s)" "preserves plan (back_address C s)"
  unfolding front_address_def back_address_def by (intro frame)+

lemma plan_Close [frame]: "preserves plan (Close C s)"
  unfolding Close_def service_events by (intro frame) simp_all

lemma plan_session_error [frame]: "preserves plan (session_error C s e)"
  unfolding session_error_def by (intro frame)

lemma plan_SetService [frame]: "preserves plan (SetService C s v a)"
  unfolding SetService_def service_events by (intro frame) simp_all

lemma plan_relay [frame]:
  "preserves plan (OnFrontReadable_virtual C s x v b)" "preserves plan (OnBackReadable_virtual C s x v b)"
  unfolding OnFrontReadable_virtual_def OnBackReadable_virtual_def ByPass_OnFrontReadable_def ByPass_OnBackReadable_def
  by (cases v; simp only: service.case; intro frame)+

lemma plan_closing:
  "preserves plan (onFrontShutdown C s k)" "preserves plan (onFrontError C s k)"
  "preserves plan (onBackShutdown C s k)" "preserves plan (onBackError C s k)" "preserves plan (onRelease k)"
  unfolding onFrontShutdown_def onFrontError_def onBackShutdown_def onBackError_def onRelease_def by (intro frame)+

lemma plan_onBackWritable: "preserves plan (onBackWritable C s k)"
  unfolding onBackWritable_def service_events by (intro frame) simp_all

lemma plan_readable: "preserves plan (onFrontReadable C s k)" "preserves plan (onBackReadable C s k)"
  unfolding onFrontReadable_def onBackReadable_def by (intro frame)+

section \<open>The invariant\<close>

abbreviation sent_of :: "world \<Rightarrow> sid \<Rightarrow> byte_seq" where
  "sent_of w x \<equiv> sent_bytes x (wire w)"

abbreviation received_of :: "world \<Rightarrow> sid \<Rightarrow> byte_seq" where
  "received_of w x \<equiv> received_bytes x (wire w)"

definition session_sockets :: "world \<Rightarrow> nat \<Rightarrow> sid set" where
  "session_sockets w s = {ss_front (sessions w s), ss_back (sessions w s)}"

text \<open>What is sent on one side is, in order and without repetition, from what came in on the other.\<close>

definition relays :: "world \<Rightarrow> nat \<Rightarrow> bool" where
  "relays w s \<longleftrightarrow> (let f = ss_front (sessions w s); b = ss_back (sessions w s) in
     f \<noteq> b \<and> subseq (sent_of w f) (received_of w b) \<and> subseq (sent_of w b) (received_of w f))"

definition silent :: "world \<Rightarrow> sid \<Rightarrow> bool" where
  "silent w x \<longleftrightarrow> sent_of w x = [] \<and> received_of w x = []"

definition channels_ok :: "world \<Rightarrow> bool" where
  "channels_ok w \<longleftrightarrow> (\<forall>x. no_timeouts (socks w x)) \<and> (\<forall>x \<ge> nsock w. silent w x)
     \<and> (\<forall>s < nsess w. session_sockets w s \<subseteq> {..<nsock w} \<and> relays w s)
     \<and> (\<forall>s < nsess w. \<forall>t < nsess w. s \<noteq> t \<longrightarrow> session_sockets w s \<inter> session_sockets w t = {})"

text \<open>A socket no session has, with no traffic yet.\<close>

definition unused :: "world \<Rightarrow> sid \<Rightarrow> bool" where
  "unused w x \<longleftrightarrow> x < nsock w \<and> silent w x \<and> (\<forall>s < nsess w. x \<notin> session_sockets w s)"

definition channels :: "world \<Rightarrow> _" where
  "channels w = (plan w, traffic w)"

lemma channelsD:
  assumes "channels w' = channels w"
  shows "nsock w' = nsock w" "no_timeouts (socks w' x) = no_timeouts (socks w x)" "nsess w' = nsess w"
    "ss_front (sessions w' s) = ss_front (sessions w s)" "ss_back (sessions w' s) = ss_back (sessions w s)"
    "sent_of w' x = sent_of w x" "received_of w' x = received_of w x"
  using assms by (auto simp: channels_def plan_def traffic_def fun_eq_iff)

lemma channels_ok_cong:
  assumes "channels w' = channels w" and "channels_ok w"
  shows "channels_ok w'"
  using assms(2) unfolding channels_ok_def relays_def silent_def session_sockets_def channelsD [OF assms(1)] .

lemma unused_cong:
  assumes "channels w' = channels w" and "unused w x"
  shows "unused w' x"
  using assms(2) unfolding unused_def silent_def session_sockets_def channelsD [OF assms(1)] .

lemma preserves_channels: "preserves plan m \<Longrightarrow> preserves traffic m \<Longrightarrow> preserves channels m"
  by (simp add: preserves_def channels_def)

lemma stays_channels: "preserves channels m \<Longrightarrow> stays channels_ok m"
  unfolding stays_def preserves_def using channels_ok_cong by blast

lemma channels_stable: "poll_stable channels_ok"
  unfolding poll_stable_def
proof (intro allI impI)
  fix w c p r cur assume "channels_ok w"
  then show "channels_ok (w\<lparr>clk := c, pollset := p, nf_refs := r, nf_current := cur\<rparr>)"
    by (rule channels_ok_cong [rotated]) (simp add: channels_def plan_def traffic_def)
qed

section \<open>A receive and what follows it\<close>

lemma subseq_relayed: "subseq xs ys \<Longrightarrow> j \<le> length bs \<Longrightarrow> subseq (xs @ take j bs) (ys @ bs)"
  by (rule list_emb_append_mono) (auto intro: prefix_imp_subseq take_is_prefix)

lemma channels_relayed:
  assumes ok: "channels_ok w" and s: "s < nsess w" and pl: "plan w' = plan w"
    and rel: "relayed a b bs j w w'" and ab: "(a, b) = (ss_front (sessions w s), ss_back (sessions w s))
      \<or> (b, a) = (ss_front (sessions w s), ss_back (sessions w s))"
  shows "channels_ok w'"
proof -
  have eq: "nsock w' = nsock w" "no_timeouts (socks w' x) = no_timeouts (socks w x)" "nsess w' = nsess w"
    "ss_front (sessions w' t) = ss_front (sessions w t)" "ss_back (sessions w' t) = ss_back (sessions w t)" for x t
    using pl by (auto simp: plan_def fun_eq_iff)
  have j: "j \<le> length bs"
    and rcv: "received_of w' x = received_of w x @ (if x = a then bs else [])"
    and snt: "sent_of w' x = sent_of w x @ (if x = b then take j bs else [])" for x
    using rel by (simp_all add: relayed_def)
  have own: "{a, b} = session_sockets w s" using ab by (auto simp: session_sockets_def)
  have ss: "session_sockets w' t = session_sockets w t" for t by (simp add: session_sockets_def eq)
  have "silent w' x" if "nsock w \<le> x" for x
    using ok s that own by (fastforce simp: channels_ok_def silent_def rcv snt)
  moreover have "relays w' t" if t: "t < nsess w" for t
  proof (cases "t = s")
    case True
    have "relays w s" using ok s by (simp add: channels_ok_def)
    with True ab j show ?thesis by (auto simp: relays_def Let_def eq rcv snt intro!: subseq_relayed)
  next
    case False
    then have "session_sockets w t \<inter> {a, b} = {}" using ok s t own by (auto simp: channels_ok_def)
    moreover have "relays w t" using ok t by (simp add: channels_ok_def)
    ultimately show ?thesis by (auto simp: relays_def Let_def eq rcv snt session_sockets_def)
  qed
  ultimately show ?thesis using ok by (simp add: channels_ok_def eq ss)
qed


lemma bnd_frame:
  assumes "m w = (q, w1)" and "\<And>a. preserves v (f a)" and "bnd m f w = (r, w')"
  shows "v w' = v w1"
  using assms(1,3) preservesD [OF assms(2)] by (cases q) (auto simp: bnd_def)

lemma relay_or_ignore:
  assumes "send_documented (c_os C)" and "no_timeouts (socks w a)" and "no_timeouts (socks w b)"
    and run: "bnd (SocketImpl_receiveBytes (c_os C) a m_buffer_len) (\<lambda>(n, buffer).
      if n \<le> 0 then Close C s else with_service x (\<lambda>v. andthen (svc_call s (ev buffer))
        (case v of ProxyHandler \<Rightarrow> skip
         | ByPassHandler \<Rightarrow> bnd (StreamSocketImpl_sendBytes (c_os C) b buffer) (\<lambda>_. skip)))) w = (r, w')"
  shows "\<exists>bs j. relayed a b bs j w w'"
proof (cases "ss_service x = Some ByPassHandler")
  case True
  have "relay_step C s a ev b w = (r, w')"
    using run unfolding relay_step_def with_service_def True option.case service.case .
  from relay_step_relayed [OF assms(1-3) this] show ?thesis .
next
  case False
  obtain q w1 where rcv: "SocketImpl_receiveBytes (c_os C) a m_buffer_len w = (q, w1)"
    by (cases "SocketImpl_receiveBytes (c_os C) a m_buffer_len w")
  from receiveBytes_effect [OF assms(2) rcv] obtain bs where bs: "received_more a bs w w1" by blast
  have ignore: "with_service x (\<lambda>v. andthen (svc_call s e) (case v of ProxyHandler \<Rightarrow> skip | ByPassHandler \<Rightarrow> m))
      = with_service x (\<lambda>_. andthen (svc_call s e) skip)" for e m
    using False by (auto simp: with_service_def split: option.split service.split)
  have "traffic w' = traffic w1"
    by (rule bnd_frame [OF rcv _ run]) (simp only: ignore, intro frame)
  from relayed_traffic [OF relayed_received [OF bs] this] show ?thesis by blast
qed

lemma relayed_nothing: "traffic w' = traffic w \<Longrightarrow> relayed a b [] 0 w w'"
  by (simp add: relayed_def traffic_def fun_eq_iff)

lemma readable_relayed:
  assumes "send_documented (c_os C)" and nt: "\<And>x. no_timeouts (socks w x)"
  shows "\<exists>bs j. relayed (ss_back (sessions w s)) (ss_front (sessions w s)) bs j w (snd (onBackReadable C s k w))"
    and "\<exists>bs j. relayed (ss_front (sessions w s)) (ss_back (sessions w s)) bs j w (snd (onFrontReadable C s k w))"
proof -
  let ?w = "nf_release k w" and ?x = "sessions w s"
  have rel: "traffic ?w = traffic w" "sessions ?w = sessions w" "socks ?w = socks w"
    by (simp_all add: traffic_def nf_release_def)
  have step: "\<exists>bs j. relayed a b bs j w w'"
    if run: "catch_poco (with_session s (\<lambda>x. if \<not> ss_back_connected x then skip else m x)) (session_error C s) ?w = (r, w')"
      and m: "\<And>q w1. m ?x ?w = (q, w1) \<Longrightarrow> \<exists>bs j. relayed a b bs j ?w w1"
    for a b m r w'
  proof -
    obtain q w1 where q: "with_session s (\<lambda>x. if \<not> ss_back_connected x then skip else m x) ?w = (q, w1)"
      "traffic w' = traffic w1" using catch_traffic [OF traffic_session_error run] by blast
    have "\<exists>bs j. relayed a b bs j ?w w1"
    proof (cases "ss_alive ?x \<and> ss_back_connected ?x")
      case True
      then have "m ?x ?w = (q, w1)" using q(1) rel by (simp add: with_session_def comp_simps)
      then show ?thesis by (rule m)
    next
      case False
      then have "w1 = ?w" using q(1) rel by (auto simp: with_session_def comp_simps split: if_splits)
      then show ?thesis using relayed_nothing by blast
    qed
    with q(2) relayed_pre [OF rel(1)] show ?thesis by (blast intro: relayed_traffic)
  qed
  have any: "\<And>x. no_timeouts (socks ?w x)" using nt rel by simp
  let ?from_back = "\<lambda>x. bnd (SocketImpl_receiveBytes (c_os C) (ss_back x) m_buffer_len)
      (\<lambda>(n, buffer). if n \<le> 0 then Close C s else with_service x (\<lambda>v. OnBackReadable_virtual C s x v buffer))"
  let ?from_front = "\<lambda>x. bnd (SocketImpl_receiveBytes (c_os C) (ss_front x) m_buffer_len)
      (\<lambda>(n, buffer). if n \<le> 0 then Close C s else with_service x (\<lambda>v. OnFrontReadable_virtual C s x v buffer))"
  have "\<exists>bs j. relayed (ss_back ?x) (ss_front ?x) bs j ?w w1" if "?from_back ?x ?w = (q, w1)" for q w1
    by (rule relay_or_ignore [OF assms(1) any any that [unfolded OnBackReadable_virtual_def ByPass_OnBackReadable_def]])
  from step [where m = ?from_back, OF surjective_pairing this]
  show "\<exists>bs j. relayed (ss_back ?x) (ss_front ?x) bs j w (snd (onBackReadable C s k w))"
    by (simp only: onBackReadable_def andthen_modify)
  have "\<exists>bs j. relayed (ss_front ?x) (ss_back ?x) bs j ?w w1" if "?from_front ?x ?w = (q, w1)" for q w1
    by (rule relay_or_ignore [OF assms(1) any any that [unfolded OnFrontReadable_virtual_def ByPass_OnFrontReadable_def]])
  from step [where m = ?from_front, OF surjective_pairing this]
  show "\<exists>bs j. relayed (ss_front ?x) (ss_back ?x) bs j w (snd (onFrontReadable C s k w))"
    by (simp only: onFrontReadable_def andthen_modify)
qed


section \<open>The callbacks\<close>

lemma traffic_upd_sock [frame]: "preserves traffic (upd_sock s f)"
  by (simp add: upd_sock_def preserves_modify traffic_def)

lemma traffic_ensure_init [frame]: "preserves traffic (ensure_init S s)"
  unfolding ensure_init_def SocketImpl_initSocket_def by (intro frame)

lemma traffic_setBlocking [frame]: "preserves traffic (SocketImpl_setBlocking S s b)"
  unfolding SocketImpl_setBlocking_def SocketImpl_ioctl_def by (intro frame)

lemma traffic_connectNB [frame]: "preserves traffic (SocketImpl_connectNB S s a)"
  unfolding SocketImpl_connectNB_def by (intro frame)

lemma traffic_bind [frame]: "preserves traffic (SocketImpl_bind S s a r)"
  unfolding SocketImpl_bind_def SocketImpl_setRawOption_def by (intro frame)

lemma traffic_listen [frame]: "preserves traffic (SocketImpl_listen S s n)"
  unfolding SocketImpl_listen_def by (intro frame)

lemma traffic_accept_loop [frame]: "preserves traffic (accept_loop k S fd)"
proof (induction k)
  case (Suc k)
  note blind_accept_loop [frame del]
  show ?case unfolding accept_loop.simps by (intro frame Suc)
qed (simp add: frame)

lemma traffic_SetService [frame]: "preserves traffic (SetService C s v a)"
  unfolding SetService_def service_events by (intro frame preserves_io_traffic [OF RegisterHandler_frame])

lemma traffic_release [frame]: "preserves traffic (modify (nf_release k))"
  by (simp add: preserves_modify nf_release_def traffic_def)

lemma traffic_onBackWritable: "preserves traffic (onBackWritable C s k)"
  unfolding onBackWritable_def service_events by (intro frame)

lemma traffic_closing:
  "preserves traffic (onFrontShutdown C s k)" "preserves traffic (onFrontError C s k)"
  "preserves traffic (onBackShutdown C s k)" "preserves traffic (onBackError C s k)" "preserves traffic (onRelease k)"
  unfolding onFrontShutdown_def onFrontError_def onBackShutdown_def onBackError_def onRelease_def by (intro frame)+

lemma channels_session_callback:
  assumes S: "send_documented (c_os C)" and ok: "channels_ok w" and s: "s < nsess w"
  shows "channels_ok (snd (session_callback C s m k w))"
proof -
  have nt: "\<And>x. no_timeouts (socks w x)" using ok by (simp add: channels_ok_def)
  have quiet: "channels_ok (snd (f w))" if "preserves traffic f" "preserves plan f" for f :: "unit proxy"
    using stays_channels [OF preserves_channels [OF that(2,1)]] ok by (simp add: stays_def)
  have front: "channels_ok (snd (onFrontReadable C s k w))"
    using readable_relayed(2) [OF S nt, of s k] plan_readable(1) [of C s k]
    by (auto simp: preserves_def intro: channels_relayed [OF ok s])
  have behind: "channels_ok (snd (onBackReadable C s k w))"
    using readable_relayed(1) [OF S nt, of s k] plan_readable(2) [of C s k]
    by (auto simp: preserves_def intro: channels_relayed [OF ok s])
  have dead: "snd (session_callback C s m k w) = w" if "\<not> ss_alive (sessions w s)"
    using that by (simp add: session_callback_def with_session_def comp_simps)
  show ?thesis
  proof (cases "ss_alive (sessions w s)")
    case True
    then show ?thesis
      using ok front behind
      by (cases m) (auto simp: session_callback_def with_session_def bnd_def gets_def throw_def
          intro!: quiet traffic_closing traffic_onBackWritable plan_closing plan_onBackWritable)
  qed (simp add: dead ok)
qed

section \<open>The acceptor\<close>

text \<open>\<open>gives P m Q\<close>: when \<open>m\<close> returns it gives a \<open>Q\<close>; the invariant holds on every way out.\<close>

definition gives :: "(world \<Rightarrow> bool) \<Rightarrow> 'a proxy \<Rightarrow> ('a \<Rightarrow> world \<Rightarrow> bool) \<Rightarrow> bool" where
  "gives P m Q \<longleftrightarrow> (\<forall>w. channels_ok w \<longrightarrow> P w \<longrightarrow> (case m w of (r, w') \<Rightarrow> channels_ok w' \<and> (\<forall>a. r = Inr a \<longrightarrow> Q a w')))"

lemma gives_bnd:
  assumes "gives P m R" and "\<And>a. gives (R a) (f a) Q"
  shows "gives P (bnd m f) Q"
  unfolding gives_def
proof (intro allI impI)
  fix w assume w: "channels_ok w" "P w"
  obtain r w1 where m: "m w = (r, w1)" by (cases "m w")
  then have w1: "channels_ok w1" "\<And>a. r = Inr a \<Longrightarrow> R a w1" using assms(1) w by (auto simp: gives_def)
  show "case bnd m f w of (r, w') \<Rightarrow> channels_ok w' \<and> (\<forall>a. r = Inr a \<longrightarrow> Q a w')"
    using m w1 assms(2) by (cases r) (auto simp: bnd_def gives_def)
qed

lemma gives_andthen: "gives P m (\<lambda>_. R) \<Longrightarrow> gives R k Q \<Longrightarrow> gives P (andthen m k) Q"
  unfolding andthen_def by (rule gives_bnd)

lemma gives_preserves:
  assumes "preserves channels m" and "\<And>w w'. channels w' = channels w \<Longrightarrow> P w \<Longrightarrow> P w'"
  shows "gives P m (\<lambda>_. P)"
  unfolding gives_def
proof (intro allI impI)
  fix w assume w: "channels_ok w" "P w"
  have "channels (snd (m w)) = channels w" using assms(1) by (simp add: preserves_def)
  with w channels_ok_cong assms(2) show "case m w of (r, w') \<Rightarrow> channels_ok w' \<and> (\<forall>a. r = Inr a \<longrightarrow> P w')"
    by (auto simp: case_prod_beta)
qed

lemma gives_quiet: "preserves plan m \<Longrightarrow> preserves traffic m \<Longrightarrow> gives (\<lambda>w. \<forall>x \<in> X. unused w x) m (\<lambda>_ w. \<forall>x \<in> X. unused w x)"
  by (rule gives_preserves [OF preserves_channels]) (auto intro: unused_cong)

lemma gives_stays: "gives (\<lambda>w. \<forall>x \<in> {}. unused w x) m Q \<Longrightarrow> stays channels_ok m"
  by (fastforce simp: gives_def stays_def)

lemma gives_weaken: "gives P m R \<Longrightarrow> (\<And>a w. R a w \<Longrightarrow> Q a w) \<Longrightarrow> gives P m Q"
  by (fastforce simp: gives_def)

lemma no_timeouts_new [simp]: "no_timeouts (new_socket_impl S fd)"
  by (simp add: no_timeouts_def new_socket_impl_def)

lemma gives_alloc:
  "gives (\<lambda>w. \<forall>x \<in> X. unused w x) (alloc_socket S fd) (\<lambda>b w. b \<notin> X \<and> (\<forall>x \<in> insert b X. unused w x))"
  unfolding gives_def
proof (intro allI impI)
  fix w assume ok: "channels_ok w" and X: "\<forall>x \<in> X. unused w x"
  let ?w = "w\<lparr>nsock := Suc (nsock w), socks := (socks w)(nsock w := new_socket_impl S fd)\<rparr>"
  have run: "alloc_socket S fd w = (Inr (nsock w), ?w)" by (simp add: alloc_socket_def comp_simps)
  have own: "session_sockets ?w s = session_sockets w s" "relays ?w s = relays w s" "silent ?w x = silent w x" for s x
    by (simp_all add: session_sockets_def relays_def silent_def)
  have "channels_ok ?w"
    using ok by (auto simp: channels_ok_def own less_Suc_eq lessThan_Suc)
  moreover have "unused ?w (nsock w)" using ok by (auto simp: channels_ok_def unused_def own)
  moreover have "unused ?w x" if "x \<in> X" for x using X that by (auto simp: unused_def own)
  moreover have "nsock w \<notin> X" using X by (auto simp: unused_def)
  ultimately show "case alloc_socket S fd w of (r, w') \<Rightarrow> channels_ok w'
      \<and> (\<forall>a. r = Inr a \<longrightarrow> a \<notin> X \<and> (\<forall>x \<in> insert a X. unused w' x))"
    by (simp add: run)
qed

lemma gives_new_session:
  assumes "ss_front x = f" and "ss_back x = b" and "f \<noteq> b"
  shows "gives (\<lambda>w. \<forall>y \<in> {b, f}. unused w y)
    (bnd (gets nsess) (\<lambda>s. andthen (modify (\<lambda>w. w\<lparr>nsess := Suc s, sessions := (sessions w)(s := x)\<rparr>)) (ret s)))
    (\<lambda>_ _. True)"
  unfolding gives_def
proof (intro allI impI)
  fix w assume ok: "channels_ok w" and u: "\<forall>y \<in> {b, f}. unused w y"
  let ?w = "w\<lparr>nsess := Suc (nsess w), sessions := (sessions w)(nsess w := x)\<rparr>"
  have old: "session_sockets ?w s = session_sockets w s" "relays ?w s = relays w s" if "s < nsess w" for s
    using that by (simp_all add: session_sockets_def relays_def)
  have new: "session_sockets ?w (nsess w) = {f, b}" "relays ?w (nsess w)"
    using assms u by (simp_all add: session_sockets_def relays_def unused_def silent_def)
  have "channels_ok ?w"
    using ok u unfolding channels_ok_def
    by (auto simp: old new unused_def less_Suc_eq silent_def)
  then show "case bnd (gets nsess) (\<lambda>s. andthen (modify (\<lambda>w. w\<lparr>nsess := Suc s, sessions := (sessions w)(s := x)\<rparr>)) (ret s)) w
      of (r, w') \<Rightarrow> channels_ok w' \<and> (\<forall>a. r = Inr a \<longrightarrow> True)"
    by (simp add: comp_simps)
qed

lemma gives_ctor: "gives (\<lambda>w. \<forall>x \<in> {front}. unused w x) (ProxySession_ctor C front) (\<lambda>_ _. True)"
  unfolding ProxySession_ctor_def
proof (rule gives_bnd [OF gives_alloc])
  fix b
  let ?log = "log_msg C (bnd (SocketImpl_peerAddress (c_os C) front)
      (\<lambda>a. ret (''Front Connection from['' @ addr_toString a @ '']'')))"
  have log: "preserves plan ?log" "preserves traffic ?log" by (intro frame)+
  show "gives (\<lambda>w. b \<notin> {front} \<and> (\<forall>x \<in> insert b {front}. unused w x))
    (andthen ?log
     (bnd (gets nsess) (\<lambda>s. andthen (modify (\<lambda>w. w\<lparr>nsess := Suc s, sessions := (sessions w)(s :=
         \<lparr>ss_front = front, ss_back = b, ss_service = None, ss_front_buffer = True,
          ss_back_buffer = True, ss_back_connected = False, ss_closed = False, ss_alive = True\<rparr>)\<rparr>)) (ret s))))
    (\<lambda>_ _. True)"
  proof (cases "b = front")
    case False
    then show ?thesis
      using gives_andthen [OF gives_quiet [OF log] gives_new_session [of _ front b]] by simp
  qed (simp add: gives_def)
qed


lemma gives_throw: "gives P (throw e) Q"
  by (simp add: gives_def throw_def)

lemma gives_acceptConnection:
  "gives (\<lambda>w. \<forall>x \<in> {}. unused w x) (SocketImpl_acceptConnection S s) (\<lambda>x w. \<forall>y \<in> {x}. unused w y)"
proof -
  note quiet = gives_quiet [where X = "{}"]
  have accepted: "gives (\<lambda>w. \<forall>x \<in> {}. unused w x) (case r of Ok sd \<Rightarrow> alloc_socket S sd
      | Err e \<Rightarrow> andthen (SocketImpl_error e []) (throw (Poco InvalidArgumentException ''null'' 0)))
      (\<lambda>x w. \<forall>y \<in> {x}. unused w y)" for r
  proof (cases r)
    case (Ok sd)
    show ?thesis unfolding Ok sysres.case by (rule gives_weaken [OF gives_alloc]) simp
  next
    case (Err e)
    show ?thesis unfolding Err sysres.case by (rule gives_andthen [OF quiet gives_throw]) (intro frame)+
  qed
  have guarded: "gives (\<lambda>w. \<forall>x \<in> {}. unused w x) (if b then throw e else m) Q"
    if "gives (\<lambda>w. \<forall>x \<in> {}. unused w x) m Q" for b e m and Q :: "sid \<Rightarrow> world \<Rightarrow> bool"
    using that by (simp add: gives_throw)
  show ?thesis
    unfolding SocketImpl_acceptConnection_def guard_fd_def
    by (rule gives_bnd [OF quiet guarded [OF gives_bnd [OF quiet accepted]]]) (intro frame)+
qed

lemma gives_catch:
  assumes "gives P m Q" and "\<And>e. preserves channels (h e)" and "\<And>e w. \<exists>d. fst (h e w) = Inl d"
  shows "gives P (catch_poco m h) Q"
  unfolding gives_def
proof (intro allI impI)
  fix w assume w: "channels_ok w" "P w"
  then have m: "case m w of (r, w') \<Rightarrow> channels_ok w' \<and> (\<forall>a. r = Inr a \<longrightarrow> Q a w')"
    using assms(1) by (simp add: gives_def)
  show "case catch_poco m h w of (r, w') \<Rightarrow> channels_ok w' \<and> (\<forall>a. r = Inr a \<longrightarrow> Q a w')"
  proof (cases "m w" rule: result_cases)
    case (Throws c t n w1)
    have "channels_ok (snd (h (Poco c t n) w1))"
      using m Throws stays_channels [OF assms(2)] by (simp add: stays_def)
    moreover obtain d where "fst (h (Poco c t n) w1) = Inl d" using assms(3) by blast
    ultimately show ?thesis by (simp add: catch_poco_def Throws case_prod_beta)
  qed (use m in \<open>auto simp: catch_poco_def\<close>)
qed

lemma gives_createServiceHandler:
  "gives (\<lambda>w. \<forall>y \<in> {x}. unused w y) (createServiceHandler C x) (\<lambda>_ _. True)"
  unfolding createServiceHandler_def
proof (rule gives_bnd [OF gives_catch [OF gives_ctor]])
  show "preserves channels (andthen (SocketImpl_close x) (throw e))" for e :: exn
    by (rule preserves_channels; intro frame)
  show "\<exists>d. fst (andthen (SocketImpl_close x) (throw e) w) = Inl d" for e w
    by (simp add: andthen_def bnd_def throw_def SocketImpl_close_run)
  show "gives (\<lambda>_. True) (bnd (gets (\<lambda>w. (c_creator C (ss_front (sessions w s)) (ss_back (sessions w s)), acc_back_addr w)))
       (\<lambda>(v, a). SetService C s v a)) (\<lambda>_ _. True)" for s
    by (rule gives_preserves [OF preserves_channels]; (intro frame)?) simp
qed

lemma channels_onAccept: "stays channels_ok (onAccept C k)"
proof (rule gives_stays)
  note quiet = gives_quiet [where X = "{}"]
  have guarded: "gives (\<lambda>w. \<forall>x \<in> {}. unused w x) (case p of (alive, s) \<Rightarrow> if \<not> alive
      then throw (UB ''use of a destroyed acceptor'')
      else bnd (SocketImpl_acceptConnection (c_os C) s) (createServiceHandler C)) (\<lambda>_ _. True)" for p
    using gives_bnd [OF gives_acceptConnection gives_createServiceHandler] by (cases p) (simp add: gives_throw)
  show "gives (\<lambda>w. \<forall>x \<in> {}. unused w x) (onAccept C k) (\<lambda>_ _. True)"
    unfolding onAccept_def
    by (rule gives_andthen [OF quiet gives_bnd [OF quiet guarded]]) (intro frame)+
qed

lemma callback_channels:
  assumes S: "send_documented (c_os C)"
  shows "valid (\<lambda>w. (lifetime_ok w \<and> channels_ok w) \<and> older N M w \<and> (\<exists>j < nobs w. observers w j = mkObserver p k m))
    (proxy_dispatch C p m k) (\<lambda>_ w. (lifetime_ok w \<and> channels_ok w) \<and> older N M w)
    (\<lambda>w. (lifetime_ok w \<and> channels_ok w) \<and> older N M w)"
proof (rule validI, elim conjE)
  fix w assume w: "lifetime_ok w" "channels_ok w" "older N M w" "\<exists>j < nobs w. observers w j = mkObserver p k m"
  have "channels_ok (snd (proxy_dispatch C p m k w))"
  proof (cases p)
    case (SessionObj s)
    with w(1,4) have "s < nsess w" by (auto dest!: lifetime_target simp: place_def mkObserver_def split: if_splits)
    with channels_session_callback [OF S w(2)] show ?thesis by (simp add: proxy_dispatch_def SessionObj)
  next
    case AcceptorObj
    with channels_onAccept [of C k] w(2) show ?thesis by (simp add: proxy_dispatch_def stays_def throw_def)
  qed
  moreover have "outcome (\<lambda>_ w. lifetime_ok w \<and> older N M w) (\<lambda>w. lifetime_ok w \<and> older N M w)
      (proxy_dispatch C p m k w)"
    by (rule validD [OF callback_safe [OF S]]) (use w in blast)
  ultimately have "outcome (\<lambda>_ w. (lifetime_ok w \<and> older N M w) \<and> channels_ok w)
      (\<lambda>w. (lifetime_ok w \<and> older N M w) \<and> channels_ok w) (proxy_dispatch C p m k w)"
    by (intro outcome_conj [where P = channels_ok])
  then show "outcome (\<lambda>_ w. (lifetime_ok w \<and> channels_ok w) \<and> older N M w)
      (\<lambda>w. (lifetime_ok w \<and> channels_ok w) \<and> older N M w) (proxy_dispatch C p m k w)"
    by (rule outcome_mono) auto
qed

interpretation data_path: reactor_client "proxy_dispatch (documented C)" "\<lambda>w. lifetime_ok w \<and> channels_ok w" for C
  by unfold_locales (intro poll_stable_conj reactor_stable_poll [OF lifetime_stable] channels_stable, simp add: lifetime_registry,
    rule callback_channels [OF documented_send])


section \<open>The worker\<close>

lemma channels_ok_log: "channels_ok w \<Longrightarrow> channels_ok (w\<lparr>log_text := t\<rparr>)"
  by (erule channels_ok_cong [rotated]) (simp add: channels_def plan_def traffic_def)

lemma channels_log: "preserves channels (log_msg C (ret t))"
  by (rule preserves_channels; intro frame)

lemma channels_make_acceptor: "stays channels_ok (make_acceptor C p b)"
proof (rule gives_stays)
  note quiet = gives_quiet [where X = "{}"]
  have alloc: "gives (\<lambda>w. \<forall>x \<in> {}. unused w x) (alloc_socket S fd) (\<lambda>_ w. \<forall>x \<in> {}. unused w x)" for S fd
    by (rule gives_weaken [OF gives_alloc]) simp
  have server: "gives (\<lambda>w. \<forall>x \<in> {}. unused w x) (ServerSocket_ctor (c_os C) q n) (\<lambda>_ w. \<forall>x \<in> {}. unused w x)" for q n
    unfolding ServerSocket_ctor_def by (rule gives_bnd [OF alloc quiet]) (intro frame)+
  show "gives (\<lambda>w. \<forall>x \<in> {}. unused w x) (make_acceptor C p b) (\<lambda>_ w. \<forall>x \<in> {}. unused w x)"
    unfolding make_acceptor_def CPOCOProxyAcceptor_ctor_def
    by (rule gives_bnd [OF server quiet]; intro frame preserves_modify preserves_io_traffic [OF addEventHandler_frame])
      (simp_all add: plan_def traffic_def)
qed

lemma channels_reset_server_socket: "preserves channels reset_server_socket"
proof (rule preserves_channels)
  note blind_close [frame del]
  show "preserves plan reset_server_socket" unfolding reset_server_socket_def
    by (intro frame preserves_modify) (simp add: plan_def)
  show "preserves traffic reset_server_socket" unfolding reset_server_socket_def
    by (intro frame preserves_modify) (simp add: traffic_def)
qed

lemma channels_resolve: "preserves channels (resolve C i q)"
  by (cases "c_resolve C i q") (auto simp: resolve_def preserves_throw preserves_ret)

lemma channels_resets: "preserves channels reset_acceptor" "preserves channels reset_reactor" "preserves channels make_reactor"
  by (rule preserves_channels;
      unfold reset_acceptor_def CPOCOProxyAcceptor_dtor_def reset_reactor_def make_reactor_def;
      intro frame preserves_modify preserves_io_traffic [OF removeEventHandler_frame];
      simp add: plan_def traffic_def)+

lemmas channels_quiet = channels_resets [THEN stays_channels] channels_reset_server_socket [THEN stays_channels]
  channels_resolve [THEN stays_channels] channels_log [THEN stays_channels]

lemma channels_loop:
  assumes S: "send_documented (c_os C)"
  shows "valid (\<lambda>w. lifetime_ok w \<and> channels_ok w) (worker_code C c b stop WLoop) (\<lambda>_. channels_ok) (\<lambda>_. False)"
proof -
  let ?P = "\<lambda>w. lifetime_ok w \<and> channels_ok w"
  have "keeps ?P (if stop then dispatch_all (proxy_dispatch C) Shutdown else reactor_turn (proxy_dispatch C) (c_os C))"
    using data_path.keeps_turn [of C] data_path.keeps_dispatch_all [of C] S by (simp add: documented_id)
  then have "valid ?P (if stop then dispatch_all (proxy_dispatch C) Shutdown else reactor_turn (proxy_dispatch C) (c_os C))
      (\<lambda>_. channels_ok) channels_ok"
    unfolding keeps_def by (rule valid_post) simp_all
  then show ?thesis
    unfolding worker_code.simps
    by (rule valid_try_ret) (simp_all add: channels_ok_log)
qed

lemma channels_worker_code:
  assumes S: "send_documented (c_os C)" and "worker_world (Some p) w" and ok: "channels_ok w"
    and run: "worker_code C c b stop p w = (Inr r, w')"
  shows "channels_ok w'"
proof (cases "p = WLoop")
  case True
  with assms(2) ok have "lifetime_ok w \<and> channels_ok w" by (simp add: worker_world_def)
  from validD [OF channels_loop [where c = c and b = b and stop = stop, OF S] this] run True show ?thesis by simp
next
  case False
  have "stays channels_ok (worker_code C c b stop p)"
    using False by (cases p; simp only: worker_code.simps;
        intro stays stays_in_try stays_ret channels_quiet channels_make_acceptor channels_ok_log; simp)
  with ok run show ?thesis by (force simp: stays_def)
qed

lemma channels_reach:
  assumes S: "send_documented (c_os C)" and "sys_reach C M y"
  shows "channels_ok (sy_world y)"
  using assms(2)
proof (induction rule: sys_reach.induct)
  case Boot
  show ?case
    by (simp add: boot_def initial_world_def channels_ok_def no_timeouts_def sample_sock_def silent_def)
next
  case (Run y act y')
  have "worker_world (sys_thread y) (sy_world y)"
    using sys_reach_inv [OF Run(1) S] by (simp add: sys_inv_def)
  with channels_worker_code [OF S] Run(3) show ?case
    by (intro sys_step_world [where P = channels_ok, OF Run(2)]) auto
qed


section \<open>Property\<close>

text \<open>C2: Sessions relay and are isolated, through the whole program and in every interleaving. In every reachable
  state and for every session that has ever been accepted, dead or alive: what the system took for
  one side is a subsequence of what came in on the other side of the same session, in order and
  without repetition, and no other session has either of its sockets, so no byte of one client
  reaches another.\<close>

theorem relay_isolated:
  assumes "send_documented (c_os C)" and "sys_reach C M y" and "s < nsess (sy_world y)"
  shows "relays (sy_world y) s
    \<and> (\<forall>t < nsess (sy_world y). t \<noteq> s \<longrightarrow> session_sockets (sy_world y) s \<inter> session_sockets (sy_world y) t = {})"
  using channels_reach [OF assms(1,2)] assms(3) by (auto simp: channels_ok_def)

text \<open>
  A network in which every wait is long and every \<open>send\<close> takes at most three bytes. The button is switched on;
  three turns of the reactor accept three connections, and the first session relays both ways: the
  non-blocking back socket takes three of five bytes.
\<close>

definition relay_config :: config where
  "relay_config = sample_config\<lparr>c_os := sample_os\<lparr>os_fuel := Suc (Suc 0), os_waited := \<lambda>_. 300000\<rparr>\<rparr>"

definition three_turns :: "sys_act list" where
  "three_turns = switch_on @ replicate 6 Work"

lemma run_three_turns: "\<exists>y. sys_exec relay_config sample_mfc three_turns (boot sample_mfc) = Some y
    \<and> nsess (sy_world y) = 3 \<and> sent_of (sy_world y) 2 = [1, 2, 3] \<and> received_of (sy_world y) 1 = [1, 2, 3, 4, 5]
    \<and> sent_of (sy_world y) 1 = [1, 2, 3, 4, 5]"
  by (simp add: three_turns_def switch_on_def relay_config_def run_simps cong: eval_cong)

theorem relay_isolated_witness:
  "\<exists>y. sys_exec relay_config sample_mfc three_turns (boot sample_mfc) = Some y
    \<and> sent_of (sy_world y) 2 = [1, 2, 3] \<and> relays (sy_world y) 0
    \<and> session_sockets (sy_world y) 0 \<inter> session_sockets (sy_world y) 1 = {}"
proof -
  obtain y where y: "sys_exec relay_config sample_mfc three_turns (boot sample_mfc) = Some y"
    "nsess (sy_world y) = 3" "sent_of (sy_world y) 2 = [1, 2, 3]" using run_three_turns by blast
  have S: "send_documented (c_os relay_config)"
    using sample_send_documented by (simp add: relay_config_def send_documented_def)
  have "0 < nsess (sy_world y)" using y(2) by simp
  from relay_isolated [OF S sys_exec_reach [OF y(1) sys_reach.Boot] this] y show ?thesis by simp
qed

end
