(* ===== verification/Leftover_Sessions.thy ===== *)
theory Leftover_Sessions
  imports Isolation
begin

text \<open>
  What the end of a worker leaves: the sessions. Acceptor, reactor and server socket are reset, and
  with the reactor all observers go; a session is ended only by its own callbacks, and nobody calls
  them any more, nor does a later worker.
\<close>

section \<open>The worker's statements and a session without observers\<close>

lemma unreachable_log: "unreachable s x w \<Longrightarrow> unreachable s x (w\<lparr>log_text := t\<rparr>)"
  by (simp add: unreachable_def)

lemma view_resolve: "preserves (view s) (resolve C i q)"
  by (cases "c_resolve C i q") (auto simp: resolve_def preserves_throw preserves_ret)

lemma view_make_reactor: "preserves (view s) make_reactor"
  unfolding make_reactor_def by (rule preserves_modify) (simp add: view_def)

lemma view_make_acceptor: "preserves (view s) (make_acceptor C p b)"
  unfolding make_acceptor_def ServerSocket_ctor_def CPOCOProxyAcceptor_ctor_def SocketImpl_bind_def
    SocketImpl_setRawOption_def SocketImpl_listen_def
  by (intro frame preserves_modify view_addEventHandler)
    (simp_all add: view_def acceptor_observer_def mkObserver_def)

lemma view_reset_acceptor: "preserves (view s) reset_acceptor"
  unfolding reset_acceptor_def CPOCOProxyAcceptor_dtor_def
  by (intro frame preserves_modify view_removeEventHandler)
    (simp_all add: view_def acceptor_observer_def mkObserver_def)

lemma view_reset_server_socket: "preserves (view s) reset_server_socket"
  unfolding reset_server_socket_def by (intro frame preserves_modify) (simp add: view_def)

lemma unreachable_reset_reactor: "stays (unreachable s x) reset_reactor"
  by (simp add: stays_def reset_reactor_def comp_simps unreachable_def)

lemmas unreachable_quiet = unreachable_reset_reactor
  view_resolve [THEN stays_view] view_make_reactor [THEN stays_view] view_make_acceptor [THEN stays_view]
  view_reset_acceptor [THEN stays_view] view_reset_server_socket [THEN stays_view]
  view_log_msg [OF preserves_ret, THEN stays_view]

lemma unreachable_loop:
  assumes S: "send_documented (c_os C)"
  shows "valid (\<lambda>w. lifetime_ok w \<and> unreachable s x w) (worker_code C c b stop WLoop) (\<lambda>_. unreachable s x) (\<lambda>_. False)"
proof -
  let ?P = "\<lambda>w. lifetime_ok w \<and> unreachable s x w"
  have "keeps ?P (if stop then dispatch_all (proxy_dispatch C) Shutdown else reactor_turn (proxy_dispatch C) (c_os C))"
    using leak.keeps_turn [where C = C and s = s and x = x] leak.keeps_dispatch_all [where C = C and s = s and x = x] S by (simp add: documented_id)
  then have "valid ?P (if stop then dispatch_all (proxy_dispatch C) Shutdown else reactor_turn (proxy_dispatch C) (c_os C))
      (\<lambda>_. unreachable s x) (unreachable s x)"
    unfolding keeps_def by (rule valid_post) simp_all
  then show ?thesis
    unfolding worker_code.simps by (rule valid_try_ret) (simp_all add: unreachable_log)
qed

lemma unreachable_worker_code:
  assumes S: "send_documented (c_os C)" and "worker_world (Some p) w" and un: "unreachable s x w"
    and run: "worker_code C c b stop p w = (Inr r, w')"
  shows "unreachable s x w'"
proof (cases "p = WLoop")
  case True
  with assms(2) un have "lifetime_ok w \<and> unreachable s x w" by (simp add: worker_world_def)
  from validD [OF unreachable_loop [where c = c and b = b and stop = stop, OF S] this] run True show ?thesis by simp
next
  case False
  have "stays (unreachable s x) (worker_code C c b stop p)"
    using False by (cases p; simp only: worker_code.simps;
        intro stays stays_in_try stays_ret unreachable_quiet unreachable_log; simp)
  with un run show ?thesis by (force simp: stays_def)
qed

lemma unreachable_step:
  assumes S: "send_documented (c_os C)" and "sys_reach C M y" and "sys_step C M act y = Some y'"
    and un: "unreachable s x (sy_world y)"
  shows "unreachable s x (sy_world y')"
proof -
  have "worker_world (sys_thread y) (sy_world y)"
    using sys_reach_inv [OF assms(2) S] by (simp add: sys_inv_def)
  with unreachable_worker_code [OF S] un show ?thesis
    by (intro sys_step_world [where P = "unreachable s x", OF assms(3)]) auto
qed

lemma unreachable_exec:
  assumes "send_documented (c_os C)"
  shows "sys_reach C M y \<Longrightarrow> sys_exec C M acts y = Some y' \<Longrightarrow> unreachable s x (sy_world y) \<Longrightarrow>
    unreachable s x (sy_world y')"
proof (induction acts arbitrary: y)
  case (Cons act acts)
  then obtain z where z: "sys_step C M act y = Some z" "sys_exec C M acts z = Some y'"
    by (auto simp: bind_eq_Some_conv)
  from unreachable_step [OF assms Cons.prems(1) z(1) Cons.prems(3)] z(2) sys_reach.Run [OF Cons.prems(1) z(1)]
  show ?case by (intro Cons.IH)
qed simp

lemma joined_unreachable:
  assumes "send_documented (c_os C)" and "sys_reach C M y" and "joined (sys_server y)" and "s < nsess (sy_world y)"
  shows "unreachable s (sessions (sy_world y) s) (sy_world y)"
proof -
  have "worker_world (sys_thread y) (sy_world y)"
    using sys_reach_inv [OF assms(2,1)] by (simp add: sys_inv_def)
  with assms(3) have "stopped (sy_world y)" by (auto simp: joined_def worker_world_def sys_thread_def)
  with assms(4) show ?thesis by (auto simp: unreachable_def stopped_def enabled_def)
qed

section \<open>Property\<close>

text \<open>C12: A session that is left when the worker has ended is lost. The shutdown notification ends the
  sessions that are registered; acceptor, reactor and server socket are reset, but nothing ends a
  session that was never registered (its back connection was refused at once) or could not be
  closed. Once the worker is finished or joined, no observer refers to any session, and in every
  continuation, whatever the user does, also when the server is switched on again, the record of
  each session made so far stays as it is: an alive one is never closed nor destroyed.\<close>

theorem off_leaves_sessions:
  assumes "send_documented (c_os C)" and "sys_reach C M y" and "joined (sys_server y)"
    and "s < nsess (sy_world y)" and "sys_exec C M acts y = Some y'"
  shows "sessions (sy_world y') s = sessions (sy_world y) s
    \<and> (\<forall>j < nobs (sy_world y'). ob_obj (observers (sy_world y') j) \<noteq> Some (SessionObj s))"
  using unreachable_exec [OF assms(1,2,5) joined_unreachable [OF assms(1-4)]] by (simp add: unreachable_def)

text \<open>
  A network that is down. The button is switched on, three turns of the reactor accept three
  connections, the button is switched off and the worker ends; then \<open>Deactivate\<close> returns, the button
  is switched on again and a new worker serves.
\<close>

definition leaky_config :: config where
  "leaky_config = relay_config\<lparr>c_os := (c_os relay_config)\<lparr>os_connect := \<lambda>_ _ _. Err ENETDOWN\<rparr>\<rparr>"

definition served_and_off :: "sys_act list" where
  "served_and_off = three_turns @ [User (Ui Click), User Caller_thread, User Caller_thread, Work, Work, Work, Work, Work]"

definition on_again :: "sys_act list" where
  "on_again = User Caller_thread # switch_on @ replicate 4 Work"

lemma run_off_and_on: "\<exists>y. sys_exec leaky_config sample_mfc served_and_off (boot sample_mfc) = Some y
    \<and> joined (sys_server y) \<and> nsess (sy_world y) = 3 \<and> ss_alive (sessions (sy_world y) 0)
    \<and> (\<exists>y'. sys_exec leaky_config sample_mfc on_again y = Some y' \<and> nsess (sy_world y') = 4
         \<and> sockfd (socks (sy_world y') (ss_front (sessions (sy_world y) 0))) \<noteq> POCO_INVALID_SOCKET)"
  by (simp add: served_and_off_def on_again_def three_turns_def switch_on_def leaky_config_def relay_config_def
      run_simps POCO_INVALID_SOCKET_def cong: eval_cong)

theorem off_leaves_sessions_witness:
  "\<exists>y y'. sys_exec leaky_config sample_mfc served_and_off (boot sample_mfc) = Some y
    \<and> sys_exec leaky_config sample_mfc on_again y = Some y' \<and> nsess (sy_world y') = 4
    \<and> ss_alive (sessions (sy_world y') 0)
    \<and> sockfd (socks (sy_world y') (ss_front (sessions (sy_world y') 0))) \<noteq> POCO_INVALID_SOCKET"
proof -
  obtain y y' where y: "sys_exec leaky_config sample_mfc served_and_off (boot sample_mfc) = Some y"
    "joined (sys_server y)" "nsess (sy_world y) = 3" "ss_alive (sessions (sy_world y) 0)"
    and y': "sys_exec leaky_config sample_mfc on_again y = Some y'" "nsess (sy_world y') = 4"
      "sockfd (socks (sy_world y') (ss_front (sessions (sy_world y) 0))) \<noteq> POCO_INVALID_SOCKET"
    using run_off_and_on by blast
  have S: "send_documented (c_os leaky_config)"
    using sample_send_documented by (simp add: leaky_config_def relay_config_def send_documented_def)
  have "0 < nsess (sy_world y)" using y(3) by simp
  from off_leaves_sessions [OF S sys_exec_reach [OF y(1) sys_reach.Boot] y(2) this y'(1)] y y' show ?thesis
    by auto
qed

end
