(* ===== verification/Util_Text.thy ===== *)
theory Util_Text
  imports Prelude "HOL-Library.Sublist"
begin

text \<open>
  The text and path functions of \<open>common/Util.cpp\<close>. Each exists for \<open>std::string\<close> and
  \<open>std::wstring\<close>; the definitions are over any type of characters, so one definition stands for
  both overloads, with the backslash of the character type as an argument where the code has a
  literal. Loops that need not end are partial functions: \<open>None\<close> is a loop without end.
\<close>

section \<open>Searching\<close>

text \<open>\<open>find\<close> and \<open>rfind\<close> of \<open>std::basic_string\<close>; \<open>None\<close> is \<open>npos\<close>.\<close>

definition find_from :: "'c list \<Rightarrow> 'c list \<Rightarrow> nat \<Rightarrow> nat option" where
  "find_from s pat pos = List.find (\<lambda>i. take (length pat) (drop i s) = pat)
     [pos..<Suc (length s) - length pat]"

definition rfind :: "'c list \<Rightarrow> 'c \<Rightarrow> nat option" where
  "rfind s c = List.find (\<lambda>i. s ! i = c) (rev [0..<length s])"

definition substr :: "'c list \<Rightarrow> nat \<Rightarrow> nat \<Rightarrow> 'c list" where
  "substr s pos n = take n (drop pos s)"

section \<open>Replacing and splitting\<close>

partial_function (option) replace_loop :: "'c list \<Rightarrow> 'c list \<Rightarrow> 'c list \<Rightarrow> nat \<Rightarrow> 'c list option" where
  "replace_loop pattern replace result offset =
     (case find_from result pattern offset of
        None \<Rightarrow> Some result
      | Some pos \<Rightarrow> replace_loop pattern replace
          (take pos result @ replace @ drop (pos + length pattern) result) (pos + length replace))"

definition replace_all :: "'c list \<Rightarrow> 'c list \<Rightarrow> 'c list \<Rightarrow> 'c list option" where
  "replace_all message pattern replace = replace_loop pattern replace message 0"

partial_function (option) split_loop ::
  "'c list \<Rightarrow> 'c list \<Rightarrow> nat \<Rightarrow> nat \<Rightarrow> 'c list list \<Rightarrow> 'c list list option" where
  "split_loop str seperator prev_pos pos out =
     (case find_from str seperator pos of
        None \<Rightarrow> Some (out @ [drop prev_pos str])
      | Some p \<Rightarrow> split_loop str seperator (p + length seperator) (p + length seperator)
          (out @ [substr str prev_pos (p - prev_pos)]))"

definition split_string :: "'c list \<Rightarrow> 'c list \<Rightarrow> 'c list list \<Rightarrow> 'c list list option" where
  "split_string str seperator out = split_loop str seperator 0 0 out"

text \<open>
  The overload with a single delimiter reads the text with \<open>std::getline\<close>: it fails at the end of
  the stream, and it removes the delimiter it stops at.
\<close>

function getlines :: "'c \<Rightarrow> 'c list \<Rightarrow> 'c list list" where
  "getlines delimiter iss =
     (if iss = [] then []
      else takeWhile (\<lambda>c. c \<noteq> delimiter) iss
             # getlines delimiter (tl (dropWhile (\<lambda>c. c \<noteq> delimiter) iss)))"
  by pat_completeness auto

termination
proof (relation "measure (\<lambda>(d, s). length s)")
  show "((d, tl (dropWhile (\<lambda>c. c \<noteq> d) s)), (d, s)) \<in> measure (\<lambda>(d, s). length s)"
    if "s \<noteq> []" for d :: 'c and s
  proof -
    have "length (dropWhile (\<lambda>c. c \<noteq> d) s) \<le> length s" by (rule length_dropWhile_le)
    then show ?thesis using that by (cases "dropWhile (\<lambda>c. c \<noteq> d) s") (simp_all del: dropWhile_eq_Nil_conv)
  qed
qed simp

declare getlines.simps [simp del]
declare replace_loop.simps [code] split_loop.simps [code]

definition split_string_char :: "'c list \<Rightarrow> 'c \<Rightarrow> 'c list list \<Rightarrow> 'c list list" where
  "split_string_char str delimiter out = out @ getlines delimiter str"

section \<open>Paths\<close>

definition GetExtractFileName :: "'c \<Rightarrow> 'c list \<Rightarrow> 'c list" where
  "GetExtractFileName bs path = (case rfind path bs of
     None \<Rightarrow> [] | Some pos \<Rightarrow> substr path (pos + 1) (length path - (pos + 1)))"

definition GetExtractPath :: "'c \<Rightarrow> 'c list \<Rightarrow> 'c list" where
  "GetExtractPath bs path = (case rfind path bs of None \<Rightarrow> [] | Some pos \<Rightarrow> substr path 0 pos)"

text \<open>
  \<open>GetProcessPath\<close>: \<open>file\<close> is the text \<open>GetModuleFileName\<close> left in the buffer. The result is the
  returned number and \<open>dest\<close>.
\<close>

definition GetProcessPath :: "'c \<Rightarrow> 'c list \<Rightarrow> 'c list \<Rightarrow> int \<times> 'c list" where
  "GetProcessPath bs file dest = (case rfind file bs of
     None \<Rightarrow> (1, dest) | Some pos \<Rightarrow> (0, substr file 0 pos))"

text \<open>\<open>CreateDirectoryD\<close>: the directories it asks the system to create, in order.\<close>

fun create_loop :: "'c \<Rightarrow> 'c list \<Rightarrow> 'c list list \<Rightarrow> 'c list list" where
  "create_loop bs add_path [] = []"
| "create_loop bs add_path (t # ts) = (let p = (add_path @ t) @ [bs] in p # create_loop bs p ts)"

definition CreateDirectoryD :: "'c \<Rightarrow> 'c list \<Rightarrow> 'c list list" where
  "CreateDirectoryD bs path = (let vec_split = split_string_char path bs [] in
     if length vec_split < 2 then [] else create_loop bs (hd vec_split @ [bs]) (tl vec_split))"

section \<open>Searching, characterised\<close>

definition occurs_at :: "'c list \<Rightarrow> 'c list \<Rightarrow> nat \<Rightarrow> bool" where
  "occurs_at pat s i \<longleftrightarrow> i + length pat \<le> length s \<and> take (length pat) (drop i s) = pat"

lemma find_from_None: "find_from s pat pos = None \<longleftrightarrow> (\<forall>i \<ge> pos. \<not> occurs_at pat s i)"
  by (auto simp: find_from_def occurs_at_def find_None_iff less_diff_conv)

lemma find_from_Some: "find_from s pat pos = Some i \<longleftrightarrow>
    pos \<le> i \<and> occurs_at pat s i \<and> (\<forall>j. pos \<le> j \<and> j < i \<longrightarrow> \<not> occurs_at pat s j)"
proof -
  have "find_from s pat pos = Some i \<longleftrightarrow>
      (\<exists>k < Suc (length s) - length pat - pos. i = pos + k \<and> take (length pat) (drop i s) = pat
        \<and> (\<forall>j < k. take (length pat) (drop (pos + j) s) \<noteq> pat))"
    by (auto simp: find_from_def find_Some_iff)
  also have "\<dots> \<longleftrightarrow> pos \<le> i \<and> occurs_at pat s i \<and> (\<forall>j. pos \<le> j \<and> j < i \<longrightarrow> \<not> occurs_at pat s j)"
    (is "?l \<longleftrightarrow> ?r")
  proof
    assume ?l
    then show ?r by (auto simp: occurs_at_def dest: le_Suc_ex)
  next
    assume r: ?r
    then have "\<forall>j < i - pos. take (length pat) (drop (pos + j) s) \<noteq> pat"
      by (auto simp: occurs_at_def)
    with r show ?l by (intro exI [of _ "i - pos"]) (auto simp: occurs_at_def)
  qed
  finally show ?thesis .
qed

lemma occurs_at_0: "occurs_at pat s 0 \<longleftrightarrow> prefix pat s"
  by (auto simp: occurs_at_def prefix_def take_is_prefix dest: sym)
     (metis append_take_drop_id)+

lemma occurs_at_append: "occurs_at pat (d @ s) (length d + i) \<longleftrightarrow> occurs_at pat s i"
  by (auto simp: occurs_at_def)

lemma find_from_append:
  "find_from (d @ s) pat (length d) = map_option (\<lambda>i. length d + i) (find_from s pat 0)"
proof (cases "find_from s pat 0")
  case None
  then have "\<not> occurs_at pat (d @ s) i" if "length d \<le> i" for i
    using that occurs_at_append [of pat d s "i - length d"] by (auto simp: find_from_None)
  then have "find_from (d @ s) pat (length d) = None" by (simp add: find_from_None)
  with None show ?thesis by simp
next
  case (Some i)
  then have "find_from (d @ s) pat (length d) = Some (length d + i)"
    using occurs_at_append [of pat d s] by (auto simp: find_from_Some dest: le_Suc_ex)
  with Some show ?thesis by simp
qed

lemma find_from_0: "find_from s pat 0 = (if prefix pat s then Some 0 else case s of [] \<Rightarrow> None
    | c # cs \<Rightarrow> map_option Suc (find_from cs pat 0))"
proof (cases "prefix pat s")
  case True
  then show ?thesis by (simp add: find_from_Some occurs_at_0)
next
  case no: False
  show ?thesis
  proof (cases s)
    case Nil
    with no show ?thesis by (auto simp: find_from_None occurs_at_def)
  next
    case (Cons c cs)
    have "find_from s pat 0 = find_from s pat 1"
    proof (cases "find_from s pat 1")
      case None
      then have "find_from s pat 0 = None"
        using no unfolding find_from_None by (metis One_nat_def Suc_leI neq0_conv occurs_at_0)
      with None show ?thesis by simp
    next
      case (Some i)
      then have "find_from s pat 0 = Some i"
        using no unfolding find_from_Some by (metis One_nat_def Suc_leI neq0_conv occurs_at_0 le0)
      with Some show ?thesis by simp
    qed
    with Cons no show ?thesis using find_from_append [of "[c]" cs pat] by simp
  qed
qed

section \<open>Replacing is a left-to-right scan\<close>

function replace_scan :: "'c list \<Rightarrow> 'c list \<Rightarrow> 'c list \<Rightarrow> 'c list" where
  "replace_scan pat rep s =
     (if pat = [] then s
      else if prefix pat s then rep @ replace_scan pat rep (drop (length pat) s)
      else case s of [] \<Rightarrow> [] | c # cs \<Rightarrow> c # replace_scan pat rep cs)"
  by pat_completeness auto

termination
proof (relation "measure (\<lambda>(pat, rep, s). length s)")
  show "((pat, rep, drop (length pat) s), (pat, rep, s)) \<in> measure (\<lambda>(pat, rep, s). length s)"
    if "pat \<noteq> []" "prefix pat s" for pat rep s :: "'c list"
    using that prefix_length_le [of pat s] by (cases pat) auto
qed simp_all

declare replace_scan.simps [simp del]

lemma replace_scan_None: "find_from s pat 0 = None \<Longrightarrow> pat \<noteq> [] \<Longrightarrow> replace_scan pat rep s = s"
proof (induction s)
  case Nil
  then show ?case by (simp add: replace_scan.simps)
next
  case (Cons c cs)
  then have "\<not> prefix pat (c # cs)" "find_from cs pat 0 = None"
    by (auto simp: find_from_0 [of "c # cs"] split: if_splits)
  with Cons show ?case by (simp add: replace_scan.simps [of _ _ "c # cs"])
qed

lemma replace_scan_Some: "find_from s pat 0 = Some i \<Longrightarrow> pat \<noteq> [] \<Longrightarrow>
    replace_scan pat rep s = take i s @ rep @ replace_scan pat rep (drop (i + length pat) s)"
proof (induction s arbitrary: i)
  case Nil
  then show ?case by (simp add: find_from_0)
next
  case (Cons c cs)
  show ?case
  proof (cases "prefix pat (c # cs)")
    case True
    with Cons.prems show ?thesis by (simp add: find_from_0 [of "c # cs"] replace_scan.simps [of _ _ "c # cs"])
  next
    case False
    with Cons.prems obtain j where "find_from cs pat 0 = Some j" "i = Suc j"
      by (auto simp: find_from_0 [of "c # cs"])
    with False Cons show ?thesis by (simp add: replace_scan.simps [of _ _ "c # cs"])
  qed
qed

lemma replace_loop_scan:
  assumes "pat \<noteq> []"
  shows "replace_loop pat rep (d @ s) (length d) = Some (d @ replace_scan pat rep s)"
proof (induction "length s" arbitrary: d s rule: less_induct)
  case less
  show ?case
  proof (cases "find_from s pat 0")
    case None
    with assms show ?thesis
      by (subst replace_loop.simps) (simp add: find_from_append replace_scan_None)
  next
    case (Some i)
    then have "i + length pat \<le> length s" by (simp add: find_from_Some occurs_at_def)
    then have "length (drop (i + length pat) s) < length s" using assms by (cases pat) auto
    from less [OF this, of "d @ take i s @ rep"] \<open>i + length pat \<le> length s\<close> assms Some show ?thesis
      by (subst replace_loop.simps) (simp add: find_from_append replace_scan_Some add.commute add.left_commute)
  qed
qed

section \<open>Splitting\<close>

fun intercalate :: "'c list \<Rightarrow> 'c list list \<Rightarrow> 'c list" where
  "intercalate sep [] = []"
| "intercalate sep [p] = p"
| "intercalate sep (p # q # ps) = p @ sep @ intercalate sep (q # ps)"

lemma intercalate_Cons: "ps \<noteq> [] \<Longrightarrow> intercalate sep (p # ps) = p @ sep @ intercalate sep ps"
  by (cases ps) simp_all

lemma take_no_occurrence:
  assumes "find_from s pat 0 = Some i"
  shows "pat \<noteq> [] \<Longrightarrow> find_from (take i s) pat 0 = None"
proof -
  assume pat: "pat \<noteq> []"
  have "\<not> occurs_at pat (take i s) j" for j
  proof
    assume o: "occurs_at pat (take i s) j"
    then have "j + length pat \<le> i" by (auto simp: occurs_at_def)
    moreover from this o have "occurs_at pat s j"
      by (auto simp: occurs_at_def drop_take min_def split: if_splits)
    ultimately show False using assms pat by (cases pat) (auto simp: find_from_Some)
  qed
  then show ?thesis by (simp add: find_from_None)
qed

lemma split_loop_parts:
  assumes "sep \<noteq> []"
  shows "\<exists>ps. split_loop (d @ s) sep (length d) (length d) out = Some (out @ ps) \<and> ps \<noteq> []
    \<and> intercalate sep ps = s \<and> (\<forall>p \<in> set ps. find_from p sep 0 = None)"
proof (induction "length s" arbitrary: d s out rule: less_induct)
  case less
  show ?case
  proof (cases "find_from s sep 0")
    case None
    then show ?thesis by (subst split_loop.simps) (simp add: find_from_append)
  next
    case (Some i)
    then have occ: "i + length sep \<le> length s" "take (length sep) (drop i s) = sep"
      by (simp_all add: find_from_Some occurs_at_def)
    let ?d = "d @ take i s @ sep" and ?s = "drop (i + length sep) s"
    have split: "d @ s = ?d @ ?s"
      using occ(2) by (metis append.assoc append_take_drop_id drop_drop add.commute)
    have "length ?s < length s" using occ(1) assms by (cases sep) auto
    from less [OF this, of ?d "out @ [take i s]"] obtain ps where
      ps: "split_loop (d @ s) sep (length ?d) (length ?d) (out @ [take i s]) = Some (out @ take i s # ps)"
        "ps \<noteq> []" "intercalate sep ps = ?s" "\<forall>p \<in> set ps. find_from p sep 0 = None"
      unfolding split by auto
    have "length ?d = length d + i + length sep" using occ(1) by simp
    then have "split_loop (d @ s) sep (length d) (length d) out = Some (out @ take i s # ps)"
      using ps(1) Some by (subst split_loop.simps) (simp add: find_from_append substr_def add.assoc)
    moreover have "intercalate sep (take i s # ps) = s"
      using ps(2,3) split by (simp add: intercalate_Cons)
    ultimately show ?thesis using ps(4) take_no_occurrence [OF Some assms] by (intro exI [of _ "take i s # ps"]) simp
  qed
qed

lemma getlines_Nil [simp]: "getlines c [] = []"
  by (simp add: getlines.simps)

lemma getlines_last:
  assumes "c \<notin> set p" and "p \<noteq> []"
  shows "getlines c p = [p]"
proof -
  have "dropWhile (\<lambda>x. x \<noteq> c) p = []" "takeWhile (\<lambda>x. x \<noteq> c) p = p"
    using assms(1) by auto
  then show ?thesis using assms(2) by (simp only: getlines.simps [of c p] if_False list.sel getlines_Nil)
qed

lemma getlines_clean: "p \<in> set (getlines c s) \<Longrightarrow> c \<notin> set p"
proof (induction c s rule: getlines.induct)
  case (1 c s)
  then show ?case
    by (cases "s = []") (auto simp: getlines.simps [of c s] dest: set_takeWhileD)
qed

lemma find_from_single: "find_from s [c] 0 = None \<longleftrightarrow> c \<notin> set s"
  by (induction s) (auto simp: find_from_0 [of "_ # _"] find_from_0 [of "[]"])

lemma find_from_char_0:
  "find_from s [c] 0 = (if c \<in> set s then Some (length (takeWhile (\<lambda>x. x \<noteq> c) s)) else None)"
  by (induction s) (auto simp: find_from_0 [of "_ # _"] find_from_0 [of "[]"])

lemma find_from_char:
  "find_from s [c] n =
     (if c \<in> set (drop n s) then Some (n + length (takeWhile (\<lambda>x. x \<noteq> c) (drop n s))) else None)"
proof (cases "n \<le> length s")
  case True
  then have "s = take n s @ drop n s" "length (take n s) = n" by simp_all
  then have "find_from s [c] n = map_option ((+) n) (find_from (drop n s) [c] 0)"
    using find_from_append [of "take n s" "drop n s" "[c]"] by simp
  then show ?thesis by (simp add: find_from_char_0)
next
  case False
  then show ?thesis by (simp add: find_from_def)
qed

lemma getlines_intercalate:
  assumes "ps \<noteq> []" and "\<forall>p \<in> set ps. c \<notin> set p"
  shows "getlines c (intercalate [c] ps)
    @ (if intercalate [c] ps = [] \<or> last (intercalate [c] ps) = c then [[]] else []) = ps"
  using assms
proof (induction ps)
  case (Cons p ps)
  have tw: "takeWhile (\<lambda>x. x \<noteq> c) (p @ xs) = p @ takeWhile (\<lambda>x. x \<noteq> c) xs"
    "dropWhile (\<lambda>x. x \<noteq> c) (p @ xs) = dropWhile (\<lambda>x. x \<noteq> c) xs" for xs
    using Cons.prems(2) by (auto intro: takeWhile_append2 dropWhile_append2)
  show ?case
  proof (cases ps)
    case Nil
    have "last p \<noteq> c" if "p \<noteq> []" using that Cons.prems(2) last_in_set [of p] by auto
    with Nil show ?thesis
      using Cons.prems(2) by (cases "p = []") (simp_all add: getlines_last)
  next
    case (Cons q qs)
    then have ne: "ps \<noteq> []" by simp
    let ?t = "intercalate [c] ps"
    have ih: "getlines c ?t @ (if ?t = [] \<or> last ?t = c then [[]] else []) = ps"
      using Cons.IH ne Cons.prems(2) by simp
    have "getlines c (p @ c # ?t) = p # getlines c ?t"
      by (subst getlines.simps) (simp add: tw)
    with ih ne show ?thesis by (auto simp: intercalate_Cons)
  qed
qed simp

section \<open>Paths, characterised\<close>

lemma rfind_None: "rfind s c = None \<longleftrightarrow> c \<notin> set s"
  by (auto simp: rfind_def find_None_iff in_set_conv_nth)

lemma rfind_Some:
  assumes "rfind s c = Some i"
  shows "s = take i s @ c # drop (Suc i) s" and "c \<notin> set (drop (Suc i) s)" and "i < length s"
proof -
  obtain k where k: "k < length s" "s ! i = c" "i = rev [0..<length s] ! k"
    "\<forall>j < k. s ! (rev [0..<length s] ! j) \<noteq> c"
    using assms by (auto simp: rfind_def find_Some_iff)
  then have i: "i = length s - Suc k" by (simp add: rev_nth)
  with k(1) show len: "i < length s" by simp
  show "s = take i s @ c # drop (Suc i) s" using k(2) len by (metis id_take_nth_drop)
  have "s ! j \<noteq> c" if "i < j" "j < length s" for j
    using k(4) [rule_format, of "length s - Suc j"] that i k(1) by (simp add: rev_nth)
  then show "c \<notin> set (drop (Suc i) s)" by (auto simp: in_set_conv_nth)
qed

definition dirs :: "'c \<Rightarrow> 'c list list \<Rightarrow> 'c list" where
  "dirs bs ps = concat (map (\<lambda>p. p @ [bs]) ps)"

lemma create_loop_map:
  "create_loop bs add ts = map (\<lambda>k. add @ dirs bs (take k ts)) [1..<Suc (length ts)]"
proof (induction ts arbitrary: add)
  case (Cons t ts)
  have "[1..<Suc (length (t # ts))] = 1 # map Suc [1..<Suc (length ts)]"
    by (simp add: map_Suc_upt upt_conv_Cons del: upt_Suc)
  then show ?case using Cons by (simp add: dirs_def comp_def del: upt_Suc)
qed simp

lemma dirs_getlines: "dirs c (getlines c s) = (if s = [] \<or> last s = c then s else s @ [c])"
proof (induction c s rule: getlines.induct)
  case (1 c s)
  show ?case
  proof (cases "s = []")
    case False
    let ?h = "takeWhile (\<lambda>x. x \<noteq> c) s" and ?d = "dropWhile (\<lambda>x. x \<noteq> c) s"
    have s: "s = ?h @ ?d" by simp
    have ih: "dirs c (getlines c s) = ?h @ c # dirs c (getlines c (tl ?d))"
      by (subst getlines.simps) (simp add: False dirs_def)
    show ?thesis
    proof (cases ?d)
      case Nil
      then have "?h = s" "last s \<noteq> c" using False by (auto simp: takeWhile_eq_all_conv)
      with ih Nil False show ?thesis by (simp add: dirs_def)
    next
      case (Cons x xs)
      then have "x = c" using hd_dropWhile [of "\<lambda>x. x \<noteq> c" s] by fastforce
      with Cons s have "s = ?h @ c # xs" by simp
      moreover from this have "last s = (if xs = [] then c else last xs)" by (metis last.simps last_appendR list.distinct(1))
      ultimately show ?thesis using ih Cons 1 [OF False] False by auto
    qed
  qed (simp add: dirs_def)
qed

section \<open>Properties\<close>

text \<open>C40: With a non-empty pattern \<open>replace_all\<close> ends, and it computes the left-to-right scan that
  replaces every non-overlapping occurrence once and never looks into a replacement.\<close>

theorem replace_all_scan:
  assumes "pattern \<noteq> []"
  shows "replace_all message pattern replace = Some (replace_scan pattern replace message)"
  using replace_loop_scan [OF assms, of replace "[]" message] by (simp add: replace_all_def)

theorem replace_all_scan_witness:
  "replace_all ''aaab'' ''aa'' ''xa'' = Some ''xaab''"
  using replace_all_scan [of "''aa''" "''aaab''" "''xa''"] by (simp add: replace_scan.simps)

text \<open>With an empty pattern \<open>replace_all\<close> never returns: the pattern is found at every offset.\<close>

theorem replace_all_endless: "replace_all message [] replace = None"
proof -
  have "False" if "replace_loop [] rep res off = Some r" "off \<le> length res" for rep res r :: "'a list" and off
  proof -
    have "pat = [] \<longrightarrow> off \<le> length res \<longrightarrow> False" if ret: "replace_loop pat rep res off = Some r"
      for pat rep res r :: "'a list" and off
    proof (rule replace_loop.raw_induct
        [where P = "\<lambda>pat rep res off r. pat = [] \<longrightarrow> off \<le> length res \<longrightarrow> False", OF _ ret])
      fix f and pat rep res r :: "'a list" and off
      assume ih: "\<And>pat rep res off r. f pat rep res off = Some r \<Longrightarrow> pat = [] \<longrightarrow> off \<le> length res \<longrightarrow> False"
        and eq: "(case find_from res pat off of None \<Rightarrow> Some res
          | Some pos \<Rightarrow> f pat rep (take pos res @ rep @ drop (pos + length pat) res) (pos + length rep)) = Some r"
      show "pat = [] \<longrightarrow> off \<le> length res \<longrightarrow> False"
      proof (intro impI)
        assume "pat = []" "off \<le> length res"
        then have "find_from res pat off = Some off" by (simp add: find_from_Some occurs_at_def)
        with eq \<open>pat = []\<close> \<open>off \<le> length res\<close> show False by (auto dest: ih)
      qed
    qed
    with that show False by blast
  qed
  then show ?thesis by (cases "replace_all message [] replace") (auto simp: replace_all_def)
qed

text \<open>With a non-empty separator \<open>split_string\<close> ends and cuts the text without loss: the pieces it
  appends, joined by the separator, are the text, and none of them contains the separator.\<close>

theorem split_string_parts:
  assumes "seperator \<noteq> []"
  shows "\<exists>ps. split_string str seperator out = Some (out @ ps) \<and> ps \<noteq> []
    \<and> intercalate seperator ps = str \<and> list_all (\<lambda>p. find_from p seperator 0 = None) ps"
  using split_loop_parts [OF assms, of "[]" str out] by (auto simp: split_string_def list_all_iff)

theorem split_string_parts_witness:
  "\<exists>ps. split_string ''a, b'' '', '' [] = Some ps \<and> intercalate '', '' ps = ''a, b''"
  using split_string_parts [of "'', ''" "''a, b''" "[]"] by auto

text \<open>The two overloads of \<open>split_string\<close> agree except at the end of the text: where a one-character
  separator yields an empty last piece (an empty text, or one that ends with the separator), the
  overload with a character yields none.\<close>

theorem split_overloads:
  "split_string str [delimiter] out = Some (split_string_char str delimiter out
     @ (if str = [] \<or> last str = delimiter then [[]] else []))"
proof -
  obtain ps where ps: "split_string str [delimiter] out = Some (out @ ps)" "ps \<noteq> []"
    "intercalate [delimiter] ps = str" "\<forall>p \<in> set ps. find_from p [delimiter] 0 = None"
    using split_loop_parts [of "[delimiter]" "[]" str out] by (auto simp: split_string_def)
  then show ?thesis
    using getlines_intercalate [of ps delimiter] by (auto simp: split_string_char_def find_from_single)
qed

text \<open>\<open>GetExtractPath\<close> and \<open>GetExtractFileName\<close> cut a path at its last backslash and lose nothing else;
  a path without a backslash has neither, not even a file name.\<close>

theorem path_parts:
  "if bs \<in> set path
   then GetExtractPath bs path @ [bs] @ GetExtractFileName bs path = path \<and> bs \<notin> set (GetExtractFileName bs path)
   else GetExtractPath bs path = [] \<and> GetExtractFileName bs path = []"
proof (cases "rfind path bs")
  case None
  then have "bs \<notin> set path" using rfind_None [of path bs] by simp
  with None show ?thesis by (simp add: GetExtractPath_def GetExtractFileName_def)
next
  case (Some i)
  then have "bs \<in> set path" using rfind_None [of path bs] by auto
  with Some rfind_Some [OF Some] show ?thesis
    by (simp add: GetExtractPath_def GetExtractFileName_def substr_def)
qed

text \<open>\<open>CreateDirectoryD\<close> creates every directory of the path from the outermost below the root to the
  path itself, each before the ones inside it; the last one is the path.\<close>

theorem CreateDirectoryD_prefixes:
  "\<exists>parts. CreateDirectoryD bs path = map (\<lambda>k. dirs bs (take k parts)) [2..<Suc (length parts)]
    \<and> list_all (\<lambda>p. bs \<notin> set p) parts
    \<and> dirs bs parts = (if path = [] \<or> last path = bs then path else path @ [bs])"
proof -
  let ?ps = "getlines bs path"
  have clean: "list_all (\<lambda>p. bs \<notin> set p) ?ps"
    by (auto simp: list_all_iff dest: getlines_clean)
  have "CreateDirectoryD bs path = map (\<lambda>k. dirs bs (take k ?ps)) [2..<Suc (length ?ps)]"
  proof (cases ?ps)
    case (Cons p ps)
    have "[2..<Suc (length (p # ps))] = map Suc [1..<Suc (length ps)]"
      by (simp add: map_Suc_upt numeral_2_eq_2 del: upt_Suc)
    with Cons show ?thesis
      by (auto simp: CreateDirectoryD_def split_string_char_def create_loop_map dirs_def comp_def Let_def simp del: upt_Suc)
  qed (simp add: CreateDirectoryD_def split_string_char_def)
  with clean dirs_getlines [of bs path] show ?thesis by (intro exI [of _ ?ps] conjI)
qed

end
