(* ===== verification/Logging.thy ===== *)
theory Logging
  imports Util_Text "HOL-Library.Word"
begin

text \<open>
  Logging as the program sets it up: the logger and the dynamic appender of plog
  (\<open>Logger.h\<close>, \<open>DynamicAppender.h\<close>), the text of a record (\<open>TxtFormatter.h\<close>), line ends and file
  header (\<open>NativeEOLConverter.h\<close>, \<open>UTF8Converter.h\<close>), plog's files (\<open>Util.h\<close>) and the project's own
  appenders \<open>OneDayFileAppender.h\<close> and \<open>WinConsoleAppender.h\<close>. Every appender writes under its
  mutex, so the records of all threads come one after the other.
\<close>

section \<open>Records\<close>

datatype Severity = sev_none | sev_fatal | sev_error | sev_warning | sev_info | sev_debug | sev_verbose

fun severity_number :: "Severity \<Rightarrow> nat" where
  "severity_number sev_none = 0"
| "severity_number sev_fatal = 1"
| "severity_number sev_error = 2"
| "severity_number sev_warning = 3"
| "severity_number sev_info = 4"
| "severity_number sev_debug = 5"
| "severity_number sev_verbose = 6"

fun severityToString :: "Severity \<Rightarrow> string" where
  "severityToString sev_fatal = ''FATAL''"
| "severityToString sev_error = ''ERROR''"
| "severityToString sev_warning = ''WARN''"
| "severityToString sev_info = ''INFO''"
| "severityToString sev_debug = ''DEBUG''"
| "severityToString sev_verbose = ''VERB''"
| "severityToString sev_none = ''NONE''"

definition checkSeverity :: "Severity \<Rightarrow> Severity \<Rightarrow> bool" where
  "checkSeverity m_maxSeverity severity = (severity_number severity \<le> severity_number m_maxSeverity)"

record tm =
  tm_year :: int
  tm_mon :: int
  tm_mday :: int
  tm_hour :: int
  tm_min :: int
  tm_sec :: int

record log_record =
  rec_time :: int
  rec_millitm :: int
  rec_severity :: Severity
  rec_tid :: nat
  rec_func :: string
  rec_line :: nat
  rec_message :: string

text \<open>\<open>std::setw\<close> with \<open>std::setfill\<close>, adjusted to the right and to the left.\<close>

definition setw_right :: "char \<Rightarrow> nat \<Rightarrow> string \<Rightarrow> string" where
  "setw_right fill n s = replicate (n - length s) fill @ s"

definition setw_left :: "char \<Rightarrow> nat \<Rightarrow> string \<Rightarrow> string" where
  "setw_left fill n s = s @ replicate (n - length s) fill"

definition date_text :: "tm \<Rightarrow> string" where
  "date_text t = dec_int (tm_year t + 1900) @ ''-'' @ setw_right CHR ''0'' 2 (dec_int (tm_mon t + 1)) @ ''-''
     @ setw_right CHR ''0'' 2 (dec_int (tm_mday t)) @ '' ''"

text \<open>\<open>localtime\<close> is the system's conversion to local time.\<close>

definition TxtFormatter_format :: "(int \<Rightarrow> tm) \<Rightarrow> log_record \<Rightarrow> string" where
  "TxtFormatter_format localtime r =
    (let t = localtime (rec_time r) in
     date_text t
     @ setw_right CHR ''0'' 2 (dec_int (tm_hour t)) @ '':'' @ setw_right CHR ''0'' 2 (dec_int (tm_min t)) @ '':''
     @ setw_right CHR ''0'' 2 (dec_int (tm_sec t)) @ ''.'' @ setw_right CHR ''0'' 3 (dec_int (rec_millitm r)) @ '' ''
     @ setw_left CHR '' '' 5 (severityToString (rec_severity r)) @ '' ''
     @ ''['' @ dec_nat (rec_tid r) @ ''] ''
     @ ''['' @ rec_func r @ ''@'' @ dec_nat (rec_line r) @ ''] ''
     @ rec_message r @ [CHR 0x0A])"

definition TxtFormatter_header :: string where
  "TxtFormatter_header = ''''"

fun fixLineEndings :: "string \<Rightarrow> string" where
  "fixLineEndings [] = []"
| "fixLineEndings (ch # s) = (if ch = CHR 0x0A then CHR 0x0D # ch # fixLineEndings s else ch # fixLineEndings s)"

text \<open>\<open>toNarrow\<close> is the system's conversion to UTF-8.\<close>

definition Converter_convert :: "(string \<Rightarrow> string) \<Rightarrow> string \<Rightarrow> string" where
  "Converter_convert toNarrow str = toNarrow (fixLineEndings str)"

definition Converter_header :: "(string \<Rightarrow> string) \<Rightarrow> string \<Rightarrow> string" where
  "Converter_header toNarrow str = [CHR 0xEF, CHR 0xBB, CHR 0xBF] @ toNarrow (fixLineEndings str)"

section \<open>Files\<close>

text \<open>
  The disk, and how many calls the system has served. The system decides whether an open succeeds
  and how many of \<open>n\<close> bytes a write takes.
\<close>

record log_os =
  can_open :: "nat \<Rightarrow> string \<Rightarrow> bool"
  taken :: "nat \<Rightarrow> nat \<Rightarrow> nat"
  toNarrow :: "string \<Rightarrow> string"
  localtime :: "int \<Rightarrow> tm"

record disk_world =
  disk :: "string \<Rightarrow> string option"
  disk_calls :: nat

text \<open>\<open>m_file\<close>: the file that is open and the position in it; \<open>None\<close> is -1.\<close>

type_synonym log_file = "(string \<times> nat) option"

definition contents :: "string \<Rightarrow> disk_world \<Rightarrow> string" where
  "contents f w = (case disk w f of None \<Rightarrow> [] | Some c \<Rightarrow> c)"

text \<open>\<open>None\<close> as size is \<open>(size_t)-1\<close>.\<close>

definition File_open :: "log_os \<Rightarrow> string \<Rightarrow> disk_world \<Rightarrow> (log_file \<times> nat option) \<times> disk_world" where
  "File_open os fileName w =
    (let w' = w\<lparr>disk_calls := Suc (disk_calls w)\<rparr> in
     if can_open os (disk_calls w) fileName then
       (let c = contents fileName w
        in ((Some (fileName, length c), Some (length c)), w'\<lparr>disk := (disk w)(fileName \<mapsto> c)\<rparr>))
     else ((None, None), w'))"

definition File_write :: "log_os \<Rightarrow> log_file \<Rightarrow> string \<Rightarrow> disk_world \<Rightarrow> log_file \<times> disk_world" where
  "File_write os m_file str w =
    (case m_file of
       None \<Rightarrow> (None, w)
     | Some (f, pos) \<Rightarrow>
         (let k = min (length str) (taken os (disk_calls w) (length str)); c = contents f w
          in (Some (f, pos + k),
              w\<lparr>disk := (disk w)(f \<mapsto> take pos c @ take k str @ drop (pos + k) c), disk_calls := Suc (disk_calls w)\<rparr>)))"

definition File_close :: "log_file \<Rightarrow> log_file" where
  "File_close m_file = None"

section \<open>OneDayFileAppender\<close>

record day_appender =
  m_file :: log_file
  m_fileExt :: string
  m_fileName :: string
  m_rootPath :: string
  m_prefix :: string
  m_suffix :: string

text \<open>
  \<open>module_path\<close> is what \<open>GetModuleFileName\<close> leaves in its buffer. \<open>None\<close> is the write through a null
  pointer when it holds no backslash. The directory to create is the result's \<open>m_rootPath\<close>.
\<close>

definition checkRootPath :: "string \<Rightarrow> day_appender \<Rightarrow> day_appender option" where
  "checkRootPath module_path a =
    (if m_rootPath a = [] then
       (case rfind module_path (CHR 0x5C) of
          None \<Rightarrow> None
        | Some pos \<Rightarrow> Some (a\<lparr>m_rootPath := take pos module_path @ [CHR 0x5C] @ ''LOG''\<rparr>))
     else Some a)"

definition OneDayFileAppender_ctor :: "string \<Rightarrow> string \<Rightarrow> day_appender option" where
  "OneDayFileAppender_ctor module_path rootPath =
     checkRootPath module_path \<lparr>m_file = None, m_fileExt = ''log'', m_fileName = '''', m_rootPath = rootPath,
       m_prefix = '''', m_suffix = ''''\<rparr>"

definition SetPrefixName :: "string \<Rightarrow> day_appender \<Rightarrow> day_appender" where
  "SetPrefixName text a = a\<lparr>m_prefix := text\<rparr>"

definition SetSuffixName :: "string \<Rightarrow> day_appender \<Rightarrow> day_appender" where
  "SetSuffixName text a = a\<lparr>m_suffix := text\<rparr>"

definition buildFileName :: "log_os \<Rightarrow> int \<Rightarrow> day_appender \<Rightarrow> string" where
  "buildFileName os utime a =
     m_rootPath a @ (if last (m_rootPath a) \<noteq> CHR 0x5C then [CHR 0x5C] else [])
     @ (let t = localtime os utime in
        m_prefix a @ date_text t @ m_suffix a @ (if m_fileExt a \<noteq> [] then ''.'' @ m_fileExt a else []))"

definition openLogFile :: "log_os \<Rightarrow> int \<Rightarrow> day_appender \<times> disk_world \<Rightarrow> day_appender \<times> disk_world" where
  "openLogFile os utime = (\<lambda>(a, w).
     let fileName = buildFileName os utime a in
     if m_fileName a \<noteq> fileName then
       (let a = a\<lparr>m_file := File_close (m_file a)\<rparr>;
            ((f, fileSize), w) = File_open os fileName w;
            a = a\<lparr>m_file := f, m_fileName := fileName\<rparr>
        in if fileSize = Some 0 then
             (let (f, w) = File_write os (m_file a) (Converter_header (toNarrow os) TxtFormatter_header) w
              in (a\<lparr>m_file := f\<rparr>, w))
           else (a, w))
     else (a, w))"

text \<open>\<open>utime\<close> is the time at which the file's name is made, \<open>rec_time\<close> the one at which the record was.\<close>

definition day_write :: "log_os \<Rightarrow> int \<Rightarrow> log_record \<Rightarrow> day_appender \<times> disk_world \<Rightarrow> day_appender \<times> disk_world" where
  "day_write os utime r s =
    (let (a, w) = openLogFile os utime s;
         (f, w) = File_write os (m_file a) (Converter_convert (toNarrow os) (TxtFormatter_format (localtime os) r)) w
     in (a\<lparr>m_file := f\<rparr>, w))"

definition day_writes :: "log_os \<Rightarrow> (int \<times> log_record) list \<Rightarrow> day_appender \<times> disk_world \<Rightarrow> day_appender \<times> disk_world" where
  "day_writes os rs s = fold (\<lambda>(utime, r). day_write os utime r) rs s"

section \<open>WinConsoleAppender\<close>

datatype console_call = SetConsoleTextAttribute u16 | WriteConsole string

definition severity_color :: "Severity \<Rightarrow> u16 \<Rightarrow> u16 option" where
  "severity_color severity m_originalAttr =
    (case severity of
       sev_fatal \<Rightarrow> Some (or (or (or (or 4 2) 1) 8) 0x40)
     | sev_error \<Rightarrow> Some (or (or 4 8) (and m_originalAttr 0xf0))
     | sev_warning \<Rightarrow> Some (or (or (or 4 2) 8) (and m_originalAttr 0xf0))
     | sev_debug \<Rightarrow> Some (or (or 1 8) (and m_originalAttr 0xf0))
     | sev_verbose \<Rightarrow> Some (or (or (or 2 1) 8) (and m_originalAttr 0xf0))
     | _ \<Rightarrow> None)"

text \<open>\<open>h\<close> is whether \<open>m_stdoutHandle\<close> is not null.\<close>

definition setColor :: "bool \<Rightarrow> u16 \<Rightarrow> Severity \<Rightarrow> console_call list" where
  "setColor h m_originalAttr severity =
    (if h then (case severity_color severity m_originalAttr of None \<Rightarrow> [] | Some a \<Rightarrow> [SetConsoleTextAttribute a]) else [])"

definition writestr :: "bool \<Rightarrow> string \<Rightarrow> console_call list" where
  "writestr h str = (if \<not> h then [] else [WriteConsole str])"

definition resetColor :: "bool \<Rightarrow> u16 \<Rightarrow> console_call list" where
  "resetColor h m_originalAttr = (if h then [SetConsoleTextAttribute m_originalAttr] else [])"

definition console_write :: "(int \<Rightarrow> tm) \<Rightarrow> bool \<Rightarrow> u16 \<Rightarrow> log_record \<Rightarrow> console_call list" where
  "console_write to_local h m_originalAttr r =
    (let str = TxtFormatter_format to_local r
     in setColor h m_originalAttr (rec_severity r) @ writestr h str @ resetColor h m_originalAttr)"

section \<open>One file for each day\<close>

text \<open>A system that opens every file and takes every byte.\<close>

definition disk_ok :: "log_os \<Rightarrow> bool" where
  "disk_ok os \<longleftrightarrow> (\<forall>k f. can_open os k f) \<and> (\<forall>k n. n \<le> taken os k n)"

definition date_of :: "tm \<Rightarrow> int \<times> int \<times> int" where
  "date_of t = (tm_year t, tm_mon t, tm_mday t)"

definition valid_date :: "tm \<Rightarrow> bool" where
  "valid_date t \<longleftrightarrow> 0 \<le> tm_mon t \<and> tm_mon t \<le> 11 \<and> 1 \<le> tm_mday t \<and> tm_mday t \<le> 31"

lemma dec_int_inject: "dec_int i = dec_int j \<longleftrightarrow> i = j"
proof
  assume eq: "dec_int i = dec_int j"
  have m: "CHR ''-'' \<notin> set (dec_nat n)" for n by (rule dec_char) simp
  have d: "CHR ''-'' # x \<noteq> dec_nat n" for x n using m [of n] list.set_intros(1) by metis
  from eq d [of "dec_nat (nat (- i))" "nat j"] d [of "dec_nat (nat (- j))" "nat i"] show "i = j"
    by (auto simp: dec_int_def split: if_splits)
qed simp

lemma dec_nat_two: "n < 100 \<Longrightarrow> length (dec_nat n) \<le> 2"
  by (subst dec_nat.simps, subst dec_nat.simps) auto

lemma two_digits_length: "0 \<le> i \<Longrightarrow> i < 100 \<Longrightarrow> length (setw_right CHR ''0'' 2 (dec_int i)) = 2"
  using dec_nat_two [of "nat i"] by (simp add: setw_right_def dec_int_def)

lemma dec_value_zeros: "dec_value (replicate k CHR ''0'' @ s) = dec_value s"
  by (induction k) (simp_all add: dec_value_def)

lemma two_digits_inject:
  assumes "0 \<le> i" and "0 \<le> j" and "setw_right CHR ''0'' 2 (dec_int i) = setw_right CHR ''0'' 2 (dec_int j)"
  shows "i = j"
proof -
  have "dec_value (setw_right CHR ''0'' 2 (dec_int k)) = nat k" if "0 \<le> k" for k
    using that by (simp add: setw_right_def dec_value_zeros dec_int_def)
  with assms have "nat i = nat j" by metis
  with assms show ?thesis by simp
qed

lemma date_text_inject:
  assumes "valid_date t" and "valid_date t'" and "date_text t = date_text t'"
  shows "date_of t = date_of t'"
proof -
  let ?m = "\<lambda>t. setw_right CHR ''0'' 2 (dec_int (tm_mon t + 1))" and ?d = "\<lambda>t. setw_right CHR ''0'' 2 (dec_int (tm_mday t))"
  have l: "length (?m t) = 2" "length (?m t') = 2" "length (?d t) = 2" "length (?d t') = 2"
    using assms(1,2) by (simp_all add: two_digits_length valid_date_def)
  from assms(3) have "dec_int (tm_year t + 1900) = dec_int (tm_year t' + 1900) \<and> ?m t = ?m t' \<and> ?d t = ?d t'"
    unfolding date_text_def using l by (simp add: append_eq_append_conv)
  then have "tm_year t = tm_year t'" and m: "?m t = ?m t'" and d: "?d t = ?d t'" by (simp_all add: dec_int_inject)
  moreover have "tm_mon t + 1 = tm_mon t' + 1"
    using assms(1,2) by (intro two_digits_inject [OF _ _ m]) (simp_all add: valid_date_def)
  moreover have "tm_mday t = tm_mday t'"
    using assms(1,2) by (intro two_digits_inject [OF _ _ d]) (simp_all add: valid_date_def)
  ultimately show ?thesis by (simp add: date_of_def)
qed

lemma buildFileName_inject:
  assumes "\<And>u. valid_date (localtime os u)"
  shows "buildFileName os u a = buildFileName os v a \<longleftrightarrow> date_of (localtime os u) = date_of (localtime os v)"
proof
  assume "buildFileName os u a = buildFileName os v a"
  then have "date_text (localtime os u) = date_text (localtime os v)" by (simp add: buildFileName_def)
  then show "date_of (localtime os u) = date_of (localtime os v)" by (rule date_text_inject [OF assms assms])
next
  assume "date_of (localtime os u) = date_of (localtime os v)"
  then have "date_text (localtime os u) = date_text (localtime os v)" by (simp add: date_of_def date_text_def)
  then show "buildFileName os u a = buildFileName os v a" by (simp add: buildFileName_def Let_def)
qed

lemma buildFileName_cong:
  "m_rootPath a = m_rootPath b \<Longrightarrow> m_prefix a = m_prefix b \<Longrightarrow> m_suffix a = m_suffix b \<Longrightarrow> m_fileExt a = m_fileExt b
   \<Longrightarrow> buildFileName os u a = buildFileName os u b"
  by (simp add: buildFileName_def)

text \<open>
  The open file is the one whose name the appender remembers, it is not empty, and the position is
  at its end.
\<close>

definition day_inv :: "day_appender \<times> disk_world \<Rightarrow> bool" where
  "day_inv = (\<lambda>(a, w).
     (m_file a = None \<longrightarrow> m_fileName a = '''')
     \<and> (\<forall>f pos. m_file a = Some (f, pos) \<longrightarrow> f = m_fileName a \<and> contents f w \<noteq> [] \<and> pos = length (contents f w)))"

definition file_header :: "log_os \<Rightarrow> string" where
  "file_header os = Converter_header (toNarrow os) TxtFormatter_header"

definition line :: "log_os \<Rightarrow> log_record \<Rightarrow> string" where
  "line os r = Converter_convert (toNarrow os) (TxtFormatter_format (localtime os) r)"

definition started :: "log_os \<Rightarrow> string \<Rightarrow> disk_world \<Rightarrow> string" where
  "started os f w = (if contents f w = [] then file_header os else contents f w)"

lemma started_not_Nil: "started os f w \<noteq> []"
  by (simp add: started_def file_header_def Converter_header_def)

lemma File_write_end:
  assumes "disk_ok os" and "pos = length (contents f w)"
  shows "\<exists>w'. File_write os (Some (f, pos)) str w = (Some (f, length (contents f w @ str)), w')
    \<and> disk w' = (disk w)(f \<mapsto> contents f w @ str)"
  using assms by (simp add: File_write_def disk_ok_def Let_def min_absorb1)

lemma buildFileName_not_Nil: "buildFileName os u a \<noteq> []"
  by (simp add: buildFileName_def date_text_def Let_def)

text \<open>After \<open>openLogFile\<close> the day's file is open, with its header, at its end.\<close>

lemma openLogFile_ready:
  assumes "disk_ok os" and "day_inv (a, w)"
  shows "\<exists>w'. openLogFile os u (a, w) =
      (a\<lparr>m_file := Some (buildFileName os u a, length (started os (buildFileName os u a) w)),
         m_fileName := buildFileName os u a\<rparr>, w')
    \<and> disk w' = (disk w)(buildFileName os u a \<mapsto> started os (buildFileName os u a) w)"
proof (cases "m_fileName a = buildFileName os u a")
  case True
  let ?f = "buildFileName os u a"
  have "m_file a \<noteq> None" using assms(2) True buildFileName_not_Nil [of os u a] by (auto simp: day_inv_def)
  then obtain f pos where f: "m_file a = Some (f, pos)" by auto
  with assms(2) have "f = m_fileName a \<and> contents f w \<noteq> [] \<and> pos = length (contents f w)"
    unfolding day_inv_def by blast
  with True have c: "f = ?f" "contents ?f w \<noteq> []" "pos = length (contents ?f w)" by auto
  then have "disk w ?f = Some (contents ?f w)" by (cases "disk w ?f") (simp_all add: contents_def)
  then have "(disk w)(?f \<mapsto> contents ?f w) = disk w" by (simp add: fun_upd_idem)
  moreover have "a\<lparr>m_file := Some (?f, length (contents ?f w)), m_fileName := ?f\<rparr> = a"
    using f c True by (cases a) simp
  moreover have "openLogFile os u (a, w) = (a, w)" by (simp add: openLogFile_def True)
  ultimately show ?thesis using c by (simp add: started_def)
next
  case False
  let ?f = "buildFileName os u a"
  define w1 where "w1 = w\<lparr>disk_calls := Suc (disk_calls w), disk := (disk w)(?f \<mapsto> contents ?f w)\<rparr>"
  have o: "File_open os ?f w = ((Some (?f, length (contents ?f w)), Some (length (contents ?f w))), w1)"
    using assms(1) by (simp add: File_open_def disk_ok_def w1_def Let_def)
  have c: "contents ?f w1 = contents ?f w" by (simp add: w1_def contents_def)
  show ?thesis
  proof (cases "contents ?f w = []")
    case True
    from File_write_end [OF assms(1), of 0 ?f w1 "file_header os"] True c obtain w' where
      "File_write os (Some (?f, 0)) (file_header os) w1 = (Some (?f, length (file_header os)), w')"
      "disk w' = (disk w1)(?f \<mapsto> file_header os)" by auto
    with True False show ?thesis by (simp add: openLogFile_def o started_def w1_def Let_def file_header_def [symmetric])
  next
    case nonempty: False
    with False show ?thesis by (simp add: openLogFile_def o started_def w1_def Let_def)
  qed
qed

lemma day_write_step:
  assumes "disk_ok os" and "day_inv (a, w)"
  shows "\<exists>a' w'. day_write os u r (a, w) = (a', w') \<and> day_inv (a', w')
    \<and> (\<forall>v. buildFileName os v a' = buildFileName os v a)
    \<and> disk w' = (disk w)(buildFileName os u a \<mapsto> started os (buildFileName os u a) w @ line os r)"
proof -
  let ?f = "buildFileName os u a"
  from openLogFile_ready [OF assms, of u] obtain w1 where
    o: "openLogFile os u (a, w) = (a\<lparr>m_file := Some (?f, length (started os ?f w)), m_fileName := ?f\<rparr>, w1)"
    and d: "disk w1 = (disk w)(?f \<mapsto> started os ?f w)" by blast
  have c: "contents ?f w1 = started os ?f w" by (simp add: contents_def d)
  from File_write_end [OF assms(1), of "length (started os ?f w)" ?f w1 "line os r"] c obtain w2 where
    "File_write os (Some (?f, length (started os ?f w))) (line os r) w1 = (Some (?f, length (started os ?f w @ line os r)), w2)"
    and d2: "disk w2 = (disk w1)(?f \<mapsto> started os ?f w @ line os r)" by auto
  then have w: "day_write os u r (a, w) =
      (a\<lparr>m_file := Some (?f, length (started os ?f w @ line os r)), m_fileName := ?f\<rparr>, w2)"
    by (simp add: day_write_def o line_def [symmetric])
  have "contents ?f w2 = started os ?f w @ line os r" by (simp add: contents_def d2)
  with w d d2 started_not_Nil [of os ?f w] show ?thesis
    by (auto simp: day_inv_def intro!: exI buildFileName_cong)
qed

lemma day_writes_files:
  assumes "disk_ok os" and "day_inv (a, w)"
  shows "disk (snd (day_writes os rs (a, w))) f =
    (let mine = map snd (filter (\<lambda>(u, r). buildFileName os u a = f) rs)
     in if mine = [] then disk w f else Some (started os f w @ concat (map (line os) mine)))"
  using assms
proof (induction rs arbitrary: a w)
  case (Cons ur rs)
  obtain u r where ur: "ur = (u, r)" by fastforce
  from day_write_step [OF Cons.prems, of u r] obtain a' w' where
    s: "day_write os u r (a, w) = (a', w')" "day_inv (a', w')" "\<forall>v. buildFileName os v a' = buildFileName os v a"
    "disk w' = (disk w)(buildFileName os u a \<mapsto> started os (buildFileName os u a) w @ line os r)" by blast
  have "day_writes os (ur # rs) (a, w) = day_writes os rs (a', w')" by (simp add: day_writes_def ur s(1))
  moreover note Cons.IH [OF Cons.prems(1) s(2)]
  moreover have "started os f w' = (if buildFileName os u a = f then started os f w @ line os r else started os f w)"
    using started_not_Nil [of os f w] by (auto simp: started_def contents_def s(4))
  ultimately show ?case by (auto simp: ur s(3,4) Let_def)
qed (simp add: day_writes_def)

text \<open>A disk on which nothing fails, and a calendar of 86400 seconds a day that knows one month.\<close>

definition sample_log_os :: log_os where
  "sample_log_os = \<lparr>can_open = \<lambda>_ _. True, taken = \<lambda>_ n. n, toNarrow = id,
     localtime = \<lambda>t. \<lparr>tm_year = 120, tm_mon = 0, tm_mday = 1 + (t div 86400) mod 31, tm_hour = 0, tm_min = 0, tm_sec = 0\<rparr>\<rparr>"

lemma sample_log_ok: "disk_ok sample_log_os" "valid_date (localtime sample_log_os u)"
proof -
  have "0 \<le> (u div 86400) mod 31" "(u div 86400) mod 31 < 31" by simp_all
  then have "1 + (u div 86400) mod 31 \<le> 31" by linarith
  then show "disk_ok sample_log_os" "valid_date (localtime sample_log_os u)"
    by (simp_all add: disk_ok_def valid_date_def sample_log_os_def)
qed

definition sample_record :: "string \<Rightarrow> log_record" where
  "sample_record text = \<lparr>rec_time = 0, rec_millitm = 7, rec_severity = sev_info, rec_tid = 1, rec_func = ''f'',
     rec_line = 2, rec_message = text\<rparr>"

definition fresh_appender :: "string \<Rightarrow> day_appender" where
  "fresh_appender root = \<lparr>m_file = None, m_fileExt = ''log'', m_fileName = [], m_rootPath = root, m_prefix = [], m_suffix = []\<rparr>"

lemma ctor_fresh: "root \<noteq> [] \<Longrightarrow> OneDayFileAppender_ctor module_path root = Some (fresh_appender root)"
  by (simp add: OneDayFileAppender_ctor_def checkRootPath_def fresh_appender_def)

lemma fresh_inv: "day_inv (fresh_appender root, w)"
  by (simp add: day_inv_def fresh_appender_def)

section \<open>Properties\<close>

text \<open>C29: Each day has its own log file, complete and in order, on a disk on which every open succeeds and
  every write takes all it is given, with a calendar that gives valid dates. Whatever the sequence
  of records and times, also when the clock goes back to an earlier day, the file of a day holds what it held before (or
  the header, once, when it was absent or empty) followed by exactly the records written on that
  day, in the order in which they were written.\<close>

theorem day_log_complete:
  assumes "disk_ok os" and "\<And>u. valid_date (localtime os u)" and "root \<noteq> []"
  shows "\<exists>a. OneDayFileAppender_ctor module_path root = Some a
    \<and> disk (snd (day_writes os rs (a, w))) (buildFileName os day a) =
      (let mine = map snd (filter (\<lambda>(u, r). date_of (localtime os u) = date_of (localtime os day)) rs);
           f = buildFileName os day a
       in if mine = [] then disk w f
          else Some ((if contents f w = [] then file_header os else contents f w) @ concat (map (line os) mine)))"
  unfolding ctor_fresh [OF assms(3)]
  using day_writes_files [OF assms(1) fresh_inv, of rs root w "buildFileName os day (fresh_appender root)"]
  by (simp add: buildFileName_inject [OF assms(2)] started_def)

theorem day_log_complete_witness:
  "\<exists>a. OneDayFileAppender_ctor [] ''D:'' = Some a
    \<and> disk (snd (day_writes sample_log_os [(0, sample_record ''a''), (86400, sample_record ''b''), (5, sample_record ''c'')]
        (a, \<lparr>disk = Map.empty, disk_calls = 0\<rparr>))) (buildFileName sample_log_os 9 a)
      = Some (file_header sample_log_os @ line sample_log_os (sample_record ''a'') @ line sample_log_os (sample_record ''c''))"
  using day_log_complete [OF sample_log_ok, of "''D:''" "[]"
    "[(0, sample_record ''a''), (86400, sample_record ''b''), (5, sample_record ''c'')]" "\<lparr>disk = Map.empty, disk_calls = 0\<rparr>" 9]
  by (simp add: contents_def date_of_def sample_log_os_def)

lemma closed_day:
  assumes "m_file a = None" and "\<forall>(u, r) \<in> set rs. buildFileName os u a = m_fileName a"
  shows "day_writes os rs (a, w) = (a, w)"
  using assms
proof (induction rs)
  case (Cons ur rs)
  obtain u r where ur: "ur = (u, r)" by fastforce
  with Cons.prems have "openLogFile os u (a, w) = (a, w)" by (simp add: openLogFile_def)
  then have "day_write os u r (a, w) = (a\<lparr>m_file := None\<rparr>, w)"
    using Cons.prems(1) by (simp add: day_write_def File_write_def)
  also have "a\<lparr>m_file := None\<rparr> = a" using Cons.prems(1) by (cases a) simp
  finally show ?case using Cons by (simp add: day_writes_def ur)
qed (simp add: day_writes_def)

text \<open>C30: A log file that cannot be opened is not tried again that day: the appender remembers the name, so
  every record until the date changes is dropped, although each later open would succeed.\<close>

theorem open_failure_loses_day:
  assumes "\<not> can_open os (disk_calls w) (buildFileName os day a)" and "m_fileName a \<noteq> buildFileName os day a"
    and "rs \<noteq> []" and "\<forall>(u, r) \<in> set rs. date_of (localtime os u) = date_of (localtime os day)"
  shows "disk (snd (day_writes os rs (a, w))) = disk w"
proof -
  let ?f = "buildFileName os day a"
  let ?a = "a\<lparr>m_file := None, m_fileName := ?f\<rparr>"
  have same: "buildFileName os u b = buildFileName os day b" if "(u, r) \<in> set rs" for u r b
  proof -
    from that assms(4) have "date_text (localtime os u) = date_text (localtime os day)"
      by (auto simp: date_of_def date_text_def)
    then show ?thesis by (simp add: buildFileName_def Let_def)
  qed
  obtain u r rs' where rs: "rs = (u, r) # rs'" using assms(3) by (cases rs) auto
  let ?w = "w\<lparr>disk_calls := Suc (disk_calls w)\<rparr>"
  have n: "buildFileName os u a = ?f" by (rule same [of u r]) (simp add: rs)
  then have "day_write os u r (a, w) = (?a, ?w)"
    using assms(1,2) by (simp add: day_write_def openLogFile_def File_open_def File_write_def)
  moreover have "day_writes os rs' (?a, ?w) = (?a, ?w)"
  proof (rule closed_day)
    have "buildFileName os v ?a = m_fileName ?a" if "(v, q) \<in> set rs'" for v q
      using same [of v q ?a] that by (simp add: rs) (rule buildFileName_cong, simp_all)
    then show "\<forall>(v, q) \<in> set rs'. buildFileName os v ?a = m_fileName ?a" by blast
  qed simp
  ultimately show ?thesis by (simp add: rs day_writes_def)
qed

theorem open_failure_loses_day_witness:
  "disk (snd (day_writes (sample_log_os\<lparr>can_open := \<lambda>k _. 0 < k\<rparr>) (replicate 3 (0, sample_record ''a''))
      (fresh_appender ''D:'', \<lparr>disk = Map.empty, disk_calls = 0\<rparr>))) = Map.empty"
  using open_failure_loses_day [of "sample_log_os\<lparr>can_open := \<lambda>k _. 0 < k\<rparr>" "\<lparr>disk = Map.empty, disk_calls = 0\<rparr>" 0
    "fresh_appender ''D:''" "replicate 3 (0, sample_record ''a'')"]
    buildFileName_not_Nil [of "sample_log_os\<lparr>can_open := \<lambda>k _. 0 < k\<rparr>" 0 "fresh_appender ''D:''"]
  by (simp add: fresh_appender_def [of "''D:''"])

end
