(* ===== verification/Layout.thy ===== *)
theory Layout
  imports Prelude
begin

text \<open>
  Memory images of C structures: types, their size and alignment as the compiler lays them out,
  little-endian fields, \<open>memset\<close>/\<open>memcpy\<close> on byte sequences. \<open>None\<close> is an access outside the
  object.
\<close>

section \<open>Types, sizes, offsets\<close>

datatype ctype = U8 | U16 | U32 | F32 | Arr nat ctype | Str "(string \<times> ctype) list"

definition round_up :: "nat \<Rightarrow> nat \<Rightarrow> nat" where
  "round_up a n = (n + (a - 1)) div a * a"

fun c_align :: "ctype \<Rightarrow> nat" and l_align :: "(string \<times> ctype) list \<Rightarrow> nat" where
  "c_align U8 = 1"
| "c_align U16 = 2"
| "c_align U32 = 4"
| "c_align F32 = 4"
| "c_align (Arr n t) = c_align t"
| "c_align (Str l) = l_align l"
| "l_align [] = 1"
| "l_align ((f, t) # l) = max (c_align t) (l_align l)"

text \<open>\<open>l_end p l\<close>: the end of the members \<open>l\<close> placed from offset \<open>p\<close> on, without tail padding.\<close>

fun c_size :: "ctype \<Rightarrow> nat" and l_end :: "nat \<Rightarrow> (string \<times> ctype) list \<Rightarrow> nat" where
  "c_size U8 = 1"
| "c_size U16 = 2"
| "c_size U32 = 4"
| "c_size F32 = 4"
| "c_size (Arr n t) = n * c_size t"
| "c_size (Str l) = round_up (l_align l) (l_end 0 l)"
| "l_end p [] = p"
| "l_end p ((f, t) # l) = l_end (round_up (c_align t) p + c_size t) l"

text \<open>Where the members are: name, offset and type in declaration order.\<close>

fun members_from :: "nat \<Rightarrow> (string \<times> ctype) list \<Rightarrow> (string \<times> nat \<times> ctype) list" where
  "members_from p [] = []"
| "members_from p ((f, t) # l) =
     (let q = round_up (c_align t) p in (f, q, t) # members_from (q + c_size t) l)"

definition member :: "(string \<times> ctype) list \<Rightarrow> string \<Rightarrow> (nat \<times> ctype) option" where
  "member l f = map_of (members_from 0 l) f"

section \<open>Bytes\<close>

fun le_bytes :: "nat \<Rightarrow> nat \<Rightarrow> byte_seq" where
  "le_bytes 0 v = []"
| "le_bytes (Suc n) v = of_nat (v mod 256) # le_bytes n (v div 256)"

fun le_value :: "byte_seq \<Rightarrow> nat" where
  "le_value [] = 0"
| "le_value (b # bs) = unat b + 256 * le_value bs"

text \<open>\<open>memcpy\<close> out of and into an object.\<close>

definition mem_read :: "nat \<Rightarrow> nat \<Rightarrow> byte_seq \<Rightarrow> byte_seq option" where
  "mem_read p n m = (if p + n \<le> length m then Some (take n (drop p m)) else None)"

definition mem_write :: "nat \<Rightarrow> byte_seq \<Rightarrow> byte_seq \<Rightarrow> byte_seq option" where
  "mem_write p bs m =
     (if p + length bs \<le> length m then Some (take p m @ bs @ drop (p + length bs) m) else None)"

definition memset0 :: "ctype \<Rightarrow> byte_seq" where
  "memset0 t = replicate (c_size t) 0"

text \<open>Assignment to and value of a scalar member, its value as a natural number.\<close>

definition put_field :: "(string \<times> ctype) list \<Rightarrow> string \<Rightarrow> nat \<Rightarrow> byte_seq \<Rightarrow> byte_seq option" where
  "put_field l f v m = (case member l f of None \<Rightarrow> None
     | Some (p, t) \<Rightarrow> mem_write p (le_bytes (c_size t) v) m)"

definition get_field :: "(string \<times> ctype) list \<Rightarrow> string \<Rightarrow> byte_seq \<Rightarrow> nat option" where
  "get_field l f m = (case member l f of None \<Rightarrow> None
     | Some (p, t) \<Rightarrow> map_option le_value (mem_read p (c_size t) m))"

fun put_fields :: "(string \<times> ctype) list \<Rightarrow> (string \<times> nat) list \<Rightarrow> byte_seq \<Rightarrow> byte_seq option" where
  "put_fields l [] m = Some m"
| "put_fields l ((f, v) # fs) m = Option.bind (put_field l f v m) (put_fields l fs)"

section \<open>Lemmas\<close>

lemma round_up_ge: "0 < a \<Longrightarrow> n \<le> round_up a n"
proof -
  assume "0 < a"
  then have "n + (a - 1) < round_up a n + a"
    unfolding round_up_def
    by (metis add_less_cancel_left div_mult_mod_eq mod_less_divisor)
  then show ?thesis using \<open>0 < a\<close> by simp
qed

lemma round_up_dvd: "a dvd round_up a n"
  by (simp add: round_up_def)

lemma align_pos [simp]: "0 < c_align t" "0 < l_align l"
  by (induction t and l rule: c_align_l_align.induct) (auto simp: less_max_iff_disj)

lemma length_le_bytes [simp]: "length (le_bytes n v) = n"
  by (induction n arbitrary: v) auto

lemma le_value_bytes [simp]: "le_value (le_bytes n v) = v mod 256 ^ n"
proof (induction n arbitrary: v)
  case (Suc n)
  have "unat (of_nat (v mod 256) :: u8) = v mod 256" by (simp add: unat_of_nat)
  then show ?case using Suc by (simp add: mod_mult2_eq)
qed simp

lemma unat_byte: "unat (b :: u8) < 256"
  using unsigned_less [of b, where 'a = nat] by simp

lemma le_value_less: "le_value bs < 256 ^ length bs"
proof (induction bs)
  case (Cons b bs)
  have "unat b < 256" by (rule unat_byte)
  with Cons show ?case by simp
qed simp

lemma le_bytes_value [simp]: "le_bytes (length bs) (le_value bs) = bs"
proof (induction bs)
  case (Cons b bs)
  have "unat b < 256" by (rule unat_byte)
  with Cons show ?case by simp
qed simp

lemma mem_write_length: "mem_write p bs m = Some m' \<Longrightarrow> length m' = length m"
  by (auto simp: mem_write_def split: if_splits)

lemma mem_read_write: "mem_write p bs m = Some m' \<Longrightarrow> mem_read p (length bs) m' = Some bs"
  by (auto simp: mem_write_def mem_read_def split: if_splits)

lemma mem_read_other:
  assumes "mem_write p bs m = Some m'" and "q + n \<le> p \<or> p + length bs \<le> q"
  shows "mem_read q n m' = mem_read q n m"
proof -
  from assms(1) have m': "m' = take p m @ bs @ drop (p + length bs) m" and le: "p + length bs \<le> length m"
    by (auto simp: mem_write_def split: if_splits)
  have len: "length m' = length m" using m' le by simp
  show ?thesis
  proof (cases "q + n \<le> length m")
    case True
    have "take n (drop q m') = take n (drop q m)"
    proof (rule nth_equalityI)
      fix i assume "i < length (take n (drop q m'))"
      then have i: "i < n" "q + i < length m" using len by auto
      then have "m' ! (q + i) = m ! (q + i)"
        using assms(2) le unfolding m' by (auto simp: nth_append)
      then show "take n (drop q m') ! i = take n (drop q m) ! i" using i len by simp
    qed (simp add: len)
    with True len show ?thesis by (simp add: mem_read_def)
  qed (simp add: mem_read_def len)
qed

text \<open>Members are aligned, in order, disjoint and inside the structure.\<close>

lemma members_bounds:
  "(f, q, t) \<in> set (members_from p l) \<Longrightarrow> p \<le> q \<and> c_align t dvd q \<and> q + c_size t \<le> l_end p l"
proof (induction l arbitrary: p)
  case (Cons ft l)
  obtain f' t' where ft: "ft = (f', t')" by (cases ft)
  let ?q = "round_up (c_align t') p"
  have ge: "p \<le> ?q" by (rule round_up_ge) simp
  have mono: "a \<le> l_end a l'" for a l'
  proof (induction l' arbitrary: a)
    case (Cons x l')
    obtain g s where x: "x = (g, s)" by (cases x)
    have "a \<le> round_up (c_align s) a" by (rule round_up_ge) simp
    also have "\<dots> \<le> l_end (round_up (c_align s) a + c_size s) l'"
      by (rule order_trans [OF _ Cons]) simp
    finally show ?case by (simp add: x)
  qed simp
  show ?case
  proof (cases "(f, q, t) = (f', ?q, t')")
    case True
    with ge mono show ?thesis by (simp add: ft round_up_dvd)
  next
    case False
    with Cons.prems have "(f, q, t) \<in> set (members_from (?q + c_size t') l)" by (auto simp: ft Let_def)
    from Cons.IH [OF this] ge show ?thesis by (simp add: ft)
  qed
qed simp

lemma members_disjoint:
  assumes "(f, q, t) \<in> set (members_from p l)" and "(f', q', t') \<in> set (members_from p l)"
    and "f \<noteq> f'"
  shows "q + c_size t \<le> q' \<or> q' + c_size t' \<le> q"
  using assms(1,2)
proof (induction l arbitrary: p)
  case (Cons gs l)
  obtain g s where gs: "gs = (g, s)" by (cases gs)
  let ?q = "round_up (c_align s) p"
  from Cons.prems gs consider
      "(f, q, t) = (g, ?q, s)" "(f', q', t') \<in> set (members_from (?q + c_size s) l)"
    | "(f', q', t') = (g, ?q, s)" "(f, q, t) \<in> set (members_from (?q + c_size s) l)"
    | "(f, q, t) \<in> set (members_from (?q + c_size s) l)" "(f', q', t') \<in> set (members_from (?q + c_size s) l)"
    using assms(3) by (auto simp: Let_def)
  then show ?case
  proof cases
    case 1
    from members_bounds [OF 1(2)] 1(1) show ?thesis by simp
  next
    case 2
    from members_bounds [OF 2(2)] 2(1) show ?thesis by simp
  next
    case 3
    then show ?thesis by (rule Cons.IH)
  qed
qed simp

lemma member_in: "member l f = Some (q, t) \<Longrightarrow> (f, q, t) \<in> set (members_from 0 l)"
  unfolding member_def by (rule map_of_SomeD)

lemma get_put_same:
  assumes "put_field l f v m = Some m'"
  shows "\<exists>q t. member l f = Some (q, t) \<and> get_field l f m' = Some (v mod 256 ^ c_size t)"
proof -
  from assms obtain q t where q: "member l f = Some (q, t)"
    and w: "mem_write q (le_bytes (c_size t) v) m = Some m'"
    by (auto simp: put_field_def split: option.splits)
  from mem_read_write [OF w] q show ?thesis by (simp add: get_field_def)
qed

lemma get_put_other:
  assumes "put_field l f v m = Some m'" and "f' \<noteq> f"
  shows "get_field l f' m' = get_field l f' m"
proof -
  from assms obtain q t where q: "member l f = Some (q, t)"
    and w: "mem_write q (le_bytes (c_size t) v) m = Some m'"
    by (auto simp: put_field_def split: option.splits)
  show ?thesis
  proof (cases "member l f'")
    case (Some a)
    obtain q' t' where a: "a = (q', t')" by (cases a)
    from members_disjoint [OF member_in [OF q] member_in, of f' q' t'] Some a assms(2)
    have "q' + c_size t' \<le> q \<or> q + length (le_bytes (c_size t) v) \<le> q'" by auto
    from mem_read_other [OF w this] Some a show ?thesis by (simp add: get_field_def)
  qed (simp add: get_field_def)
qed

lemma put_field_total:
  assumes "member l f = Some (q, t)" and "length m = c_size (Str l)"
  shows "\<exists>m'. put_field l f v m = Some m' \<and> length m' = length m"
proof -
  have "q + c_size t \<le> l_end 0 l" using members_bounds [OF member_in [OF assms(1)]] by simp
  also have "\<dots> \<le> length m" using round_up_ge [of "l_align l"] assms(2) by simp
  finally show ?thesis using assms(1) by (simp add: put_field_def mem_write_def)
qed

lemma put_field_length: "put_field l f v m = Some m' \<Longrightarrow> length m' = length m"
  by (auto simp: put_field_def dest!: mem_write_length split: option.splits)

lemma put_fields_length: "put_fields l fs m = Some m' \<Longrightarrow> length m' = length m"
proof (induction l fs m rule: put_fields.induct)
  case (2 l f v fs m)
  then obtain m1 where "put_field l f v m = Some m1" "put_fields l fs m1 = Some m'"
    by (auto simp: bind_eq_Some_conv)
  with 2 put_field_length show ?case by metis
qed simp

lemma put_fields_total:
  "\<forall>f \<in> fst ` set fs. member l f \<noteq> None \<Longrightarrow> length m = c_size (Str l) \<Longrightarrow>
   \<exists>m'. put_fields l fs m = Some m' \<and> length m' = c_size (Str l)"
proof (induction fs arbitrary: m)
  case (Cons fv fs)
  obtain f v where fv: "fv = (f, v)" by (cases fv)
  with Cons.prems obtain q t where "member l f = Some (q, t)" by auto
  from put_field_total [OF this Cons.prems(2)] obtain m1 where
    "put_field l f v m = Some m1" "length m1 = c_size (Str l)" using Cons.prems(2) by auto
  with Cons.IH [of m1] Cons.prems(1) fv show ?case by auto
qed simp

lemma put_fields_other:
  "put_fields l fs m = Some m' \<Longrightarrow> f \<notin> fst ` set fs \<Longrightarrow> get_field l f m' = get_field l f m"
proof (induction l fs m rule: put_fields.induct)
  case (2 l g v fs m)
  then obtain m1 where m1: "put_field l g v m = Some m1" "put_fields l fs m1 = Some m'"
    by (auto simp: bind_eq_Some_conv)
  with 2 have "get_field l f m' = get_field l f m1" by simp
  also have "\<dots> = get_field l f m" using get_put_other [OF m1(1)] 2(3) by simp
  finally show ?case .
qed simp

lemma put_fields_get:
  "put_fields l fs m = Some m' \<Longrightarrow> distinct (map fst fs) \<Longrightarrow> (f, v) \<in> set fs \<Longrightarrow>
   \<exists>q t. member l f = Some (q, t) \<and> get_field l f m' = Some (v mod 256 ^ c_size t)"
proof (induction l fs m rule: put_fields.induct)
  case (2 l g u fs m)
  then obtain m1 where m1: "put_field l g u m = Some m1" "put_fields l fs m1 = Some m'"
    by (auto simp: bind_eq_Some_conv)
  show ?case
  proof (cases "(f, v) = (g, u)")
    case True
    with 2(3) have "f \<notin> fst ` set fs" by auto
    from put_fields_other [OF m1(2) this] get_put_same [OF m1(1)] True show ?thesis by auto
  next
    case False
    with 2 m1 show ?thesis by auto
  qed
qed simp

lemma get_memset0:
  assumes "member l f = Some (q, t)"
  shows "get_field l f (memset0 (Str l)) = Some 0"
proof -
  have z: "le_value (replicate n 0) = 0" for n by (induction n) auto
  have "q + c_size t \<le> l_end 0 l" using members_bounds [OF member_in [OF assms]] by simp
  also have "\<dots> \<le> c_size (Str l)" using round_up_ge [of "l_align l"] by simp
  finally show ?thesis
    using assms by (simp add: get_field_def mem_read_def memset0_def z del: c_size.simps)
qed

text \<open>A zeroed object with some members assigned.\<close>

lemma init_fields:
  assumes "distinct (map fst fs)"
    and "\<forall>(f, v) \<in> set fs. case member l f of None \<Rightarrow> False | Some (q, t) \<Rightarrow> v < 256 ^ c_size t"
  shows "\<exists>m. put_fields l fs (memset0 (Str l)) = Some m \<and> length m = c_size (Str l)
    \<and> (\<forall>f. member l f \<noteq> None \<longrightarrow>
          get_field l f m = Some (case map_of fs f of None \<Rightarrow> 0 | Some v \<Rightarrow> v))"
proof -
  have mem: "member l f \<noteq> None" if "f \<in> fst ` set fs" for f
    using assms(2) that by (auto split: option.splits)
  then obtain m where m: "put_fields l fs (memset0 (Str l)) = Some m" "length m = c_size (Str l)"
    using put_fields_total [of fs l "memset0 (Str l)"] by (auto simp: memset0_def)
  have "get_field l f m = Some (case map_of fs f of None \<Rightarrow> 0 | Some v \<Rightarrow> v)" if f: "member l f \<noteq> None" for f
  proof (cases "map_of fs f")
    case None
    then have "f \<notin> fst ` set fs" by (simp add: map_of_eq_None_iff)
    from put_fields_other [OF m(1) this] get_memset0 f None show ?thesis by force
  next
    case (Some v)
    then have v: "(f, v) \<in> set fs" by (rule map_of_SomeD)
    from put_fields_get [OF m(1) assms(1) v] obtain q t where
      "member l f = Some (q, t)" "get_field l f m = Some (v mod 256 ^ c_size t)" by blast
    moreover have "v < 256 ^ c_size t" using assms(2) v \<open>member l f = Some (q, t)\<close> by force
    ultimately show ?thesis using Some by simp
  qed
  with m show ?thesis by blast
qed

lemma members_names: "map fst (members_from p l) = map fst l"
  by (induction p l rule: members_from.induct) (auto simp: Let_def)

lemma member_iff: "member l f \<noteq> None \<longleftrightarrow> f \<in> fst ` set l"
proof -
  have "fst ` set (members_from 0 l) = fst ` set l"
    using members_names [of 0 l] by (metis list.set_map)
  then show ?thesis by (simp add: member_def map_of_eq_None_iff)
qed

lemma init_fields_map:
  assumes "distinct (map fst fs)"
    and "\<forall>(f, v) \<in> set fs. case member l f of None \<Rightarrow> False | Some (q, t) \<Rightarrow> v < 256 ^ c_size t"
    and "set names \<subseteq> fst ` set l"
  shows "\<exists>m. put_fields l fs (memset0 (Str l)) = Some m \<and> length m = c_size (Str l)
    \<and> map (\<lambda>f. get_field l f m) names = map (\<lambda>f. Some (case map_of fs f of None \<Rightarrow> 0 | Some v \<Rightarrow> v)) names"
proof -
  from init_fields [OF assms(1,2)] obtain m where
    m: "put_fields l fs (memset0 (Str l)) = Some m" "length m = c_size (Str l)"
    and get: "\<forall>f. member l f \<noteq> None \<longrightarrow>
        get_field l f m = Some (case map_of fs f of None \<Rightarrow> 0 | Some v \<Rightarrow> v)" by blast
  have "get_field l f m = Some (case map_of fs f of None \<Rightarrow> 0 | Some v \<Rightarrow> v)" if "f \<in> set names" for f
    using get assms(3) that member_iff by blast
  with m show ?thesis by auto
qed

end
