(* ===== verification/Util_System.thy ===== *)
theory Util_System
  imports Util_Text Layout
begin

text \<open>
  The conversions, time and memory functions of \<open>common/Util.cpp\<close>. The system's text conversions
  and memory counters are parameters. A \<open>std::string\<close> is a sequence of bytes here, a
  \<open>std::wstring\<close> a sequence of 16-bit code units. The functions over floating-point numbers are not
  modelled.
\<close>

section \<open>Time\<close>

text \<open>\<open>long\<close> has 32 bits; \<open>None\<close> is a signed overflow.\<close>

record timeval =
  tv_sec :: int
  tv_usec :: int

definition int32 :: "int \<Rightarrow> int option" where
  "int32 i = (if - (2 ^ 31) \<le> i \<and> i < 2 ^ 31 then Some i else None)"

definition DiffTime :: "timeval \<Rightarrow> timeval \<Rightarrow> int option" where
  "DiffTime start end =
     Option.bind (int32 (tv_sec end - tv_sec start)) (\<lambda>s.
     Option.bind (int32 (tv_usec end - tv_usec start)) (\<lambda>u. int32 (s + cdiv u 1000000)))"

section \<open>Files\<close>

text \<open>\<open>attributes\<close> is what \<open>GetFileAttributes\<close> returns for a path, \<open>None\<close> for \<open>INVALID_FILE_ATTRIBUTES\<close>.\<close>

definition IsExistFile :: "('p \<Rightarrow> u32 option) \<Rightarrow> 'p \<Rightarrow> bool" where
  "IsExistFile attributes fila_name = (if attributes fila_name = None then False else True)"

text \<open>
  \<open>first\<close> is the attribute word \<open>_findfirst\<close> stores in \<open>c_file\<close>; when it finds nothing it stores
  nothing, and the uninitialised word \<open>junk\<close> decides.
\<close>

definition A_SUBDIR :: u32 where "A_SUBDIR = 0x10"

definition IsExistDirectory :: "('p \<Rightarrow> u32 option) \<Rightarrow> u32 \<Rightarrow> 'p \<Rightarrow> bool" where
  "IsExistDirectory first junk path =
     (let attrib = (case first path of None \<Rightarrow> junk | Some a \<Rightarrow> a) in
      if attrib AND A_SUBDIR \<noteq> 0 then True else False)"

section \<open>Text conversions\<close>

type_synonym wstr = "u16 list"

text \<open>
  The system's conversions by code page; \<open>None\<close> is a failure, for which they return 0. The code
  calls each twice, for the length and for the text.
\<close>

record text_api =
  WideCharToMultiByte :: "nat \<Rightarrow> wstr \<Rightarrow> byte_seq option"
  MultiByteToWideChar :: "nat \<Rightarrow> byte_seq \<Rightarrow> wstr option"

definition CP_ACP :: nat where "CP_ACP = 0"
definition CP_UTF8 :: nat where "CP_UTF8 = 65001"

definition to_multi_call :: "text_api \<Rightarrow> nat \<Rightarrow> wstr \<Rightarrow> byte_seq" where
  "to_multi_call A cp src =
     (let n = (case WideCharToMultiByte A cp src of None \<Rightarrow> 0 | Some t \<Rightarrow> length t) in
      case WideCharToMultiByte A cp src of
        None \<Rightarrow> replicate n 0
      | Some t \<Rightarrow> if length t \<le> n then t @ drop (length t) (replicate n 0) else replicate n 0)"

definition to_wide_call :: "text_api \<Rightarrow> nat \<Rightarrow> byte_seq \<Rightarrow> wstr" where
  "to_wide_call A cp src =
     (let n = (case MultiByteToWideChar A cp src of None \<Rightarrow> 0 | Some t \<Rightarrow> length t) in
      case MultiByteToWideChar A cp src of
        None \<Rightarrow> replicate n 0
      | Some t \<Rightarrow> if length t \<le> n then t @ drop (length t) (replicate n 0) else replicate n 0)"

definition convert_unicode_to_utf8 :: "text_api \<Rightarrow> wstr \<Rightarrow> byte_seq" where
  "convert_unicode_to_utf8 A src = to_multi_call A CP_UTF8 src"

definition convert_utf8_to_unicode :: "text_api \<Rightarrow> byte_seq \<Rightarrow> wstr" where
  "convert_utf8_to_unicode A src = to_wide_call A CP_UTF8 src"

definition convert_muti_to_unicode :: "text_api \<Rightarrow> byte_seq \<Rightarrow> wstr" where
  "convert_muti_to_unicode A src = to_wide_call A CP_ACP src"

definition convert_unicode_to_multi :: "text_api \<Rightarrow> wstr \<Rightarrow> byte_seq" where
  "convert_unicode_to_multi A src = to_multi_call A CP_ACP src"

definition convert_vector_wide :: "wstr \<Rightarrow> byte_seq" where
  "convert_vector_wide src = concat (map (\<lambda>c. le_bytes 2 (unat c)) src)"

definition convert_vector_multi :: "byte_seq \<Rightarrow> byte_seq" where
  "convert_vector_multi src = src"

text \<open>The overloads of \<open>convert_multi\<close> and \<open>convert_unicode\<close> by source, of \<open>convert_string\<close> by both.\<close>

definition convert_multi_m :: "byte_seq \<Rightarrow> byte_seq" where
  "convert_multi_m src = (if src = [] then [] else src)"

definition convert_multi_w :: "text_api \<Rightarrow> wstr \<Rightarrow> byte_seq" where
  "convert_multi_w A src = (if src = [] then [] else convert_unicode_to_multi A src)"

definition convert_unicode_m :: "text_api \<Rightarrow> byte_seq \<Rightarrow> wstr" where
  "convert_unicode_m A src = (if src = [] then [] else convert_muti_to_unicode A src)"

definition convert_unicode_w :: "wstr \<Rightarrow> wstr" where
  "convert_unicode_w src = (if src = [] then [] else src)"

definition convert_string_ww :: "wstr \<Rightarrow> wstr \<Rightarrow> wstr" where
  "convert_string_ww src dst = (if src = [] then dst else convert_unicode_w src)"

definition convert_string_wm :: "text_api \<Rightarrow> wstr \<Rightarrow> byte_seq \<Rightarrow> byte_seq" where
  "convert_string_wm A src dst = (if src = [] then dst else convert_multi_w A src)"

definition convert_string_mm :: "byte_seq \<Rightarrow> byte_seq \<Rightarrow> byte_seq" where
  "convert_string_mm src dst = (if src = [] then dst else convert_multi_m src)"

definition convert_string_mw :: "text_api \<Rightarrow> byte_seq \<Rightarrow> wstr \<Rightarrow> wstr" where
  "convert_string_mw A src dst = (if src = [] then dst else convert_unicode_m A src)"

section \<open>Memory\<close>

text \<open>\<open>MEMORYSTATUS\<close> and the two counters of \<open>PROCESS_MEMORY_COUNTERS\<close> in use, with 64-bit \<open>SIZE_T\<close>.\<close>

record memory_status =
  dwAvailPhys :: u64
  dwTotalPhys :: u64
  dwAvailVirtual :: u64
  dwTotalVirtual :: u64

record memory_counters =
  WorkingSetSize :: u64
  PagefileUsage :: u64

definition GetAvailPhysMemSize :: "memory_status \<Rightarrow> u32" where
  "GetAvailPhysMemSize statex = ucast (dwAvailPhys statex)"

definition GetTotalPhysMemSize :: "memory_status \<Rightarrow> u32" where
  "GetTotalPhysMemSize statex = ucast (dwTotalPhys statex)"

definition GetAvailVirtMemSize :: "memory_status \<Rightarrow> u32" where
  "GetAvailVirtMemSize statex = ucast (dwAvailVirtual statex)"

definition GetTotalVirtMemSize :: "memory_status \<Rightarrow> u32" where
  "GetTotalVirtMemSize statex = ucast (dwTotalVirtual statex)"

definition IsPhysMemAvail :: "memory_status \<Rightarrow> u32 \<Rightarrow> bool" where
  "IsPhysMemAvail statex nRequiredFreePhysMem =
     (if GetAvailPhysMemSize statex < nRequiredFreePhysMem then False else True)"

text \<open>\<open>None\<close>: \<open>GetProcessMemoryInfo\<close> failed. The cast binds before the division.\<close>

definition GetProcessWorkingSetSizeInMB :: "memory_counters option \<Rightarrow> u32" where
  "GetProcessWorkingSetSizeInMB pmc = (case pmc of None \<Rightarrow> 0
     | Some p \<Rightarrow> ucast (WorkingSetSize p) div (1024 * 1024))"

definition GetProcessPageFileUsageSizeInMB :: "memory_counters option \<Rightarrow> u32" where
  "GetProcessPageFileUsageSizeInMB pmc = (case pmc of None \<Rightarrow> 0
     | Some p \<Rightarrow> ucast (PagefileUsage p) div (1024 * 1024))"

definition GetProcessWorkingSetSizeInKB :: "memory_counters option \<Rightarrow> u32" where
  "GetProcessWorkingSetSizeInKB pmc = (case pmc of None \<Rightarrow> 0
     | Some p \<Rightarrow> ucast (WorkingSetSize p) div 1024)"

definition GetProcessPageFileUsageSizeInKB :: "memory_counters option \<Rightarrow> u32" where
  "GetProcessPageFileUsageSizeInKB pmc = (case pmc of None \<Rightarrow> 0
     | Some p \<Rightarrow> ucast (PagefileUsage p) div 1024)"

section \<open>Properties\<close>

lemma to_multi_call [simp]: "to_multi_call A cp src
    = (case WideCharToMultiByte A cp src of None \<Rightarrow> [] | Some t \<Rightarrow> t)"
  by (simp add: to_multi_call_def split: option.split)

lemma to_wide_call [simp]: "to_wide_call A cp src
    = (case MultiByteToWideChar A cp src of None \<Rightarrow> [] | Some t \<Rightarrow> t)"
  by (simp add: to_wide_call_def split: option.split)

text \<open>\<open>DiffTime\<close> is the difference of the seconds fields: for two normal times the microseconds
  never count, so times one microsecond apart can give 1 and times almost a second apart 0.\<close>

theorem DiffTime_seconds:
  assumes "0 \<le> tv_sec s" "tv_sec s < 2 ^ 31" "0 \<le> tv_sec e" "tv_sec e < 2 ^ 31"
    and "0 \<le> tv_usec s" "tv_usec s < 1000000" "0 \<le> tv_usec e" "tv_usec e < 1000000"
  shows "DiffTime s e = Some (tv_sec e - tv_sec s)"
proof -
  have "\<bar>tv_usec e - tv_usec s\<bar> < 1000000" using assms(5-8) by linarith
  then have "cdiv (tv_usec e - tv_usec s) 1000000 = 0" by (simp add: cdiv_def)
  moreover have "int32 (tv_usec e - tv_usec s) = Some (tv_usec e - tv_usec s)"
    using assms(5-8) by (simp add: int32_def)
  moreover have "int32 (tv_sec e - tv_sec s) = Some (tv_sec e - tv_sec s)"
    using assms(1-4) by (simp add: int32_def)
  ultimately show ?thesis by (simp add: DiffTime_def)
qed

theorem DiffTime_seconds_witness:
  "DiffTime \<lparr>tv_sec = 4, tv_usec = 999999\<rparr> \<lparr>tv_sec = 5, tv_usec = 0\<rparr> = Some 1"
  using DiffTime_seconds [of "\<lparr>tv_sec = 4, tv_usec = 999999\<rparr>" "\<lparr>tv_sec = 5, tv_usec = 0\<rparr>"] by simp

text \<open>Converting an empty text leaves the old text of the destination in place, for all four
  overloads of \<open>convert_string\<close>; only a non-empty source replaces it.\<close>

lemma convert_string_stale:
  "convert_string_ww [] w = w \<and> convert_string_wm A [] m = m \<and> convert_string_mm [] m = m
   \<and> convert_string_mw A [] w = w
   \<and> convert_string_ww (c # cs) w = c # cs \<and> convert_string_mm (b # bs) m = b # bs
   \<and> convert_string_wm A (c # cs) m = convert_unicode_to_multi A (c # cs)
   \<and> convert_string_mw A (b # bs) w = convert_muti_to_unicode A (b # bs)"
  by (simp add: convert_string_ww_def convert_string_wm_def convert_string_mm_def convert_string_mw_def
      convert_unicode_w_def convert_multi_m_def convert_multi_w_def convert_unicode_m_def)

text \<open>The process counters in kilobytes and megabytes are taken modulo 4 GB: the size is cut to 32
  bits before it is divided. They are right exactly below that.\<close>

theorem memory_counters_wrap:
  "unat (GetProcessWorkingSetSizeInMB (Some p)) = unat (WorkingSetSize p) mod 2 ^ 32 div (1024 * 1024)
   \<and> unat (GetProcessPageFileUsageSizeInMB (Some p)) = unat (PagefileUsage p) mod 2 ^ 32 div (1024 * 1024)
   \<and> unat (GetProcessWorkingSetSizeInKB (Some p)) = unat (WorkingSetSize p) mod 2 ^ 32 div 1024
   \<and> unat (GetProcessPageFileUsageSizeInKB (Some p)) = unat (PagefileUsage p) mod 2 ^ 32 div 1024
   \<and> (unat (GetProcessWorkingSetSizeInMB (Some p)) = unat (WorkingSetSize p) div (1024 * 1024)
        \<longleftrightarrow> unat (WorkingSetSize p) < 2 ^ 32)"
proof -
  have u: "unat (ucast (w :: u64) :: u32) = unat w mod 2 ^ 32" for w
    by (simp add: unsigned_ucast_eq take_bit_eq_mod)
  have "(a mod 2 ^ 32 div (1024 * 1024) = a div (1024 * 1024)) = (a < 2 ^ 32)" for a :: nat
  proof
    assume eq: "a mod 2 ^ 32 div (1024 * 1024) = a div (1024 * 1024)"
    have "a mod 2 ^ 32 div (1024 * 1024) < 4096" by simp
    with eq have "a div (1024 * 1024) < 4096" by simp
    then show "a < 2 ^ 32" by simp
  qed simp
  then show ?thesis
    by (simp add: GetProcessWorkingSetSizeInMB_def GetProcessPageFileUsageSizeInMB_def
        GetProcessWorkingSetSizeInKB_def GetProcessPageFileUsageSizeInKB_def unat_div u)
qed

end
