(* ===== verification/Util_Wnd.thy ===== *)
theory Util_Wnd
  imports Util_Text
begin

text \<open>
  The helpers for dialog controls of \<open>common/UtilWnd.cpp\<close>: combo boxes, the exchange of control
  texts with members, and the texts themselves. A control is what the functions read from it (its
  items, its text, the value MFC's own exchange functions leave) and what they send to it.
\<close>

section \<open>Combo boxes\<close>

text \<open>
  \<open>items\<close> are the item data of the box in order. The result is the index given to \<open>SetCurSel\<close>, if
  it is called. \<open>data == nData\<close> compares an unsigned 32-bit value with an \<open>int\<close>.
\<close>

fun select_data :: "u64 list \<Rightarrow> u32 \<Rightarrow> nat \<Rightarrow> nat option" where
  "select_data [] nData i = None"
| "select_data (d # ds) nData i = (if ucast d = nData then Some i else select_data ds nData (i + 1))"

definition SetCurSel_ByData :: "u64 list \<Rightarrow> int \<Rightarrow> nat option" where
  "SetCurSel_ByData items nData = select_data items (word_of_int nData) 0"

definition SetCurSel_ByIndex :: "nat \<Rightarrow> int \<Rightarrow> nat option" where
  "SetCurSel_ByIndex nItem nIdx =
    (if nItem = 0 then None else if nIdx < 0 \<or> int nItem \<le> nIdx then Some 0 else Some (nat nIdx))"

fun select_text :: "string list \<Rightarrow> string \<Rightarrow> nat \<Rightarrow> nat option" where
  "select_text [] strText i = None"
| "select_text (t # ts) strText i = (if t = strText then Some i else select_text ts strText (i + 1))"

definition SetCurSel_ByText :: "string list \<Rightarrow> string \<Rightarrow> nat option" where
  "SetCurSel_ByText items strText = select_text items strText 0"

text \<open>\<open>GetItemData\<close> of the selected item, \<open>item\<close>, as an \<open>int\<close>; \<open>None\<close> is \<open>FALSE\<close>.\<close>

definition GetCurData :: "nat \<Rightarrow> u64 \<Rightarrow> int option" where
  "GetCurData count item = (if count = 0 then None else Some (signed_take_bit 31 (uint item)))"

definition AddComboBoxItem :: "int \<Rightarrow> u64" where
  "AddComboBoxItem nData = word_of_int nData"

text \<open>The strings that \<open>FillCBFromString\<close> adds.\<close>

definition newline :: string where
  "newline = [CHR 0x0A]"

lemma in_drop: "c \<in> set (drop n s) \<Longrightarrow> n < length s"
  by (rule ccontr) simp

function fill_lines :: "string \<Rightarrow> nat \<Rightarrow> string list" where
  "fill_lines sLines nLastNewline =
    (case find_from sLines newline nLastNewline of
       Some nNewNewline \<Rightarrow>
         substr sLines nLastNewline (nNewNewline - nLastNewline) # fill_lines sLines (nNewNewline + 1)
     | None \<Rightarrow> if length sLines \<noteq> nLastNewline then [drop nLastNewline sLines] else [])"
  by pat_completeness auto

termination
  by (relation "measure (\<lambda>(s, n). length s - n)") (auto simp: newline_def find_from_char split: if_splits dest: in_drop)

declare fill_lines.simps [simp del]

definition FillCBFromString :: "string \<Rightarrow> string list" where
  "FillCBFromString str = fill_lines str 0"

text \<open>\<open>format\<close> is \<open>CString::Format\<close> with the format string.\<close>

definition FillCBNumbers :: "(int \<Rightarrow> string) \<Rightarrow> int \<Rightarrow> string list" where
  "FillCBNumbers format nEnd = map format [1..nEnd]"

definition FillCBNumbers_from :: "(int \<Rightarrow> string) \<Rightarrow> int \<Rightarrow> int \<Rightarrow> string list" where
  "FillCBNumbers_from format nEnd nStart =
    (let nStart = (if nEnd < nStart \<and> 1 \<le> nEnd then 1 else nStart);
         nEnd = (if nEnd < nStart then nStart else nEnd)
     in map format [nStart..nEnd])"

section \<open>Trailing zeros of decimal numbers\<close>

text \<open>The search for the last character that is not 0, from \<open>ii\<close> down to \<open>pos_dot\<close>.\<close>

fun last_nonzero :: "string \<Rightarrow> nat \<Rightarrow> nat \<Rightarrow> nat option" where
  "last_nonzero text pos_dot 0 = None"
| "last_nonzero text pos_dot (Suc ii) =
    (if ii < pos_dot then None
     else if text ! ii \<noteq> CHR ''0'' then Some ii else last_nonzero text pos_dot ii)"

declare last_nonzero.simps [simp del]

definition delete_at :: "nat \<Rightarrow> nat \<Rightarrow> string \<Rightarrow> string" where
  "delete_at i n s = take i s @ drop (i + n) s"

definition DecimalPlaceZeroDel :: "string \<Rightarrow> string" where
  "DecimalPlaceZeroDel number =
    (case find_from number ''.'' 0 of
       None \<Rightarrow> number
     | Some pos_dot \<Rightarrow>
         (case last_nonzero number pos_dot (length number) of
            None \<Rightarrow> number
          | Some no_zero \<Rightarrow>
              if pos_dot = no_zero then delete_at no_zero (length number - no_zero) number
              else delete_at (no_zero + 1) (length number - (no_zero + 1)) number))"

section \<open>Numbers in edit boxes\<close>

text \<open>\<open>_tstoi\<close>: white space, a sign, digits; values outside \<open>int\<close> are cut to its bounds.\<close>

definition tstoi :: "string \<Rightarrow> int" where
  "tstoi s =
    (let t = dropWhile isSpace s;
         neg = (t \<noteq> [] \<and> hd t = CHR ''-'');
         u = (if t \<noteq> [] \<and> (hd t = CHR ''-'' \<or> hd t = CHR ''+'') then tl t else t);
         n = int (dec_value (takeWhile is_digit u))
     in max (- (2 ^ 31)) (min (2 ^ 31 - 1) (if neg then - n else n)))"

definition GetEditText_int :: "string \<Rightarrow> 32 word" where
  "GetEditText_int text = word_of_int (tstoi text)"

definition GetEditText_dword :: "string \<Rightarrow> u32" where
  "GetEditText_dword text = word_of_int (tstoi text)"

definition SetEditText_int :: "32 word \<Rightarrow> string" where
  "SetEditText_int nData = dec_int (sint nData)"

text \<open>
  The exchange of an edit box with a member. \<open>save\<close> is \<open>m_bSaveAndValidate\<close>, \<open>control\<close> the text of
  the box, of which a buffer takes 255 characters. The result is the member and the text of the
  box afterwards; \<open>None\<close> is \<open>pDX->Fail()\<close>, which throws.
\<close>

definition DDX_TextFormatIntT :: "bool \<Rightarrow> string \<Rightarrow> (string \<Rightarrow> 'v) \<Rightarrow> string \<Rightarrow> 'v \<Rightarrow> ('v \<times> string) option" where
  "DDX_TextFormatIntT save control save_func load_text value =
    (if save then
       (let text = take 255 control in
        if text \<noteq> takeWhile (\<lambda>c. c \<in> set ''-0123456789'') text then None
        else Some (save_func text, control))
     else Some (value, load_text))"

definition DDX_TextFormatT ::
  "char \<Rightarrow> bool \<Rightarrow> string \<Rightarrow> (string \<Rightarrow> 'v) \<Rightarrow> string \<Rightarrow> 'v \<Rightarrow> ('v \<times> string) option" where
  "DDX_TextFormatT chDecSep save control save_func load_text value =
    (if save then
       (let text = take 255 control in
        if text = [] then None
        else if text \<noteq> takeWhile (\<lambda>c. c \<in> set (''-.0123456789'' @ [chDecSep])) text then None
        else Some (save_func text, control))
     else Some (value, load_text))"

definition DDX_TextEx_int :: "bool \<Rightarrow> string \<Rightarrow> 32 word \<Rightarrow> (32 word \<times> string) option" where
  "DDX_TextEx_int save control value =
     DDX_TextFormatIntT save control (\<lambda>t. word_of_int (tstoi t)) (dec_int (sint value)) value"

text \<open>\<open>%d\<close> with an \<open>unsigned int\<close> prints it as an \<open>int\<close>.\<close>

definition DDX_TextEx_uint :: "bool \<Rightarrow> string \<Rightarrow> u32 \<Rightarrow> (u32 \<times> string) option" where
  "DDX_TextEx_uint save control value =
     DDX_TextFormatIntT save control (\<lambda>t. word_of_int (tstoi t)) (dec_int (sint value)) value"

definition DDX_TextEx_short :: "bool \<Rightarrow> string \<Rightarrow> 16 word \<Rightarrow> (16 word \<times> string) option" where
  "DDX_TextEx_short save control value =
     DDX_TextFormatIntT save control (\<lambda>t. word_of_int (tstoi t)) (dec_int (sint value)) value"

definition DDX_TextEx_ushort :: "bool \<Rightarrow> string \<Rightarrow> u16 \<Rightarrow> (u16 \<times> string) option" where
  "DDX_TextEx_ushort save control value =
     DDX_TextFormatIntT save control (\<lambda>t. word_of_int (tstoi t)) (dec_int (uint value)) value"

text \<open>The overloads with a callback: what it is called with, if it is called.\<close>

definition DDX_TextEx_int_callback :: "bool \<Rightarrow> string \<Rightarrow> 32 word \<Rightarrow> (32 word \<times> string \<times> (32 word \<times> 32 word) option) option" where
  "DDX_TextEx_int_callback save control value =
    (case DDX_TextEx_int save control value of
       None \<Rightarrow> None
     | Some (v, text) \<Rightarrow> Some (v, text, if save \<and> value \<noteq> v then Some (value, v) else None))"

definition DDX_TextEx_short_callback ::
  "bool \<Rightarrow> string \<Rightarrow> 16 word \<Rightarrow> (16 word \<times> string \<times> (16 word \<times> 16 word) option) option" where
  "DDX_TextEx_short_callback save control value =
    (case DDX_TextEx_short save control value of
       None \<Rightarrow> None
     | Some (v, text) \<Rightarrow> Some (v, text, if save \<and> value \<noteq> v then Some (value, v) else None))"

section \<open>Indices, check boxes and radio buttons\<close>

text \<open>
  \<open>exchange\<close> is MFC's \<open>DDX_CBIndex\<close>, \<open>DDX_Check\<close> or \<open>DDX_Radio\<close>: the value its reference argument has
  afterwards, given the value before.
\<close>

definition DDX_CBIndexEx_byte :: "(int \<Rightarrow> int) \<Rightarrow> u8 \<Rightarrow> u8" where
  "DDX_CBIndexEx_byte exchange value = word_of_int (exchange (uint value))"

definition DDX_CBIndexEx_int :: "(int \<Rightarrow> int) \<Rightarrow> 32 word \<Rightarrow> 32 word" where
  "DDX_CBIndexEx_int exchange value = word_of_int (exchange (sint value))"

definition DDX_CBIndexEx_uint :: "(int \<Rightarrow> int) \<Rightarrow> u32 \<Rightarrow> u32" where
  "DDX_CBIndexEx_uint exchange value = word_of_int (exchange (sint value))"

definition DDX_CBIndexEx_byte_callback :: "bool \<Rightarrow> (int \<Rightarrow> int) \<Rightarrow> u8 \<Rightarrow> u8 \<times> (u8 \<times> u8) option" where
  "DDX_CBIndexEx_byte_callback save exchange value =
    (let b_value = uint value; v = word_of_int (exchange b_value) :: u8 in
     (v, if save \<and> b_value \<noteq> uint v then Some (word_of_int b_value, v) else None))"

definition DDX_CBIndexEx_int_callback :: "bool \<Rightarrow> (int \<Rightarrow> int) \<Rightarrow> 32 word \<Rightarrow> 32 word \<times> (32 word \<times> 32 word) option" where
  "DDX_CBIndexEx_int_callback save exchange value =
    (let v = word_of_int (exchange (sint value)) :: 32 word in
     (v, if save \<and> value \<noteq> v then Some (value, v) else None))"

definition DDX_CBIndexEx_short_callback ::
  "bool \<Rightarrow> (int \<Rightarrow> int) \<Rightarrow> 16 word \<Rightarrow> 16 word \<times> (16 word \<times> 16 word) option" where
  "DDX_CBIndexEx_short_callback save exchange value =
    (let b_value = sint value; v = word_of_int (exchange b_value) :: 16 word in
     (v, if save \<and> b_value \<noteq> sint v then Some (word_of_int b_value, v) else None))"

definition DDX_CheckEx_int :: "(int \<Rightarrow> int) \<Rightarrow> 32 word \<Rightarrow> 32 word" where
  "DDX_CheckEx_int exchange value = word_of_int (exchange (sint value))"

definition DDX_CheckEx_uint :: "(int \<Rightarrow> int) \<Rightarrow> u32 \<Rightarrow> u32" where
  "DDX_CheckEx_uint exchange value = word_of_int (exchange (sint value))"

definition DDX_CheckEx_char :: "(int \<Rightarrow> int) \<Rightarrow> 8 word \<Rightarrow> 8 word" where
  "DDX_CheckEx_char exchange value = word_of_int (exchange (sint value))"

definition DDX_CheckEx_byte :: "(int \<Rightarrow> int) \<Rightarrow> u8 \<Rightarrow> u8" where
  "DDX_CheckEx_byte exchange value = word_of_int (exchange (uint value))"

text \<open>These compare the old value with \<open>n\<close>, not with the member.\<close>

definition DDX_CheckEx_char_callback :: "bool \<Rightarrow> (int \<Rightarrow> int) \<Rightarrow> 8 word \<Rightarrow> 8 word \<times> (8 word \<times> 8 word) option" where
  "DDX_CheckEx_char_callback save exchange value =
    (let b_value = sint value; n = exchange b_value; v = word_of_int n :: 8 word in
     (v, if save \<and> b_value \<noteq> n then Some (word_of_int b_value, v) else None))"

definition DDX_CheckEx_byte_callback :: "bool \<Rightarrow> (int \<Rightarrow> int) \<Rightarrow> u8 \<Rightarrow> u8 \<times> (u8 \<times> u8) option" where
  "DDX_CheckEx_byte_callback save exchange value =
    (let b_value = uint value; n = exchange b_value; v = word_of_int n :: u8 in
     (v, if save \<and> b_value \<noteq> n then Some (word_of_int b_value, v) else None))"

definition DDX_CheckEx_int_callback :: "bool \<Rightarrow> (int \<Rightarrow> int) \<Rightarrow> 32 word \<Rightarrow> 32 word \<times> (32 word \<times> 32 word) option" where
  "DDX_CheckEx_int_callback save exchange value =
    (let b_value = sint value; n = exchange b_value; v = word_of_int n :: 32 word in
     (v, if save \<and> b_value \<noteq> n then Some (word_of_int b_value, v) else None))"

text \<open>\<open>BST_UNCHECKED\<close> is 0, \<open>BST_CHECKED\<close> 1; \<open>(byte)b_value\<close> becomes a \<open>bool\<close> again.\<close>

definition DDX_CheckEx_bool_callback :: "bool \<Rightarrow> (int \<Rightarrow> int) \<Rightarrow> bool \<Rightarrow> bool \<times> (bool \<times> bool) option" where
  "DDX_CheckEx_bool_callback save exchange value =
    (let b_value = (if value then 1 else 0); n = exchange b_value; v = (n = 1) in
     (v, if save \<and> b_value \<noteq> n then Some (b_value \<noteq> 0, v) else None))"

definition DDX_RadioEx :: "bool \<Rightarrow> (int \<Rightarrow> int) \<Rightarrow> 32 word \<Rightarrow> 32 word \<times> (32 word \<times> 32 word) option" where
  "DDX_RadioEx save exchange value =
    (let v = word_of_int (exchange (sint value)) :: 32 word in
     (v, if save \<and> value \<noteq> v then Some (value, v) else None))"

text \<open>\<open>False\<close> is \<open>pDX->Fail()\<close>; when loading a value out of range is let through.\<close>

definition DDV_MinMaxT :: "bool \<Rightarrow> 'v::linorder \<Rightarrow> 'v \<Rightarrow> 'v \<Rightarrow> bool" where
  "DDV_MinMaxT save value MinVal MaxVal =
    (if value < MinVal \<or> MaxVal < value then (if \<not> save then True else False) else True)"

section \<open>The local addresses\<close>

text \<open>
  \<open>adapters\<close> are the address lists that the second call of \<open>GetAdaptersInfo\<close> delivers, if it succeeds.
\<close>

definition GetLocalIPAdressList :: "string list list option \<Rightarrow> string list \<Rightarrow> string list" where
  "GetLocalIPAdressList adapters strIPArray =
    (case adapters of
       None \<Rightarrow> strIPArray
     | Some as \<Rightarrow> strIPArray @ filter (\<lambda>a. a \<noteq> ''0.0.0.0'') (concat as))"

section \<open>The combo boxes, characterised\<close>

lemma takeWhile_less: "c \<in> set t \<Longrightarrow> length (takeWhile (\<lambda>x. x \<noteq> c) t) < length t"
  by (induction t) auto

text \<open>\<open>FillCBFromString\<close> adds the lines of the text: its loop over the positions of the newlines
  gives what \<open>std::getline\<close> gives in \<open>split_string\<close>, an empty line in the middle included and none
  after a newline at the end.\<close>

theorem FillCBFromString_lines: "FillCBFromString str = getlines (CHR 0x0A) str"
proof -
  let ?nl = "CHR 0x0A"
  have "n \<le> length s \<Longrightarrow> fill_lines s n = getlines ?nl (drop n s)" for s n
  proof (induction s n rule: fill_lines.induct)
    case (1 s n)
    let ?t = "drop n s"
    show ?case
    proof (cases "?nl \<in> set ?t")
      case False
      then have "fill_lines s n = (if length s \<noteq> n then [?t] else [])"
        by (subst fill_lines.simps) (simp add: newline_def find_from_char)
      also have "\<dots> = (if ?t = [] then [] else [?t])" using "1.prems" by auto
      also have "\<dots> = getlines ?nl ?t" using getlines_last [OF False] by simp
      finally show ?thesis .
    next
      case True
      let ?k = "length (takeWhile (\<lambda>x. x \<noteq> ?nl) ?t)"
      have p: "find_from s newline n = Some (n + ?k)" using True by (simp add: newline_def find_from_char)
      have k: "?k < length ?t" using True by (rule takeWhile_less)
      then have le: "n + ?k + 1 \<le> length s" using "1.prems" by simp
      have d: "drop (n + ?k + 1) s = tl (dropWhile (\<lambda>x. x \<noteq> ?nl) ?t)"
        by (simp add: dropWhile_eq_drop drop_Suc tl_drop add.commute)
      have "take ?k ?t = takeWhile (\<lambda>x. x \<noteq> ?nl) ?t" by (rule takeWhile_eq_take [symmetric])
      then have "fill_lines s n = takeWhile (\<lambda>x. x \<noteq> ?nl) ?t # fill_lines s (n + ?k + 1)"
        by (subst fill_lines.simps) (simp add: p substr_def)
      also have "fill_lines s (n + ?k + 1) = getlines ?nl (drop (n + ?k + 1) s)"
        by (rule "1.IH" [OF p le])
      finally show ?thesis
        using True unfolding d by (subst getlines.simps) auto
    qed
  qed
  then show ?thesis by (simp add: FillCBFromString_def)
qed

lemma select_data_first:
  "select_data ds d i = (if d \<in> ucast ` set ds then Some (i + length (takeWhile (\<lambda>x. ucast x \<noteq> d) ds)) else None)"
  by (induction ds d i rule: select_data.induct) auto

lemma int_data:
  assumes "- (2 ^ 31) \<le> n" and "n < 2 ^ 31"
  shows "signed_take_bit 31 (uint (word_of_int n :: u64)) = n"
  using assms by (simp add: unsigned_of_int signed_take_bit_take_bit signed_take_bit_int_eq_self min_def)

text \<open>Items are found by the number they were added with: the \<open>int\<close> that \<open>AddComboBoxItem\<close> stores is
  the one \<open>GetCurData\<close> returns, and \<open>SetCurSel_ByData\<close> selects the first item stored with it,
  negative numbers included, although it compares 32 bits without sign.\<close>

theorem combo_data_roundtrip:
  assumes "\<forall>m \<in> insert n (set ns). - (2 ^ 31) \<le> m \<and> m < 2 ^ 31"
  shows "(0 < count \<longrightarrow> GetCurData count (AddComboBoxItem n) = Some n)
    \<and> SetCurSel_ByData (map AddComboBoxItem ns) n =
        (if n \<in> set ns then Some (length (takeWhile (\<lambda>m. m \<noteq> n) ns)) else None)"
proof -
  have inj: "word_of_int m = (word_of_int n :: u32) \<longleftrightarrow> m = n" if "m \<in> insert n (set ns)" for m
  proof
    assume "word_of_int m = (word_of_int n :: u32)"
    then have "signed_take_bit 31 (uint (word_of_int m :: u32)) = signed_take_bit 31 (uint (word_of_int n :: u32))"
      by simp
    moreover have "- (2 ^ 31) \<le> m \<and> m < 2 ^ 31" "- (2 ^ 31) \<le> n \<and> n < 2 ^ 31" using assms that by blast+
    ultimately show "m = n"
      by (simp add: unsigned_of_int signed_take_bit_take_bit signed_take_bit_int_eq_self min_def)
  qed simp
  have u: "ucast (AddComboBoxItem m) = (word_of_int m :: u32)" for m
    by (rule bit_word_eqI) (simp add: AddComboBoxItem_def bit_simps)
  have "length (takeWhile (\<lambda>x. ucast x \<noteq> (word_of_int n :: u32)) (map AddComboBoxItem ns)) =
      length (takeWhile (\<lambda>m. m \<noteq> n) ns)"
    using inj by (simp add: takeWhile_map comp_def u cong: takeWhile_cong)
  moreover have "word_of_int n \<in> (ucast :: u64 \<Rightarrow> u32) ` set (map AddComboBoxItem ns) \<longleftrightarrow> n \<in> set ns"
  proof -
    have "word_of_int n = (word_of_int m :: u32) \<longleftrightarrow> m = n" if "m \<in> set ns" for m
      using inj [of m] that by auto
    then show ?thesis by (auto simp: u image_iff)
  qed
  ultimately show ?thesis
    using assms by (simp add: SetCurSel_ByData_def select_data_first GetCurData_def AddComboBoxItem_def int_data)
qed

theorem combo_data_roundtrip_witness:
  "SetCurSel_ByData (map AddComboBoxItem [5, - 1, 7, - 1]) (- 1) = Some 1"
  using combo_data_roundtrip [of "- 1" "[5, - 1, 7, - 1]" 4] by simp

section \<open>Decimal places\<close>

definition strip_zeros :: "string \<Rightarrow> string" where
  "strip_zeros b = rev (dropWhile (\<lambda>c. c = CHR ''0'') (rev b))"

lemma strip_snoc: "strip_zeros (b @ [c]) = (if c = CHR ''0'' then strip_zeros b else b @ [c])"
  by (simp add: strip_zeros_def)

lemma last_nonzero_strip:
  "last_nonzero (a @ CHR ''.'' # b @ z) (length a) (length a + 1 + length b) = Some (length a + length (strip_zeros b))"
proof (induction b arbitrary: z rule: rev_induct)
  case Nil
  then show ?case by (simp add: strip_zeros_def last_nonzero.simps nth_append)
next
  case (snoc c b)
  have at: "(a @ CHR ''.'' # (b @ [c]) @ z) ! (length a + 1 + length b) = c"
    by (simp add: nth_append)
  have "last_nonzero (a @ CHR ''.'' # (b @ [c]) @ z) (length a) (Suc (length a + 1 + length b)) =
      (if c \<noteq> CHR ''0'' then Some (length a + 1 + length b)
       else last_nonzero (a @ CHR ''.'' # (b @ [c]) @ z) (length a) (length a + 1 + length b))"
    using at by (simp add: last_nonzero.simps)
  with snoc.IH [of "c # z"] show ?case by (cases "c = CHR ''0''") (simp_all add: strip_snoc)
qed

lemma zero_del_dot:
  assumes a: "CHR ''.'' \<notin> set a"
  shows "DecimalPlaceZeroDel (a @ CHR ''.'' # b) = (if strip_zeros b = [] then a else a @ CHR ''.'' # strip_zeros b)"
proof -
  have "takeWhile (\<lambda>x. x \<noteq> CHR ''.'') (a @ CHR ''.'' # b) = a" using a by (subst takeWhile_append2) auto
  then have f: "find_from (a @ CHR ''.'' # b) ''.'' 0 = Some (length a)" by (simp add: find_from_char_0)
  have l: "last_nonzero (a @ CHR ''.'' # b) (length a) (length (a @ CHR ''.'' # b)) = Some (length a + length (strip_zeros b))"
    using last_nonzero_strip [of a b "[]"] by simp
  have "take (length (strip_zeros b)) b = strip_zeros b"
    unfolding strip_zeros_def using dropWhile_eq_drop [of "\<lambda>c. c = CHR ''0''" "rev b"]
    by (simp add: rev_drop [symmetric] take_rev drop_rev)
  then show ?thesis
    unfolding DecimalPlaceZeroDel_def f option.case l by (auto simp: delete_at_def)
qed

text \<open>\<open>DecimalPlaceZeroDel\<close> removes exactly the zeros at the end of the text behind its first decimal
  point, and the point itself when nothing is left behind it; a text without a point stays as it
  is. (The texts "." and ".0" become empty.)\<close>

theorem DecimalPlaceZeroDel_spec:
  "DecimalPlaceZeroDel s =
    (if CHR ''.'' \<in> set s then
       (let a = takeWhile (\<lambda>c. c \<noteq> CHR ''.'') s; b = strip_zeros (tl (dropWhile (\<lambda>c. c \<noteq> CHR ''.'') s))
        in if b = [] then a else a @ CHR ''.'' # b)
     else s)"
proof (cases "CHR ''.'' \<in> set s")
  case True
  then obtain a b where s: "s = a @ CHR ''.'' # b" and a: "CHR ''.'' \<notin> set a" by (metis split_list_first)
  moreover from a have "takeWhile (\<lambda>c. c \<noteq> CHR ''.'') s = a" "dropWhile (\<lambda>c. c \<noteq> CHR ''.'') s = CHR ''.'' # b"
    unfolding s by (auto intro: takeWhile_append2 [THEN trans] dropWhile_append2 [THEN trans])
  ultimately show ?thesis using True zero_del_dot [OF a, of b] by (simp add: Let_def)
qed (simp add: DecimalPlaceZeroDel_def find_from_char_0)

section \<open>Edit boxes, characterised\<close>

lemma takeWhile_digits: "takeWhile is_digit (dec_nat n) = dec_nat n"
  by (rule takeWhile_eq_all_conv [THEN iffD2]) (use dec_nat_digit in blast)

lemma tstoi_dec_int:
  assumes "- (2 ^ 31) \<le> i" and "i < 2 ^ 31"
  shows "tstoi (dec_int i) = i"
proof (cases "i < 0")
  case True
  then have "dropWhile isSpace (dec_int i) = dec_int i" by (simp add: dec_int_def isSpace_def)
  with True assms show ?thesis by (simp add: tstoi_def dec_int_def takeWhile_digits)
next
  case False
  then have d: "dec_int i = dec_nat (nat i)" by (simp add: dec_int_def)
  obtain c cs where c: "dec_nat (nat i) = c # cs" by (cases "dec_nat (nat i)") auto
  then have "is_digit c" "\<not> isSpace c" using dec_nat_digit [of c "nat i"] dec_not_space [of c "nat i"] by auto
  then have "c \<noteq> CHR ''-''" "c \<noteq> CHR ''+''" by (auto simp: is_digit_def Let_def)
  moreover have "takeWhile is_digit (c # cs) = dec_nat (nat i)" using takeWhile_digits [of "nat i"] c by simp
  moreover have "dec_value (c # cs) = nat i" using dec_value_dec_nat [of "nat i"] c by simp
  ultimately show ?thesis using False assms \<open>\<not> isSpace c\<close> by (simp add: tstoi_def d c)
qed

lemma dec_int_chars: "c \<in> set (dec_int i) \<Longrightarrow> c \<in> set ''-0123456789''"
proof -
  assume "c \<in> set (dec_int i)"
  then have "c = CHR ''-'' \<or> c \<in> set (dec_nat (nat (- i))) \<or> c \<in> set (dec_nat (nat i))"
    by (auto simp: dec_int_def split: if_splits)
  then have "c = CHR ''-'' \<or> c \<in> set ''0123456789''" using dec_digits by blast
  then show ?thesis by auto
qed

lemma dec_int_int_chars: "takeWhile (\<lambda>c. c \<in> set ''-0123456789'') (dec_int i) = dec_int i"
  by (rule takeWhile_eq_all_conv [THEN iffD2]) (use dec_int_chars in blast)

lemma dec_nat_length: "n < 10 ^ Suc k \<Longrightarrow> length (dec_nat n) \<le> Suc k"
proof (induction k arbitrary: n)
  case 0
  then show ?case by (subst dec_nat.simps) simp
next
  case (Suc k)
  then have "n div 10 < 10 ^ Suc k" by (simp add: less_mult_imp_div_less)
  with Suc.IH [of "n div 10"] show ?case by (subst dec_nat.simps) simp
qed

lemma dec_int_fits:
  assumes "- (2 ^ 31) \<le> i" and "i < 2 ^ 32"
  shows "take 255 (dec_int i) = dec_int i"
proof -
  have "nat i < 10 ^ Suc 9" "nat (- i) < 10 ^ Suc 9" using assms by (simp_all add: nat_less_iff)
  then have "length (dec_nat (nat i)) \<le> Suc 9" "length (dec_nat (nat (- i))) \<le> Suc 9"
    by (blast intro: dec_nat_length)+
  then have "length (dec_int i) \<le> 255" by (auto simp: dec_int_def)
  then show ?thesis by simp
qed

lemma text_exchange:
  assumes "- (2 ^ 31) \<le> i" and "i < 2 ^ 31"
  shows "DDX_TextFormatIntT True (dec_int i) (\<lambda>t. f (tstoi t)) l v = Some (f i, dec_int i)"
proof -
  have "take 255 (dec_int i) = dec_int i" using assms by (intro dec_int_fits) simp_all
  then show ?thesis
    unfolding DDX_TextFormatIntT_def Let_def by (simp only: dec_int_int_chars tstoi_dec_int [OF assms]) simp
qed

lemma short_bounds: "- (2 ^ 31) \<le> sint (v :: 16 word)" "sint (v :: 16 word) < 2 ^ 31"
  using sint_greater_eq [of v] sint_less [of v] by simp_all

lemma ushort_bounds: "- (2 ^ 31) \<le> uint (v :: 16 word)" "uint (v :: 16 word) < 2 ^ 31"
proof -
  have "(- (2 ^ 31) :: int) \<le> 0" by simp
  also have "0 \<le> uint v" by (rule uint_nonnegative)
  finally show "- (2 ^ 31) \<le> uint v" .
  show "uint v < 2 ^ 31" using unsigned_less [of v, where 'a = int] by simp
qed

lemma int_bounds: "- (2 ^ 31) \<le> sint (v :: 32 word)" "sint (v :: 32 word) < 2 ^ 31"
  using sint_greater_eq [of v] sint_less [of v] by simp_all

text \<open>What the exchange writes into an edit box it reads back, for every member of the four integer
  types: the text passes the test of its characters, fits the buffer and gives the same value,
  also for an \<open>unsigned int\<close> above \<open>INT_MAX\<close>, which is shown as a negative number.\<close>

theorem edit_exchange_roundtrip:
  "(\<exists>t. DDX_TextEx_int False c v1 = Some (v1, t) \<and> DDX_TextEx_int True t w1 = Some (v1, t))
   \<and> (\<exists>t. DDX_TextEx_uint False c v2 = Some (v2, t) \<and> DDX_TextEx_uint True t w2 = Some (v2, t))
   \<and> (\<exists>t. DDX_TextEx_short False c v3 = Some (v3, t) \<and> DDX_TextEx_short True t w3 = Some (v3, t))
   \<and> (\<exists>t. DDX_TextEx_ushort False c v4 = Some (v4, t) \<and> DDX_TextEx_ushort True t w4 = Some (v4, t))"
proof (intro conjI)
  note load = DDX_TextFormatIntT_def [of False, simplified]
  show "\<exists>t. DDX_TextEx_int False c v1 = Some (v1, t) \<and> DDX_TextEx_int True t w1 = Some (v1, t)"
    unfolding DDX_TextEx_int_def by (simp add: load text_exchange [OF int_bounds, where f = word_of_int])
  show "\<exists>t. DDX_TextEx_uint False c v2 = Some (v2, t) \<and> DDX_TextEx_uint True t w2 = Some (v2, t)"
    unfolding DDX_TextEx_uint_def by (simp add: load text_exchange [OF int_bounds, where f = word_of_int])
  show "\<exists>t. DDX_TextEx_short False c v3 = Some (v3, t) \<and> DDX_TextEx_short True t w3 = Some (v3, t)"
    unfolding DDX_TextEx_short_def by (simp add: load text_exchange [OF short_bounds, where f = word_of_int])
  show "\<exists>t. DDX_TextEx_ushort False c v4 = Some (v4, t) \<and> DDX_TextEx_ushort True t w4 = Some (v4, t)"
    unfolding DDX_TextEx_ushort_def by (simp add: load text_exchange [OF ushort_bounds, where f = word_of_int])
qed

section \<open>Callbacks, characterised\<close>

lemma sint_eq_iff: "sint (a :: 'a::len word) = sint b \<longleftrightarrow> a = b"
  by (auto intro: signed_word_eqI)

text \<open>What a callback shall be called with, when the member went from \<open>v\<close> to \<open>v'\<close>.\<close>

definition change :: "bool \<Rightarrow> 'v \<Rightarrow> 'v \<Rightarrow> ('v \<times> 'v) option" where
  "change save v v' = (if save \<and> v \<noteq> v' then Some (v, v') else None)"

lemma bit_range: "n \<in> {0, 1} \<Longrightarrow> uint (word_of_int n :: u8) = n \<and> sint (word_of_int n :: 8 word) = n
    \<and> sint (word_of_int n :: 32 word) = n"
  by auto

text \<open>The exchange functions with a callback report exactly the changes: the callback is called when
  the controls are read and the member's value became another one, with the old and the new value.
  For the check boxes this rests on the box being checked or unchecked; a \<open>bool\<close> member that is
  false reports a change from false to false when the box is in its third state.\<close>

theorem exchange_callbacks:
  assumes "\<And>n. check n \<in> {0, 1}"
  shows "(let (v, c) = DDX_CBIndexEx_byte_callback save ex m1 in c = change save m1 v)
    \<and> (let (v, c) = DDX_CBIndexEx_int_callback save ex m2 in c = change save m2 v)
    \<and> (let (v, c) = DDX_CBIndexEx_short_callback save ex m3 in c = change save m3 v)
    \<and> (let (v, c) = DDX_RadioEx save ex m2 in c = change save m2 v)
    \<and> (let (v, c) = DDX_CheckEx_char_callback save check m4 in c = change save m4 v)
    \<and> (let (v, c) = DDX_CheckEx_byte_callback save check m1 in c = change save m1 v)
    \<and> (let (v, c) = DDX_CheckEx_int_callback save check m2 in c = change save m2 v)
    \<and> (let (v, c) = DDX_CheckEx_bool_callback save check m5 in c = change save m5 v)
    \<and> snd (DDX_CheckEx_bool_callback True (\<lambda>n. 2) False) = Some (False, False)"
proof (intro conjI)
  note defs = change_def Let_def split_beta word_uint_eq_iff [symmetric] sint_eq_iff
  show "let (v, c) = DDX_CBIndexEx_byte_callback save ex m1 in c = change save m1 v"
    by (simp add: DDX_CBIndexEx_byte_callback_def defs)
  show "let (v, c) = DDX_CBIndexEx_int_callback save ex m2 in c = change save m2 v"
    by (simp add: DDX_CBIndexEx_int_callback_def defs)
  show "let (v, c) = DDX_CBIndexEx_short_callback save ex m3 in c = change save m3 v"
    by (simp add: DDX_CBIndexEx_short_callback_def defs)
  show "let (v, c) = DDX_RadioEx save ex m2 in c = change save m2 v"
    by (simp add: DDX_RadioEx_def defs)
  show "let (v, c) = DDX_CheckEx_char_callback save check m4 in c = change save m4 v"
    using bit_range [OF assms [of "sint m4"]] by (auto simp: DDX_CheckEx_char_callback_def defs)
  show "let (v, c) = DDX_CheckEx_byte_callback save check m1 in c = change save m1 v"
    using bit_range [OF assms [of "uint m1"]] by (auto simp: DDX_CheckEx_byte_callback_def defs)
  show "let (v, c) = DDX_CheckEx_int_callback save check m2 in c = change save m2 v"
    using bit_range [OF assms [of "sint m2"]] by (auto simp: DDX_CheckEx_int_callback_def defs)
  show "let (v, c) = DDX_CheckEx_bool_callback save check m5 in c = change save m5 v"
    using assms [of 0] assms [of 1] by (auto simp: DDX_CheckEx_bool_callback_def defs)
  show "snd (DDX_CheckEx_bool_callback True (\<lambda>n. 2) False) = Some (False, False)"
    by (simp add: DDX_CheckEx_bool_callback_def)
qed

theorem exchange_callbacks_witness:
  "DDX_CheckEx_bool_callback True (\<lambda>n. 1 - n) True = (False, Some (True, False))"
  using exchange_callbacks [of "\<lambda>n. if n = 1 then 0 else 1" True id 0 0 0 0 True]
  by (simp add: DDX_CheckEx_bool_callback_def)

end
