(* ===== verification/Settings.thy ===== *)
theory Settings
  imports Logging Util_System Util_Wnd Session_Life "HOL-Library.Signed_Division"
begin

text \<open>
  The settings file and what it decides: the reader of \<open>common/WinIniParser.cpp\<close>, the start of
  logging in \<open>SettingIni.cpp\<close> and the line it writes at the end of the program, the path of the
  program in \<open>Emulator.cpp\<close>. \<open>program_config\<close> connects the logger with the proxy's sessions.
\<close>

section \<open>WinIniParser\<close>

text \<open>
  \<open>profile file section key\<close> is the text of the entry, empty when there is none; of it
  \<open>GetPrivateProfileString\<close> copies at most 255 characters into the buffer. The results are what a
  function returns and the value of its reference argument afterwards.
\<close>

type_synonym profile = "string \<Rightarrow> string \<Rightarrow> string \<Rightarrow> string"

definition WinIniParser_IsValid :: "(string \<Rightarrow> u32 option) \<Rightarrow> string \<Rightarrow> bool" where
  "WinIniParser_IsValid attributes file_path = (if file_path = [] then False else IsExistFile attributes file_path)"

definition SetFilePath :: "(string \<Rightarrow> u32 option) \<Rightarrow> string \<Rightarrow> string \<Rightarrow> bool \<times> string" where
  "SetFilePath attributes file_path m_file_path =
    (if \<not> WinIniParser_IsValid attributes file_path then (False, m_file_path) else (True, file_path))"

definition GetValue_CString :: "profile \<Rightarrow> string \<Rightarrow> string \<Rightarrow> string \<Rightarrow> bool \<times> string" where
  "GetValue_CString profile m_file_path sec key =
    (let ret = take 255 (profile m_file_path sec key) in (if length ret = 0 then (False, ret) else (True, ret)))"

definition GetValue_int :: "profile \<Rightarrow> string \<Rightarrow> string \<Rightarrow> string \<Rightarrow> int \<Rightarrow> bool \<times> int" where
  "GetValue_int profile m_file_path sec key value =
    (let (found, str_buffer) = GetValue_CString profile m_file_path sec key
     in if \<not> found then (False, value) else (True, tstoi str_buffer))"

text \<open>\<open>tof\<close> is the C library's \<open>_tstof\<close>, converted to \<open>float\<close> or not.\<close>

definition GetValue_float :: "(string \<Rightarrow> 'f) \<Rightarrow> profile \<Rightarrow> string \<Rightarrow> string \<Rightarrow> string \<Rightarrow> 'f \<Rightarrow> bool \<times> 'f" where
  "GetValue_float tof profile m_file_path sec key value =
    (let (found, str_buffer) = GetValue_CString profile m_file_path sec key
     in if \<not> found then (False, value) else (True, tof str_buffer))"

definition GetValue_double :: "(string \<Rightarrow> 'f) \<Rightarrow> profile \<Rightarrow> string \<Rightarrow> string \<Rightarrow> string \<Rightarrow> 'f \<Rightarrow> bool \<times> 'f" where
  "GetValue_double tof profile m_file_path sec key value =
    (let (found, str_buffer) = GetValue_CString profile m_file_path sec key
     in if \<not> found then (False, value) else (True, tof str_buffer))"

text \<open>\<open>MakeUpper\<close> in the "C" locale.\<close>

definition MakeUpper :: "string \<Rightarrow> string" where
  "MakeUpper s = map (\<lambda>c. let n = of_char c :: nat in if 97 \<le> n \<and> n \<le> 122 then char_of (n - 32) else c) s"

definition GetValue_bool :: "profile \<Rightarrow> string \<Rightarrow> string \<Rightarrow> string \<Rightarrow> bool \<Rightarrow> bool \<times> bool" where
  "GetValue_bool profile m_file_path sec key value =
    (let (found, str_buffer) = GetValue_CString profile m_file_path sec key
     in if \<not> found then (False, value)
        else (let str_buffer = MakeUpper str_buffer
              in if ''TRUE'' = str_buffer then (True, True)
                 else if ''FALSE'' = str_buffer then (True, False)
                 else (False, value)))"

section \<open>SettingIni\<close>

text \<open>
  The logger of \<open>plog::init\<close> and the appenders in its dynamic appender; \<open>None\<close> is no logger, and the
  log macros then do nothing. \<open>st_lines\<close> are the messages logged.
\<close>

datatype appender = DebugOutputAppender | WinConsoleAppender | OneDayFileAppender string

record setting_ini =
  m_time_start_app :: int
  st_logger :: "(Severity \<times> appender list) option"
  st_lines :: "string list"

definition addAppender :: "appender \<Rightarrow> appender list \<Rightarrow> appender list" where
  "addAppender x m_appenders = (if x \<in> set m_appenders then m_appenders else m_appenders @ [x])"

definition removeAppender :: "appender \<Rightarrow> appender list \<Rightarrow> appender list" where
  "removeAppender x m_appenders = filter (\<lambda>y. y \<noteq> x) m_appenders"

text \<open>\<open>IF_PLOG_\<close>: whether a macro of this severity evaluates its arguments and writes.\<close>

definition plog_enabled :: "(Severity \<times> appender list) option \<Rightarrow> Severity \<Rightarrow> bool" where
  "plog_enabled logger severity = (case logger of None \<Rightarrow> False | Some (m, _) \<Rightarrow> checkSeverity m severity)"

definition st_log :: "Severity \<Rightarrow> string \<Rightarrow> setting_ini \<Rightarrow> setting_ini" where
  "st_log severity text s = (if plog_enabled (st_logger s) severity then s\<lparr>st_lines := st_lines s @ [text]\<rparr> else s)"

definition bool_text :: "bool \<Rightarrow> string" where
  "bool_text b = (if b then ''true'' else ''false'')"

text \<open>\<open>build\<close> is the text of \<open>__DATE__\<close> and \<open>__TIME__\<close>.\<close>

definition SettingIni_ctor ::
  "(string \<Rightarrow> u32 option) \<Rightarrow> profile \<Rightarrow> int \<Rightarrow> string \<Rightarrow> string \<Rightarrow> string \<Rightarrow> setting_ini" where
  "SettingIni_ctor attributes profile now build name root_path =
    (let s = \<lparr>m_time_start_app = now, st_logger = None, st_lines = []\<rparr>;
         file_name = root_path @ ''SETTING.txt''
     in if WinIniParser_IsValid attributes file_name then
          (let m_appenders = addAppender DebugOutputAppender [];
               console = snd (GetValue_bool profile file_name ''DEBUG'' ''CONSOLE'' False);
               m_appenders = (if console then addAppender WinConsoleAppender m_appenders else m_appenders);
               log = snd (GetValue_bool profile file_name ''DEBUG'' ''LOG'' False);
               m_appenders = (if log then addAppender (OneDayFileAppender (root_path @ ''LOG'')) m_appenders else m_appenders);
               s = s\<lparr>st_logger := Some (sev_verbose, m_appenders)\<rparr>;
               s = st_log sev_info ''<<====================     START     ====================>>'' s;
               s = st_log sev_info (''Name['' @ name @ ''] Build Date['' @ build @ '']'') s
           in st_log sev_info (''DEBUG -- CONSOLE['' @ bool_text console @ ''] LOG['' @ bool_text log @ '']'') s)
        else s)"

text \<open>\<open>CTimeSpan\<close>'s parts of a number of seconds; C++ rounds quotients towards 0.\<close>

definition GetDays :: "int \<Rightarrow> int" where "GetDays span = span sdiv (24 * 3600)"
definition GetHours :: "int \<Rightarrow> int" where "GetHours span = span sdiv 3600 - GetDays span * 24"
definition GetMinutes :: "int \<Rightarrow> int" where "GetMinutes span = span sdiv 60 - (span sdiv 3600) * 60"
definition GetSeconds :: "int \<Rightarrow> int" where "GetSeconds span = span - (span sdiv 60) * 60"

definition SettingIni_dtor :: "int \<Rightarrow> setting_ini \<Rightarrow> setting_ini" where
  "SettingIni_dtor time_cur s =
    (let time_running = time_cur - m_time_start_app s;
         days = to_int32 (GetDays time_running);
         hours = GetHours time_running;
         mins = GetMinutes time_running;
         secs = GetSeconds time_running;
         s = st_log sev_info (''Program Running Time: '' @ dec_int days @ '':days '' @ dec_int hours @ '':hours ''
               @ dec_int mins @ '':mins '' @ dec_int secs @ '':secs'') s
     in st_log sev_info ''<<====================     END     ====================>>'' s)"

text \<open>
  \<open>GetInstance\<close>: the object is made by the first call. \<open>file\<close> is the path of the program, which
  \<open>GetProcessPath\<close> cuts at its last backslash.
\<close>

definition GetInstance ::
  "(string \<Rightarrow> u32 option) \<Rightarrow> profile \<Rightarrow> int \<Rightarrow> string \<Rightarrow> string \<Rightarrow> setting_ini option \<Rightarrow> setting_ini" where
  "GetInstance attributes profile now build file setting_ini =
    (let log_dir = snd (GetProcessPath (CHR 0x5C) file '''') @ [CHR 0x5C]
     in case setting_ini of
          Some s \<Rightarrow> s
        | None \<Rightarrow> SettingIni_ctor attributes profile now build ''HT3X00AS'' log_dir)"

text \<open>The application's own copy of the function.\<close>

definition EmulatorApp_GetProcessPath :: "string \<Rightarrow> string \<Rightarrow> int \<times> string" where
  "EmulatorApp_GetProcessPath file dest =
    (case rfind file (CHR 0x5C) of None \<Rightarrow> (1, dest) | Some pos \<Rightarrow> (0, substr file 0 pos))"

text \<open>The proxy's log lines have the severities \<open>info\<close> and \<open>error\<close>.\<close>

definition program_config :: "setting_ini \<Rightarrow> config \<Rightarrow> config" where
  "program_config s C = C\<lparr>c_logging := plog_enabled (st_logger s) sev_info\<rparr>"

section \<open>What the settings file decides\<close>

lemma plog_all: "plog_enabled (Some (sev_verbose, as)) severity"
  by (cases severity) (simp_all add: plog_enabled_def checkSeverity_def)

lemma logger_installed:
  "plog_enabled (st_logger (SettingIni_ctor attributes profile now build name root)) severity
    \<longleftrightarrow> IsExistFile attributes (root @ ''SETTING.txt'')"
  unfolding SettingIni_ctor_def Let_def
  by (simp add: st_log_def plog_all WinIniParser_IsValid_def) (simp add: plog_enabled_def)

lemma GetValue_bool_True:
  "snd (GetValue_bool profile f sec key False) \<longleftrightarrow> MakeUpper (take 255 (profile f sec key)) = ''TRUE''"
proof (cases "take 255 (profile f sec key) = []")
  case True
  then show ?thesis by (simp add: GetValue_bool_def GetValue_CString_def MakeUpper_def)
next
  case False
  then show ?thesis by (simp add: GetValue_bool_def GetValue_CString_def Let_def)
qed

text \<open>The settings file decides what is logged and where. Without \<open>SETTING.txt\<close> there is no logger;
  with it every severity is logged, to the debug output always, to a console exactly when
  \<open>CONSOLE\<close> of \<open>[DEBUG]\<close> is \<open>true\<close> in any spelling, and to a daily file below \<open>LOG\<close> exactly when \<open>LOG\<close> is.\<close>

theorem settings_decide_logging:
  "(let s = SettingIni_ctor attributes profile now build name root; f = root @ ''SETTING.txt'';
        on = (\<lambda>key. MakeUpper (take 255 (profile f ''DEBUG'' key)) = ''TRUE'')
    in plog_enabled (st_logger s) severity = IsExistFile attributes f
       \<and> (case st_logger s of
            None \<Rightarrow> \<not> IsExistFile attributes f
          | Some (_, appenders) \<Rightarrow> set appenders = {DebugOutputAppender}
              \<union> (if on ''CONSOLE'' then {WinConsoleAppender} else {})
              \<union> (if on ''LOG'' then {OneDayFileAppender (root @ ''LOG'')} else {})))"
proof -
  have e: "WinIniParser_IsValid attributes (root @ ''SETTING.txt'') = IsExistFile attributes (root @ ''SETTING.txt'')"
    by (simp add: WinIniParser_IsValid_def)
  show ?thesis
    unfolding Let_def logger_installed
    by (cases "IsExistFile attributes (root @ ''SETTING.txt'')")
      (auto simp: SettingIni_ctor_def Let_def e st_log_def plog_all addAppender_def GetValue_bool_True)
qed

text \<open>C10: Whether a session of the proxy can be closed is decided by the settings file as soon as one of
  its peers' addresses cannot be read. \<open>Close\<close> then destroys the session if there is no
  \<open>SETTING.txt\<close>; with the file the log line throws and the session stays for ever.\<close>

theorem settings_decide_close:
  assumes "\<not> names_readable C s w" and "lifetime_ok w" and "s < nsess w"
    and "ss_alive (sessions w s)" and "\<not> ss_closed (sessions w s)"
  shows "(let P = program_config (SettingIni_ctor attributes profile now build name root) C
    in if IsExistFile attributes (root @ ''SETTING.txt'')
       then (\<exists>x w'. Close P s w = (Inl x, w') \<and> ss_alive (sessions w' s) \<and> socks w' = socks w
               \<and> (\<forall>C'. Close C' s w' = (Inr (), w')))
       else (\<exists>w'. Close P s w = (Inr (), w') \<and> \<not> ss_alive (sessions w' s) \<and> lifetime_ok w'))"
proof -
  let ?P = "program_config (SettingIni_ctor attributes profile now build name root) C"
  have l: "c_logging ?P \<longleftrightarrow> IsExistFile attributes (root @ ''SETTING.txt'')"
    by (simp add: program_config_def logger_installed)
  have n: "\<not> names_readable ?P s w" using assms(1) by (simp add: names_readable_def program_config_def)
  show ?thesis
  proof (cases "IsExistFile attributes (root @ ''SETTING.txt'')")
    case True
    with Close_stuck [OF _ n assms(4,5)] l show ?thesis by (simp add: Let_def) blast
  next
    case False
    with Close_completes [OF _ assms(2-5), of ?P] l show ?thesis by (simp add: Let_def) blast
  qed
qed

theorem settings_decide_close_witness:
  "\<exists>x w'. Close (program_config (SettingIni_ctor (\<lambda>f. if f = ''D:SETTING.txt'' then Some 0 else None) (\<lambda>_ _ _. []) 0 [] [] ''D:'')
      refused_config) 0 registered_world = (Inl x, w') \<and> ss_alive (sessions w' 0)"
proof -
  have a: "lifetime_ok registered_world" "0 < nsess registered_world" "ss_alive (sessions registered_world 0)"
    using registered_world_alive by (simp_all add: alive_at_def)
  have s: "socks registered_world = socks session_world"
    using registered_world_io by (simp_all add: io_part_def)
  have c: "\<not> ss_closed (sessions registered_world 0)"
    by (simp add: registered_world_sessions session_world_def)
  have n: "\<not> names_readable refused_config 0 registered_world"
    by (simp add: names_readable_def peer_named_def registered_world_sessions s refused_config_def session_world_def sample_sock_def)
  from settings_decide_close [OF n a c, of "\<lambda>f. if f = ''D:SETTING.txt'' then Some 0 else None" "\<lambda>_ _ _. []" 0 "[]" "[]" "''D:''"]
  show ?thesis by (auto simp: Let_def IsExistFile_def)
qed

section \<open>The running time\<close>

lemma sdiv_nonneg: "0 \<le> (a::int) \<Longrightarrow> 0 < b \<Longrightarrow> a sdiv b = a div b"
  by (simp add: signed_divide_int_def sgn_if)

text \<open>The running time printed at the end is the one that passed: days, hours, minutes and seconds add
  up to the seconds between start and end, with less than 24 hours, 60 minutes and 60 seconds.\<close>

theorem running_time_parts:
  assumes "0 \<le> span" and "span < 2 ^ 31 * 86400"
  shows "to_int32 (GetDays span) * 86400 + GetHours span * 3600 + GetMinutes span * 60 + GetSeconds span = span
    \<and> 0 \<le> GetHours span \<and> GetHours span < 24 \<and> 0 \<le> GetMinutes span \<and> GetMinutes span < 60
    \<and> 0 \<le> GetSeconds span \<and> GetSeconds span < 60"
proof -
  have q: "span div 86400 = (span div 3600) div 24" "span div 3600 = (span div 60) div 60"
    by (simp_all add: zdiv_zmult2_eq [symmetric])
  have "0 \<le> span div 86400" "span div 86400 < 2 ^ 31" using assms by simp_all
  then have d: "to_int32 (span div 86400) = span div 86400"
    by (simp add: to_int32_def signed_of_int signed_take_bit_int_eq_self)
  have "span - (span div 60) * 60 = span mod 60" by (simp add: minus_div_mult_eq_mod)
  moreover have "span div 60 - (span div 3600) * 60 = (span div 60) mod 60" by (simp add: q(2) minus_div_mult_eq_mod)
  moreover have "span div 3600 - (span div 86400) * 24 = (span div 3600) mod 24" by (simp add: q(1) minus_div_mult_eq_mod)
  ultimately show ?thesis
    using assms(1) d by (simp add: GetDays_def GetHours_def GetMinutes_def GetSeconds_def sdiv_nonneg)
qed

theorem running_time_parts_witness:
  "GetDays 100000 * 86400 + GetHours 100000 * 3600 + GetMinutes 100000 * 60 + GetSeconds 100000 = 100000"
  using running_time_parts [of 100000] by (simp add: to_int32_def GetDays_def sdiv_nonneg)

end
