(* ===== verification/Inner_Thread.thy ===== *)
theory Inner_Thread
  imports Prelude
begin

text \<open>
  The wrapper of \<open>std::thread\<close> in \<open>common/InnerThread.cpp\<close>. Its thread calls the virtual function
  \<open>ThreadLoop\<close> of the derived class; while an object is destroyed its dynamic type changes from the
  derived class to \<open>InnerThread\<close>, where the function is pure.
\<close>

section \<open>State and operations\<close>

text \<open>
  The thread is before its call of \<open>ThreadLoop\<close> (it writes a log line and sets its name), in it, or
  finished; \<open>None\<close> is a thread that is not joinable.
\<close>

datatype inner_pc = Starting | Looping | Finished

datatype inner_object = Derived | Base_only | Gone

record inner_thread =
  it_thread :: "inner_pc option"
  it_name :: string
  it_object :: inner_object

text \<open>\<open>Terminates\<close> is \<open>std::terminate\<close>, \<open>Pure_call\<close> the call of a pure virtual function.\<close>

datatype inner_result = Fine inner_thread | Terminates | Pure_call

definition InnerThread_ctor :: inner_thread where
  "InnerThread_ctor = \<lparr>it_thread = None, it_name = '''', it_object = Derived\<rparr>"

definition StartThread :: "inner_thread \<Rightarrow> inner_result" where
  "StartThread t = (if it_thread t \<noteq> None then Terminates else Fine (t\<lparr>it_thread := Some Starting\<rparr>))"

text \<open>\<open>None\<close>: the caller waits.\<close>

definition JoinThread :: "inner_thread \<Rightarrow> inner_thread option" where
  "JoinThread t = (case it_thread t of
      None \<Rightarrow> Some t
    | Some Finished \<Rightarrow> Some (t\<lparr>it_thread := None\<rparr>)
    | Some _ \<Rightarrow> None)"

definition SaveThreadName :: "string \<Rightarrow> inner_thread \<Rightarrow> inner_thread" where
  "SaveThreadName name t = t\<lparr>it_name := name\<rparr>"

definition InnerThread_dtor :: "inner_thread \<Rightarrow> inner_thread option" where
  "InnerThread_dtor t = map_option (\<lambda>t. t\<lparr>it_object := Gone\<rparr>) (JoinThread t)"

text \<open>One step of the thread: \<open>None\<close> when there is none or it has finished.\<close>

definition thread_step :: "inner_thread \<Rightarrow> inner_result option" where
  "thread_step t = (case it_thread t of
      Some Starting \<Rightarrow> Some (if it_object t = Derived then Fine (t\<lparr>it_thread := Some Looping\<rparr>) else Pure_call)
    | Some Looping \<Rightarrow> Some (Fine (t\<lparr>it_thread := Some Finished\<rparr>))
    | _ \<Rightarrow> None)"

section \<open>Destruction\<close>

text \<open>
  The steps of a program with one such object. \<open>joins\<close> is whether the destructor of the derived
  class joins the thread, as the example in the header does; otherwise only \<open>~InnerThread\<close> does.
\<close>

inductive inner_step :: "bool \<Rightarrow> inner_thread \<Rightarrow> inner_result \<Rightarrow> bool" for joins where
  Start: "it_object t = Derived \<Longrightarrow> inner_step joins t (StartThread t)"
| Join: "it_object t = Derived \<Longrightarrow> JoinThread t = Some t' \<Longrightarrow> inner_step joins t (Fine t')"
| Destroy_derived: "it_object t = Derived \<Longrightarrow> (joins \<Longrightarrow> it_thread t = None) \<Longrightarrow>
    inner_step joins t (Fine (t\<lparr>it_object := Base_only\<rparr>))"
| Destroy_base: "it_object t = Base_only \<Longrightarrow> InnerThread_dtor t = Some t' \<Longrightarrow> inner_step joins t (Fine t')"
| Thread: "thread_step t = Some r \<Longrightarrow> inner_step joins t r"

inductive inner_reach :: "bool \<Rightarrow> inner_result \<Rightarrow> bool" for joins where
  Init: "inner_reach joins (Fine InnerThread_ctor)"
| Next: "inner_reach joins (Fine t) \<Longrightarrow> inner_step joins t r \<Longrightarrow> inner_reach joins r"

inductive_cases inner_stepE: "inner_step joins t r"

definition inner_inv :: "inner_result \<Rightarrow> bool" where
  "inner_inv r \<longleftrightarrow> (case r of Fine t \<Rightarrow> it_object t \<noteq> Derived \<longrightarrow> it_thread t = None | Terminates \<Rightarrow> True | Pure_call \<Rightarrow> False)"

lemma inner_inv_step: "inner_step True t r \<Longrightarrow> inner_inv (Fine t) \<Longrightarrow> inner_inv r"
  by (erule inner_stepE)
    (auto simp: inner_inv_def StartThread_def JoinThread_def InnerThread_dtor_def thread_step_def
      split: option.splits inner_pc.splits if_splits)

text \<open>A derived class whose destructor joins never lets its thread call the pure function.\<close>

lemma joining_destructor_safe: "inner_reach True r \<Longrightarrow> r \<noteq> Pure_call"
proof -
  assume "inner_reach True r"
  then have "inner_inv r"
  proof (induction rule: inner_reach.induct)
    case Init
    then show ?case by (simp add: inner_inv_def InnerThread_ctor_def)
  next
    case (Next t r)
    then show ?case by (blast intro: inner_inv_step)
  qed
  then show ?thesis by (auto simp: inner_inv_def)
qed

text \<open>
  The join in \<open>~InnerThread\<close> comes too late: a thread that has not reached \<open>ThreadLoop\<close> yet when the
  derived part is gone calls the pure function. And a second \<open>StartThread\<close> terminates the program.
\<close>

lemma base_destructor_unsafe: "inner_reach False Pure_call"
proof -
  let ?t = "InnerThread_ctor\<lparr>it_thread := Some Starting\<rparr>"
  have "inner_step False InnerThread_ctor (Fine ?t)"
    using inner_step.Start [of InnerThread_ctor False] by (simp add: StartThread_def InnerThread_ctor_def)
  then have "inner_reach False (Fine ?t)" by (blast intro: inner_reach.intros)
  moreover have "inner_step False ?t (Fine (?t\<lparr>it_object := Base_only\<rparr>))"
    by (rule inner_step.Destroy_derived) (simp_all add: InnerThread_ctor_def)
  ultimately have "inner_reach False (Fine (?t\<lparr>it_object := Base_only\<rparr>))" by (rule inner_reach.Next)
  moreover have "inner_step False (?t\<lparr>it_object := Base_only\<rparr>) Pure_call"
    by (rule inner_step.Thread) (simp add: thread_step_def)
  ultimately show ?thesis by (rule inner_reach.Next)
qed

lemma start_twice_terminates: "inner_reach joins Terminates"
proof -
  let ?t = "InnerThread_ctor\<lparr>it_thread := Some Starting\<rparr>"
  have "inner_step joins InnerThread_ctor (Fine ?t)"
    using inner_step.Start [of InnerThread_ctor joins] by (simp add: StartThread_def InnerThread_ctor_def)
  then have "inner_reach joins (Fine ?t)" by (blast intro: inner_reach.intros)
  moreover have "inner_step joins ?t Terminates"
    using inner_step.Start [of ?t joins] by (simp add: StartThread_def InnerThread_ctor_def)
  ultimately show ?thesis by (rule inner_reach.Next)
qed

end
