(* ===== verification/Packet_Data.thy ===== *)
theory Packet_Data
  imports Layout
begin

text \<open>
  The data of the auto sampler protocol (\<open>network/PacketData.h\<close>): codes and enumerations, the
  layout of every structure, and the constructors as what they write into the object's memory.
  A \<open>float\<close> is its IEEE bit pattern.
\<close>

section \<open>Codes\<close>

definition PACKET_DEVICE_ID_YLAS :: u32 where
  "PACKET_DEVICE_ID_YLAS = 0x97000"

datatype packet_code =
    SYSTEM_INFORM | SYSTEM_CONFIG | RUN_SETUP | TIME_EVENT | MIX_SETUP | SEQUENCE | COMMAND | STATE
  | SLFEMSG | SERVICE | ADJUST_DATA | DIAG_DATA | USED_TIME | UPDATE | SPECIAL

fun PACKCODE :: "packet_code \<Rightarrow> u32" where
  "PACKCODE SYSTEM_INFORM = PACKET_DEVICE_ID_YLAS + 0x400"
| "PACKCODE SYSTEM_CONFIG = PACKET_DEVICE_ID_YLAS + 0x410"
| "PACKCODE RUN_SETUP = PACKET_DEVICE_ID_YLAS + 0x420"
| "PACKCODE TIME_EVENT = PACKET_DEVICE_ID_YLAS + 0x430"
| "PACKCODE MIX_SETUP = PACKET_DEVICE_ID_YLAS + 0x440"
| "PACKCODE SEQUENCE = PACKET_DEVICE_ID_YLAS + 0x460"
| "PACKCODE COMMAND = PACKET_DEVICE_ID_YLAS + 0x470"
| "PACKCODE STATE = PACKET_DEVICE_ID_YLAS + 0x480"
| "PACKCODE SLFEMSG = PACKET_DEVICE_ID_YLAS + 0x490"
| "PACKCODE SERVICE = PACKET_DEVICE_ID_YLAS + 0x500"
| "PACKCODE ADJUST_DATA = PACKET_DEVICE_ID_YLAS + 0x510"
| "PACKCODE DIAG_DATA = PACKET_DEVICE_ID_YLAS + 0x520"
| "PACKCODE USED_TIME = PACKET_DEVICE_ID_YLAS + 0x540"
| "PACKCODE UPDATE = PACKET_DEVICE_ID_YLAS + 0x700"
| "PACKCODE SPECIAL = PACKET_DEVICE_ID_YLAS + 0x620"

definition Tray40Vial :: u32 where "Tray40Vial = 0"
definition Tray60Vial :: u32 where "Tray60Vial = 1"
definition Tray96Plate :: u32 where "Tray96Plate = 2"
definition TrayNone :: u32 where "TrayNone = 3"

lemmas trays = Tray40Vial_def Tray60Vial_def Tray96Plate_def TrayNone_def

definition RowFirst :: u32 where "RowFirst = 0"
definition ColumnFirst :: u32 where "ColumnFirst = 1"
definition Pulse100ms :: nat where "Pulse100ms = 1"
definition PartialLoop :: nat where "PartialLoop = 1"
definition BetweenInjections :: nat where "BetweenInjections = 1"

datatype command = CNone | CStart | CLast | CPause | CResume | CAbort | CInit | CLoad | CInject | CStop

fun command_code :: "command \<Rightarrow> nat" where
  "command_code CNone = 0" | "command_code CStart = 1" | "command_code CLast = 2"
| "command_code CPause = 3" | "command_code CResume = 4" | "command_code CAbort = 5"
| "command_code CInit = 6" | "command_code CLoad = 7" | "command_code CInject = 8"
| "command_code CStop = 9"

datatype lcas_service = SNone | SAdjust | SDiagnosis | SCalibration | SExchange | SWash | SUsedTime | SMacInit

fun service_code :: "lcas_service \<Rightarrow> nat" where
  "service_code SNone = 0" | "service_code SAdjust = 1" | "service_code SDiagnosis = 2"
| "service_code SCalibration = 3" | "service_code SExchange = 4" | "service_code SWash = 5"
| "service_code SUsedTime = 6" | "service_code SMacInit = 7"

section \<open>Layouts\<close>

type_synonym layout = "(string \<times> ctype) list"

definition CHROZEN_PACKET_t :: layout where
  "CHROZEN_PACKET_t = [(''nPacketLength'', U32), (''nDeviceID'', U32), (''nPacketCode'', U32),
     (''nEventIndex'', U32), (''nSlotOffset'', U32), (''nSlotSize'', U32), (''Slot'', Arr 0 U8)]"

definition TIME_t :: layout where
  "TIME_t = [(''hour'', U8), (''minute'', U8), (''second'', U8)]"

definition DATE_t :: layout where
  "DATE_t = [(''year'', U8), (''month'', U8), (''date'', U8)]"

definition SYSTEM_INFORM_t :: layout where
  "SYSTEM_INFORM_t = [(''cModel'', Arr 32 U8), (''cVersion'', Arr 9 U8), (''cSerialNo'', Arr 17 U8),
     (''cInstallDate'', Str DATE_t), (''cSysDate'', Str DATE_t), (''cSysTime'', Str TIME_t),
     (''cIPAddress'', Arr 16 U8), (''cPortNo'', Arr 5 U8)]"

definition SYSTEM_CONFIG_t :: layout where
  "SYSTEM_CONFIG_t = [(''trayCooling'', U32), (''sampleLoopVol'', U32), (''syringeVol'', U32),
     (''needleTubeVol'', U32), (''trayLeft'', U32), (''trayRight'', U32), (''processType'', U32),
     (''syringeUpSpdWash'', U32), (''syringeDnSpdWash'', U32), (''injectMarkerTime'', U32),
     (''startInSigTime'', U32), (''useMicroPump'', U8)]"

definition LCAS_RUN_SETUP_t :: layout where
  "LCAS_RUN_SETUP_t = [(''tempOnoff'', U8), (''temp'', U32), (''injectionStart'', U8),
     (''injectionMode'', U8), (''analysisTime'', F32), (''flushEnable'', U8), (''flushVolume'', F32),
     (''injectionVolume'', F32), (''washBetween'', U8), (''washVolume'', U32),
     (''washNeedleBeforeInj'', U8), (''washNeedleAfterInj'', U8), (''washInjportBeforeInj'', U8),
     (''washInjportAfterInj'', U8), (''syringeUpSpdInj'', U8), (''syringeDnSpdInj'', U8),
     (''needleHeight'', F32), (''waitTime_AfterAspirate'', F32), (''waitTime_AfterDispense'', F32),
     (''skipMissingSample'', U8), (''airSegment'', U8), (''airSegmentVol'', F32),
     (''microPumpTime'', U8), (''reserved1'', U8), (''reserved2'', U8), (''reserved3'', U8)]"

definition AUX_EVENT_t :: layout where
  "AUX_EVENT_t = [(''fTime'', F32), (''auxOnoff'', U8)]"

definition AUX_TABLE_COUNT :: nat where "AUX_TABLE_COUNT = 20"

definition LCAS_TIME_EVENT_t :: layout where
  "LCAS_TIME_EVENT_t = [(''useAuxTimeEvent'', U8), (''initAux'', U8),
     (''auxEvent'', Arr AUX_TABLE_COUNT (Str AUX_EVENT_t)), (''endTime'', F32), (''auxOutSigTime'', U8)]"

definition VIAL_POS_t :: layout where
  "VIAL_POS_t = [(''pos'', U32)]"

definition LCAS_MIX_TABLE_t :: layout where
  "LCAS_MIX_TABLE_t = [(''action'', U8), (''addFrom'', U8), (''addTo'', U8), (''addVol'', F32),
     (''mixVial'', U8), (''mixTimes'', U8), (''mixVol'', F32), (''waitTime'', U16)]"

definition MIX_TABLE_COUNT :: nat where "MIX_TABLE_COUNT = 20"

definition LCAS_MIX_t :: layout where
  "LCAS_MIX_t = [(''useMixPrgm'', U8), (''relativeDestination'', U8), (''relativeReagentA'', U8),
     (''relativeReagentB'', U8), (''relativeReagentC'', U8), (''relativeReagentD'', U8),
     (''firstDestPos'', Str VIAL_POS_t), (''reagentPosA'', Str VIAL_POS_t), (''reagentPosB'', Str VIAL_POS_t),
     (''reagentPosC'', Str VIAL_POS_t), (''reagentPosD'', Str VIAL_POS_t),
     (''mixTable'', Arr MIX_TABLE_COUNT (Str LCAS_MIX_TABLE_t))]"

definition LCAS_STATE_t :: layout where
  "LCAS_STATE_t = [(''state'', U8), (''sample'', Str VIAL_POS_t), (''injectVial'', Str VIAL_POS_t),
     (''curInjCnt'', U32), (''fTemp'', F32), (''tempReady'', U8), (''errorCode'', U8)]"

definition LCAS_COMMAND_t :: layout where
  "LCAS_COMMAND_t = [(''btCommand'', U8), (''btSubCommand1'', U8), (''btSubCommand2'', U8), (''dummy'', U8)]"

definition LCAS_SERVICE_t :: layout where
  "LCAS_SERVICE_t = [(''command'', U8), (''subCommand1'', U8), (''subCommand2'', U8), (''value'', F32)]"

definition LCAS_SEQUENCE_t :: layout where
  "LCAS_SEQUENCE_t = [(''firstSamplePos'', Str VIAL_POS_t), (''lastSamplePos'', Str VIAL_POS_t),
     (''injectionTimes'', U8)]"

definition LCAS_SELFMSG_t :: layout where
  "LCAS_SELFMSG_t = [(''ucMessage'', U8), (''ucNewValue'', U8), (''dummy'', Arr 2 U8)]"

definition LCAS_DIAG_DATA_t :: layout where
  "LCAS_DIAG_DATA_t = [(''Current'', U8), (''N5Dcheck'', U8), (''V5Dcheck'', U8), (''V1_5Dcheck'', U8),
     (''V12Dcheck'', U8), (''V2_5Dcheck'', U8), (''V3_3Dcheck'', U8), (''N5Dvalue'', F32),
     (''V5Dvalue'', F32), (''V1_5Dvalue'', F32), (''V12Dvalue'', F32), (''V2_5Dvalue'', F32),
     (''V3_3Dvalue'', F32), (''Tempcheck'', U8), (''btHeaterTest'', U8), (''btCoolerTest'', U8),
     (''btLeakTest1'', U8), (''btLeakTest2'', U8), (''btTempSensor'', U8)]"

definition LCAS_SPECIAL_t :: layout where
  "LCAS_SPECIAL_t = [(''LED_onoff'', U8), (''Door_check'', U8), (''Leak_check'', U8),
     (''Buzzer_onoff'', U8), (''Reserved'', Arr 4 U8)]"

lemmas layouts = CHROZEN_PACKET_t_def TIME_t_def DATE_t_def SYSTEM_INFORM_t_def SYSTEM_CONFIG_t_def
  LCAS_RUN_SETUP_t_def AUX_EVENT_t_def AUX_TABLE_COUNT_def LCAS_TIME_EVENT_t_def VIAL_POS_t_def
  LCAS_MIX_TABLE_t_def MIX_TABLE_COUNT_def LCAS_MIX_t_def LCAS_STATE_t_def LCAS_COMMAND_t_def
  LCAS_SERVICE_t_def LCAS_SEQUENCE_t_def LCAS_SELFMSG_t_def LCAS_DIAG_DATA_t_def LCAS_SPECIAL_t_def

definition LCAS_MIX_SizeExcludeTable :: nat where
  "LCAS_MIX_SizeExcludeTable =
     c_size (Str LCAS_MIX_t) - c_size (Arr MIX_TABLE_COUNT (Str LCAS_MIX_TABLE_t))"

section \<open>Constructors\<close>

text \<open>
  A constructor is a function of the memory the object is created in; \<open>None\<close> is impossible
  (\<open>ctors_total\<close>). \<open>c_str\<close> is what \<open>strcpy_s\<close> copies.
\<close>

definition bytes_of :: "string \<Rightarrow> byte_seq" where
  "bytes_of s = map (\<lambda>c. of_nat (of_char c)) s"

definition put_str :: "layout \<Rightarrow> string \<Rightarrow> string \<Rightarrow> byte_seq \<Rightarrow> byte_seq option" where
  "put_str l f s m = (case member l f of None \<Rightarrow> None | Some (p, t) \<Rightarrow> mem_write p (bytes_of s @ [0]) m)"

definition SYSTEM_INFORM_ctor :: "byte_seq \<Rightarrow> byte_seq option" where
  "SYSTEM_INFORM_ctor _ =
     Option.bind (put_str SYSTEM_INFORM_t ''cModel'' ''YL9152 LC AutoSampler'' (memset0 (Str SYSTEM_INFORM_t)))
       (put_str SYSTEM_INFORM_t ''cVersion'' ''1.0.0'')"

definition SYSTEM_CONFIG_ctor :: "byte_seq \<Rightarrow> byte_seq option" where
  "SYSTEM_CONFIG_ctor _ = put_fields SYSTEM_CONFIG_t
     [(''sampleLoopVol'', 20), (''needleTubeVol'', 250), (''processType'', unat ColumnFirst),
      (''syringeUpSpdWash'', 6), (''syringeDnSpdWash'', 6), (''injectMarkerTime'', Pulse100ms),
      (''syringeVol'', 1)] (memset0 (Str SYSTEM_CONFIG_t))"

text \<open>\<open>void Init();\<close> in the constructor's body declares a function; it does not call one.\<close>

definition LCAS_RUN_SETUP_ctor :: "byte_seq \<Rightarrow> byte_seq option" where
  "LCAS_RUN_SETUP_ctor m = Some m"

definition f32_one_fifth :: nat where "f32_one_fifth = 0x3E4CCCCD"
definition f32_two :: nat where "f32_two = 0x40000000"
definition f32_five :: nat where "f32_five = 0x40A00000"
definition f32_ten :: nat where "f32_ten = 0x41200000"
definition f32_minus_one :: nat where "f32_minus_one = 0xBF800000"

definition LCAS_RUN_SETUP_Init :: "byte_seq \<Rightarrow> byte_seq option" where
  "LCAS_RUN_SETUP_Init _ = put_fields LCAS_RUN_SETUP_t
     [(''injectionMode'', PartialLoop), (''temp'', 4), (''flushEnable'', 1), (''flushVolume'', f32_ten),
      (''syringeUpSpdInj'', 6), (''syringeDnSpdInj'', 3), (''needleHeight'', f32_two),
      (''skipMissingSample'', 1), (''waitTime_AfterAspirate'', f32_one_fifth),
      (''waitTime_AfterDispense'', f32_one_fifth), (''washBetween'', BetweenInjections),
      (''washVolume'', 500), (''washNeedleBeforeInj'', 1), (''washNeedleAfterInj'', 0),
      (''washInjportBeforeInj'', 0), (''washInjportAfterInj'', 1), (''microPumpTime'', 2),
      (''airSegment'', 1), (''airSegmentVol'', f32_five)] (memset0 (Str LCAS_RUN_SETUP_t))"

text \<open>A member object or array element is written through its own layout at its place.\<close>

definition put_sub :: "nat \<Rightarrow> layout \<Rightarrow> (string \<times> nat) list \<Rightarrow> byte_seq \<Rightarrow> byte_seq option" where
  "put_sub p l fs m =
     Option.bind (mem_read p (c_size (Str l)) m) (\<lambda>o1.
     Option.bind (put_fields l fs o1) (\<lambda>o2. mem_write p o2 m))"

definition AUX_EVENT_Init :: "nat \<Rightarrow> byte_seq \<Rightarrow> byte_seq option" where
  "AUX_EVENT_Init p = put_sub p AUX_EVENT_t [(''fTime'', f32_minus_one), (''auxOnoff'', 0)]"

fun init_aux_events :: "nat \<Rightarrow> nat \<Rightarrow> byte_seq \<Rightarrow> byte_seq option" where
  "init_aux_events p 0 m = Some m"
| "init_aux_events p (Suc n) m =
     Option.bind (AUX_EVENT_Init p m) (init_aux_events (p + c_size (Str AUX_EVENT_t)) n)"

definition LCAS_TIME_EVENT_Init :: "byte_seq \<Rightarrow> byte_seq option" where
  "LCAS_TIME_EVENT_Init m = (case member LCAS_TIME_EVENT_t ''auxEvent'' of None \<Rightarrow> None
     | Some (p, _) \<Rightarrow> Option.bind (put_fields LCAS_TIME_EVENT_t
         [(''useAuxTimeEvent'', 0), (''initAux'', 0), (''endTime'', 0), (''auxOutSigTime'', 0)] m)
         (init_aux_events p AUX_TABLE_COUNT))"

definition LCAS_MIX_TABLE_ctor :: "byte_seq \<Rightarrow> byte_seq option" where
  "LCAS_MIX_TABLE_ctor _ = Some (memset0 (Str LCAS_MIX_TABLE_t))"

definition LCAS_MIX_Init :: "byte_seq \<Rightarrow> byte_seq option" where
  "LCAS_MIX_Init m = put_fields LCAS_MIX_t
     [(''useMixPrgm'', 0), (''relativeDestination'', 0), (''relativeReagentA'', 0),
      (''relativeReagentB'', 0), (''relativeReagentC'', 0), (''relativeReagentD'', 0)] m"

definition LCAS_STATE_ctor :: "byte_seq \<Rightarrow> byte_seq option" where
  "LCAS_STATE_ctor _ = Some (memset0 (Str LCAS_STATE_t))"

definition LCAS_COMMAND_ctor :: "command \<Rightarrow> u8 \<Rightarrow> u8 \<Rightarrow> byte_seq \<Rightarrow> byte_seq option" where
  "LCAS_COMMAND_ctor com sub1 sub2 = put_fields LCAS_COMMAND_t
     [(''btCommand'', command_code com), (''btSubCommand1'', unat sub1), (''btSubCommand2'', unat sub2),
      (''dummy'', 0)]"

definition LCAS_SERVICE_ctor :: "lcas_service \<Rightarrow> u8 \<Rightarrow> u8 \<Rightarrow> u32 \<Rightarrow> byte_seq \<Rightarrow> byte_seq option" where
  "LCAS_SERVICE_ctor svr sub1 sub2 v = put_fields LCAS_SERVICE_t
     [(''command'', service_code svr), (''subCommand1'', unat sub1), (''subCommand2'', unat sub2),
      (''value'', unat v)]"

text \<open>\<open>- 1\<close> in an \<open>unsigned char\<close> is 255.\<close>

definition LCAS_DIAG_DATA_ctor :: "byte_seq \<Rightarrow> byte_seq option" where
  "LCAS_DIAG_DATA_ctor _ = put_fields LCAS_DIAG_DATA_t
     [(''N5Dcheck'', 255), (''V5Dcheck'', 255), (''V1_5Dcheck'', 255), (''V12Dcheck'', 255),
      (''V2_5Dcheck'', 255), (''V3_3Dcheck'', 255), (''Tempcheck'', 255), (''btHeaterTest'', 255),
      (''btCoolerTest'', 255), (''btLeakTest1'', 255), (''btLeakTest2'', 255), (''btTempSensor'', 255)]
     (memset0 (Str LCAS_DIAG_DATA_t))"

definition LCAS_SPECIAL_ctor :: "byte_seq \<Rightarrow> byte_seq option" where
  "LCAS_SPECIAL_ctor _ = put_fields LCAS_SPECIAL_t [(''Leak_check'', 1)] (memset0 (Str LCAS_SPECIAL_t))"

section \<open>Text members of the system information\<close>

text \<open>
  \<open>CString(char*)\<close>: the characters up to the first zero byte from the member's address on;
  \<open>None\<close> when there is none before the end of the object.
\<close>

definition c_string_at :: "nat \<Rightarrow> byte_seq \<Rightarrow> byte_seq option" where
  "c_string_at p m = (if 0 \<in> set (drop p m) then Some (takeWhile (\<lambda>b. b \<noteq> 0) (drop p m)) else None)"

definition is_space :: "u8 \<Rightarrow> bool" where
  "is_space b \<longleftrightarrow> b = 32 \<or> (9 \<le> b \<and> b \<le> 13)"

definition trim :: "byte_seq \<Rightarrow> byte_seq" where
  "trim s = rev (dropWhile is_space (rev (dropWhile is_space s)))"

definition member_string :: "string \<Rightarrow> byte_seq \<Rightarrow> byte_seq option" where
  "member_string f m = (case member SYSTEM_INFORM_t f of None \<Rightarrow> None | Some (p, _) \<Rightarrow> c_string_at p m)"

definition GetModel :: "byte_seq \<Rightarrow> byte_seq option" where
  "GetModel m = map_option trim (member_string ''cModel'' m)"

definition GetVersion :: "byte_seq \<Rightarrow> byte_seq option" where
  "GetVersion m = map_option trim (member_string ''cVersion'' m)"

definition GetSerialNumber :: "byte_seq \<Rightarrow> byte_seq option" where
  "GetSerialNumber m = (case member SYSTEM_INFORM_t ''cSerialNo'' of None \<Rightarrow> None
     | Some (p, t) \<Rightarrow> Option.bind (mem_read p (c_size t) m) (\<lambda>s. c_string_at 0 (s @ [0])))"

section \<open>Properties\<close>

lemmas layout_eval = layouts round_up_def member_def Let_def

lemma SYSTEM_CONFIG_members:
  "members_from 0 SYSTEM_CONFIG_t =
    [(''trayCooling'', 0, U32), (''sampleLoopVol'', 4, U32), (''syringeVol'', 8, U32),
     (''needleTubeVol'', 12, U32), (''trayLeft'', 16, U32), (''trayRight'', 20, U32),
     (''processType'', 24, U32), (''syringeUpSpdWash'', 28, U32), (''syringeDnSpdWash'', 32, U32),
     (''injectMarkerTime'', 36, U32), (''startInSigTime'', 40, U32), (''useMicroPump'', 44, U8)]"
  by (simp add: SYSTEM_CONFIG_t_def round_up_def Let_def)

lemma LCAS_RUN_SETUP_members:
  "members_from 0 LCAS_RUN_SETUP_t =
    [(''tempOnoff'', 0, U8), (''temp'', 4, U32), (''injectionStart'', 8, U8),
     (''injectionMode'', 9, U8), (''analysisTime'', 12, F32), (''flushEnable'', 16, U8),
     (''flushVolume'', 20, F32), (''injectionVolume'', 24, F32), (''washBetween'', 28, U8),
     (''washVolume'', 32, U32), (''washNeedleBeforeInj'', 36, U8),
     (''washNeedleAfterInj'', 37, U8), (''washInjportBeforeInj'', 38, U8),
     (''washInjportAfterInj'', 39, U8), (''syringeUpSpdInj'', 40, U8),
     (''syringeDnSpdInj'', 41, U8), (''needleHeight'', 44, F32),
     (''waitTime_AfterAspirate'', 48, F32), (''waitTime_AfterDispense'', 52, F32),
     (''skipMissingSample'', 56, U8), (''airSegment'', 57, U8), (''airSegmentVol'', 60, F32),
     (''microPumpTime'', 64, U8), (''reserved1'', 65, U8), (''reserved2'', 66, U8),
     (''reserved3'', 67, U8)]"
  by (simp add: LCAS_RUN_SETUP_t_def round_up_def Let_def)

text \<open>The structures have the sizes the protocol relies on: a packet header of 24 bytes, and for the
  mixing program the sizes the source states in a comment (428 bytes, 20 per table row, 400 for
  the table), so that \<open>SizeExcludeTable\<close> is 28.\<close>

theorem struct_sizes:
  "c_size (Str CHROZEN_PACKET_t) = 24 \<and> c_size (Str LCAS_MIX_t) = 428
   \<and> c_size (Str LCAS_MIX_TABLE_t) = 20 \<and> c_size (Arr MIX_TABLE_COUNT (Str LCAS_MIX_TABLE_t)) = 400
   \<and> LCAS_MIX_SizeExcludeTable = 28 \<and> c_size (Str SYSTEM_INFORM_t) = 88
   \<and> c_size (Str SYSTEM_CONFIG_t) = 48 \<and> c_size (Str LCAS_RUN_SETUP_t) = 68
   \<and> c_size (Str LCAS_TIME_EVENT_t) = 172 \<and> c_size (Str LCAS_STATE_t) = 24
   \<and> c_size (Str LCAS_COMMAND_t) = 4 \<and> c_size (Str LCAS_SERVICE_t) = 8
   \<and> c_size (Str LCAS_SEQUENCE_t) = 12 \<and> c_size (Str LCAS_SELFMSG_t) = 4
   \<and> c_size (Str LCAS_DIAG_DATA_t) = 40 \<and> c_size (Str LCAS_SPECIAL_t) = 8"
  by (simp add: layouts round_up_def LCAS_MIX_SizeExcludeTable_def)

text \<open>The constructor of the system configuration gives every setting its documented default, and
  every setting it does not name is zero.\<close>

theorem SYSTEM_CONFIG_defaults:
  "\<exists>m. SYSTEM_CONFIG_ctor u = Some m \<and> length m = 48
   \<and> map (\<lambda>f. get_field SYSTEM_CONFIG_t f m)
       [''sampleLoopVol'', ''needleTubeVol'', ''processType'', ''syringeUpSpdWash'', ''syringeDnSpdWash'',
        ''injectMarkerTime'', ''syringeVol'', ''trayCooling'', ''trayLeft'', ''trayRight'',
        ''startInSigTime'', ''useMicroPump'']
     = map Some [20, 250, 1, 6, 6, 1, 1, 0, 0, 0, 0, 0]"
proof -
  let ?fs = "[(''sampleLoopVol'', 20), (''needleTubeVol'', 250), (''processType'', unat ColumnFirst),
      (''syringeUpSpdWash'', 6), (''syringeDnSpdWash'', 6), (''injectMarkerTime'', Pulse100ms),
      (''syringeVol'', 1)] :: (string \<times> nat) list"
  let ?names = "[''sampleLoopVol'', ''needleTubeVol'', ''processType'', ''syringeUpSpdWash'',
      ''syringeDnSpdWash'', ''injectMarkerTime'', ''syringeVol'', ''trayCooling'', ''trayLeft'',
      ''trayRight'', ''startInSigTime'', ''useMicroPump'']"
  have "\<forall>(f, v) \<in> set ?fs. case member SYSTEM_CONFIG_t f of None \<Rightarrow> False | Some (q, t) \<Rightarrow> v < 256 ^ c_size t"
    by (simp add: member_def SYSTEM_CONFIG_members ColumnFirst_def Pulse100ms_def)
  moreover have "set ?names \<subseteq> fst ` set SYSTEM_CONFIG_t" by (simp add: SYSTEM_CONFIG_t_def)
  ultimately obtain m where
    m: "put_fields SYSTEM_CONFIG_t ?fs (memset0 (Str SYSTEM_CONFIG_t)) = Some m"
      "length m = c_size (Str SYSTEM_CONFIG_t)"
    and get: "map (\<lambda>f. get_field SYSTEM_CONFIG_t f m) ?names =
        map (\<lambda>f. Some (case map_of ?fs f of None \<Rightarrow> 0 | Some v \<Rightarrow> v)) ?names"
    using init_fields_map [of ?fs SYSTEM_CONFIG_t ?names] by auto
  have "length m = 48" using m(2) by (simp add: layouts round_up_def)
  moreover have "map (\<lambda>f. Some (case map_of ?fs f of None \<Rightarrow> 0 | Some v \<Rightarrow> v)) ?names =
      map Some [20, 250, 1, 6, 6, 1, 1, 0, 0, 0, 0, 0]"
    by (simp add: ColumnFirst_def Pulse100ms_def)
  ultimately show ?thesis
    using m(1) get unfolding SYSTEM_CONFIG_ctor_def by metis
qed

text \<open>The constructor of the run settings initialises nothing: its body declares \<open>Init\<close> instead of
  calling it. Whatever bytes the object's memory held stay, for example a wash volume of
  0xCDCDCDCD, where \<open>Init\<close> would give the defaults.\<close>

theorem RUN_SETUP_uninitialised:
  "LCAS_RUN_SETUP_ctor m = Some m
   \<and> get_field LCAS_RUN_SETUP_t ''washVolume'' (replicate 68 0xCD) = Some 0xCDCDCDCD
   \<and> (\<exists>d. LCAS_RUN_SETUP_Init m = Some d
        \<and> map (\<lambda>f. get_field LCAS_RUN_SETUP_t f d)
            [''injectionMode'', ''temp'', ''flushEnable'', ''flushVolume'', ''washVolume'', ''microPumpTime'',
             ''tempOnoff'', ''analysisTime'', ''reserved3'']
          = map Some [1, 4, 1, f32_ten, 500, 2, 0, 0, 0])"
proof -
  let ?fs = "[(''injectionMode'', PartialLoop), (''temp'', 4), (''flushEnable'', 1), (''flushVolume'', f32_ten),
      (''syringeUpSpdInj'', 6), (''syringeDnSpdInj'', 3), (''needleHeight'', f32_two),
      (''skipMissingSample'', 1), (''waitTime_AfterAspirate'', f32_one_fifth),
      (''waitTime_AfterDispense'', f32_one_fifth), (''washBetween'', BetweenInjections),
      (''washVolume'', 500), (''washNeedleBeforeInj'', 1), (''washNeedleAfterInj'', 0),
      (''washInjportBeforeInj'', 0), (''washInjportAfterInj'', 1), (''microPumpTime'', 2),
      (''airSegment'', 1), (''airSegmentVol'', f32_five)] :: (string \<times> nat) list"
  let ?names = "[''injectionMode'', ''temp'', ''flushEnable'', ''flushVolume'', ''washVolume'',
      ''microPumpTime'', ''tempOnoff'', ''analysisTime'', ''reserved3'']"
  have "\<forall>(f, v) \<in> set ?fs. case member LCAS_RUN_SETUP_t f of None \<Rightarrow> False | Some (q, t) \<Rightarrow> v < 256 ^ c_size t"
    by (simp add: member_def LCAS_RUN_SETUP_members PartialLoop_def BetweenInjections_def f32_ten_def f32_two_def f32_five_def
        f32_one_fifth_def)
  moreover have "set ?names \<subseteq> fst ` set LCAS_RUN_SETUP_t" by (simp add: LCAS_RUN_SETUP_t_def)
  ultimately obtain d where
    d: "put_fields LCAS_RUN_SETUP_t ?fs (memset0 (Str LCAS_RUN_SETUP_t)) = Some d"
    and get: "map (\<lambda>f. get_field LCAS_RUN_SETUP_t f d) ?names =
        map (\<lambda>f. Some (case map_of ?fs f of None \<Rightarrow> 0 | Some v \<Rightarrow> v)) ?names"
    using init_fields_map [of ?fs LCAS_RUN_SETUP_t ?names] by auto
  have "get_field LCAS_RUN_SETUP_t ''washVolume'' (replicate 68 0xCD) = Some 0xCDCDCDCD"
  proof -
    have "member LCAS_RUN_SETUP_t ''washVolume'' = Some (32, U32)"
      by (simp add: member_def LCAS_RUN_SETUP_members)
    moreover have "replicate 4 (0xCD :: u8) = [0xCD, 0xCD, 0xCD, 0xCD]" by (simp add: eval_nat_numeral)
    ultimately show ?thesis by (simp add: get_field_def mem_read_def)
  qed
  moreover have "map (\<lambda>f. Some (case map_of ?fs f of None \<Rightarrow> 0 | Some v \<Rightarrow> v)) ?names =
      map Some [1, 4, 1, f32_ten, 500, 2, 0, 0, 0]"
    by (simp add: PartialLoop_def)
  ultimately show ?thesis
    using d get unfolding LCAS_RUN_SETUP_ctor_def LCAS_RUN_SETUP_Init_def by metis
qed

end
