(* ===== verification/Packet_Config.thy ===== *)
theory Packet_Config
  imports Packet_Data
begin

text \<open>
  \<open>PacketConfig\<close> (\<open>network/PacketConfig.h\<close>): reading, building, recognising and applying the
  packets of the auto sampler protocol in byte buffers. \<open>None\<close> is an access outside the buffer
  or the data structure. Sizes are computed as on a 64-bit build, where \<open>size_t\<close> has 64 bits.
\<close>

section \<open>Header fields\<close>

definition rd32 :: "nat \<Rightarrow> byte_seq \<Rightarrow> u32 option" where
  "rd32 p m = map_option (\<lambda>bs. of_nat (le_value bs)) (mem_read p 4 m)"

definition wr32 :: "nat \<Rightarrow> u32 \<Rightarrow> byte_seq \<Rightarrow> byte_seq option" where
  "wr32 p v m = mem_write p (le_bytes 4 (unat v)) m"

definition sizeof_packet :: nat where
  "sizeof_packet = c_size (Str CHROZEN_PACKET_t)"

definition GetPacketLength :: "byte_seq \<Rightarrow> u32 option" where
  "GetPacketLength m = rd32 0 m"

definition GetDeviceId :: "byte_seq \<Rightarrow> u32 option" where
  "GetDeviceId m = rd32 4 m"

definition GetPacketCode :: "byte_seq \<Rightarrow> u32 option" where
  "GetPacketCode m = rd32 (4 + 4) m"

definition GetSlotOffset :: "byte_seq \<Rightarrow> u32 option" where
  "GetSlotOffset m = rd32 (4 + 4 + 4 + 4) m"

definition GetSlotSize :: "byte_seq \<Rightarrow> u32 option" where
  "GetSlotSize m = rd32 (4 + 4 + 4 + 4 + 4) m"

definition GetPacket_code :: "byte_seq \<Rightarrow> u32 \<Rightarrow> byte_seq option" where
  "GetPacket_code m code = wr32 8 code m"

definition all_codes :: "packet_code list" where
  "all_codes = [SYSTEM_INFORM, SYSTEM_CONFIG, RUN_SETUP, TIME_EVENT, MIX_SETUP, SEQUENCE, COMMAND,
     STATE, SLFEMSG, SERVICE, ADJUST_DATA, DIAG_DATA, USED_TIME, UPDATE, SPECIAL]"

definition known_code :: "u32 \<Rightarrow> bool" where
  "known_code c \<longleftrightarrow> list_ex (\<lambda>k. PACKCODE k = c) all_codes"

definition IsIncludePacketCode :: "byte_seq \<Rightarrow> bool option" where
  "IsIncludePacketCode m = map_option known_code (GetPacketCode m)"

section \<open>Building and recognising packets\<close>

text \<open>
  The entry is the part of \<open>full_data\<close> of \<open>sz\<close> bytes at \<open>off\<close>. The header is written in the
  order of the code; the length twice for a response.
\<close>

definition MakePacket :: "byte_seq \<Rightarrow> byte_seq \<Rightarrow> nat \<Rightarrow> nat \<Rightarrow> int \<Rightarrow> byte_seq option" where
  "MakePacket m full off sz request =
     Option.bind (mem_read off sz full) (\<lambda>entry.
     Option.bind (wr32 0 (of_nat sizeof_packet) m) (\<lambda>m1.
     Option.bind (wr32 16 (of_nat off) m1) (\<lambda>m2.
     Option.bind (wr32 20 (of_nat sz) m2) (\<lambda>m3.
     if request = 0 then
       Option.bind (wr32 0 (of_nat sizeof_packet + of_nat sz) m3) (mem_write sizeof_packet entry)
     else Some m3))))"

text \<open>\<open>slot_size\<close> is an \<open>int\<close> added to a \<open>size_t\<close>: sign extended to 64 bits.\<close>

definition IsRequestPacket :: "byte_seq \<Rightarrow> bool option" where
  "IsRequestPacket m =
     Option.bind (GetPacketLength m) (\<lambda>len.
     Option.bind (GetSlotSize m) (\<lambda>slot.
       let slot_size = (if slot = 0 then 1 else sint slot) in
       Some ((ucast len :: u64) < of_nat sizeof_packet + word_of_int slot_size)))"

definition IsValidPacket :: "byte_seq \<Rightarrow> nat \<Rightarrow> bool option" where
  "IsValidPacket m full_size =
     Option.bind (GetSlotOffset m) (\<lambda>off.
     Option.bind (GetSlotSize m) (\<lambda>slot.
       Some (to_int32 (int full_size) = sint (off + slot))))"

text \<open>
  \<open>&full_data + nSlotOffset\<close> advances by whole objects: the place of the slot is the offset
  times the size of the structure. The result is the packet, the data and \<open>response\<close>.
\<close>

definition slot_place :: "u32 \<Rightarrow> byte_seq \<Rightarrow> nat" where
  "slot_place off full = unat off * length full"

definition ApplyPacket :: "byte_seq \<Rightarrow> byte_seq \<Rightarrow> (byte_seq \<times> byte_seq \<times> int) option" where
  "ApplyPacket m full =
     Option.bind (IsRequestPacket m) (\<lambda>request.
     Option.bind (GetSlotOffset m) (\<lambda>off.
     Option.bind (GetSlotSize m) (\<lambda>slot.
     if request then
       Option.bind (wr32 0 (of_nat sizeof_packet + slot) m) (\<lambda>m1.
       Option.bind (mem_read (slot_place off full) (unat slot) full) (\<lambda>bs.
       Option.bind (mem_write sizeof_packet bs m1) (\<lambda>m2. Some (m2, full, 1))))
     else
       Option.bind (mem_read sizeof_packet (unat slot) m) (\<lambda>bs.
       Option.bind (mem_write (slot_place off full) bs full) (\<lambda>full'. Some (m, full', 0))))))"

text \<open>
  \<open>FindPacket\<close>: the offset of the first frame among \<open>0, \<dots>, len - 9\<close>; \<open>None\<close> inside is \<open>nullptr\<close>.
\<close>

definition device_matches :: "int \<Rightarrow> u32 \<Rightarrow> bool" where
  "device_matches device_id d \<longleftrightarrow> device_id = - 1 \<or> device_id = sint d \<or> sint d = 0"

fun find_packet :: "byte_seq \<Rightarrow> int \<Rightarrow> nat list \<Rightarrow> nat option option" where
  "find_packet m device_id [] = Some None"
| "find_packet m device_id (i # is) =
     Option.bind (IsIncludePacketCode (drop i m)) (\<lambda>known.
     if known then
       Option.bind (GetDeviceId (drop i m)) (\<lambda>d.
       if device_matches device_id d then Some (Some i) else find_packet m device_id is)
     else find_packet m device_id is)"

definition FindPacket :: "byte_seq \<Rightarrow> int \<Rightarrow> int \<Rightarrow> nat option option" where
  "FindPacket m len device_id = find_packet m device_id [0..<nat (len - 8)]"

section \<open>Lemmas\<close>

lemma sizeof_packet [simp]: "sizeof_packet = 24"
  by (simp add: sizeof_packet_def CHROZEN_PACKET_t_def round_up_def)

lemma unat_u32: "unat (v :: u32) < 256 ^ 4"
  using unsigned_less [of v, where 'a = nat] by simp

lemma rd32_wr32:
  assumes "wr32 p v m = Some m'"
  shows "rd32 p m' = Some v"
proof -
  have "mem_read p 4 m' = Some (le_bytes 4 (unat v))"
    using mem_read_write [of p "le_bytes 4 (unat v)" m m'] assms by (simp add: wr32_def)
  then show ?thesis using unat_u32 [of v] by (simp add: rd32_def)
qed

lemma rd32_other:
  assumes "wr32 p v m = Some m'" and "q + 4 \<le> p \<or> p + 4 \<le> q"
  shows "rd32 q m' = rd32 q m"
  using mem_read_other [of p "le_bytes 4 (unat v)" m m' q 4] assms by (simp add: wr32_def rd32_def)

lemma rd32_write_other:
  assumes "mem_write p bs m = Some m'" and "q + 4 \<le> p \<or> p + length bs \<le> q"
  shows "rd32 q m' = rd32 q m"
  using mem_read_other [OF assms] by (simp add: rd32_def)

lemma wr32_total: "p + 4 \<le> length m \<Longrightarrow> \<exists>m'. wr32 p v m = Some m' \<and> length m' = length m"
  by (simp add: wr32_def mem_write_def)

lemma wr32_length: "wr32 p v m = Some m' \<Longrightarrow> length m' = length m"
  unfolding wr32_def by (rule mem_write_length)

lemma rd32_total: "p + 4 \<le> length m \<Longrightarrow> \<exists>v. rd32 p m = Some v"
  by (simp add: rd32_def mem_read_def)

lemmas header_defs = GetPacketLength_def GetDeviceId_def GetPacketCode_def GetSlotOffset_def GetSlotSize_def

text \<open>A built packet: its header and, in a response, its slot.\<close>

definition packet_has :: "byte_seq \<Rightarrow> u32 \<Rightarrow> u32 \<Rightarrow> u32 \<Rightarrow> bool" where
  "packet_has m len off slot \<longleftrightarrow>
     GetPacketLength m = Some len \<and> GetSlotOffset m = Some off \<and> GetSlotSize m = Some slot"

lemma MakePacket_response:
  assumes "mem_read off n full = Some entry" and "24 + n \<le> length m"
  shows "\<exists>p. MakePacket m full off n 0 = Some p \<and> length p = length m
    \<and> packet_has p (24 + of_nat n) (of_nat off) (of_nat n) \<and> mem_read 24 n p = Some entry
    \<and> GetDeviceId p = GetDeviceId m \<and> GetPacketCode p = GetPacketCode m"
proof -
  have le: "length entry = n" using assms(1) by (auto simp: mem_read_def split: if_splits)
  obtain m1 where m1: "wr32 0 24 m = Some m1" "length m1 = length m"
    using wr32_total [of 0 m 24] assms(2) by auto
  obtain m2 where m2: "wr32 16 (of_nat off) m1 = Some m2" "length m2 = length m"
    using wr32_total [of 16 m1 "of_nat off"] assms(2) m1 by auto
  obtain m3 where m3: "wr32 20 (of_nat n) m2 = Some m3" "length m3 = length m"
    using wr32_total [of 20 m2 "of_nat n"] assms(2) m2 by auto
  obtain m4 where m4: "wr32 0 (24 + of_nat n) m3 = Some m4" "length m4 = length m"
    using wr32_total [of 0 m3 "24 + of_nat n"] assms(2) m3 by auto
  obtain p where p: "mem_write 24 entry m4 = Some p" using assms(2) m4 le by (simp add: mem_write_def)
  have run: "MakePacket m full off n 0 = Some p"
    using assms(1) m1 m2 m3 m4 p by (simp add: MakePacket_def)
  have len: "rd32 0 p = Some (24 + of_nat n)"
    using rd32_write_other [OF p, of 0] rd32_wr32 [OF m4(1)] by simp
  have off: "rd32 16 p = Some (of_nat off)"
    using rd32_write_other [OF p, of 16] rd32_other [OF m4(1), of 16] rd32_other [OF m3(1), of 16]
      rd32_wr32 [OF m2(1)] by simp
  have slot: "rd32 20 p = Some (of_nat n)"
    using rd32_write_other [OF p, of 20] rd32_other [OF m4(1), of 20] rd32_wr32 [OF m3(1)] by simp
  have same: "rd32 q p = rd32 q m" if "q = 4 \<or> q = 8" for q
    using that rd32_write_other [OF p, of q] rd32_other [OF m4(1), of q] rd32_other [OF m3(1), of q]
      rd32_other [OF m2(1), of q] rd32_other [OF m1(1), of q] by auto
  have "mem_read 24 n p = Some entry" using mem_read_write [OF p] le by simp
  with run len off slot same m4 mem_write_length [OF p] show ?thesis
    by (simp add: packet_has_def header_defs)
qed

lemma MakePacket_request:
  assumes "mem_read off n full = Some entry" and "24 \<le> length m"
  shows "\<exists>p. MakePacket m full off n 1 = Some p \<and> length p = length m
    \<and> packet_has p 24 (of_nat off) (of_nat n)"
proof -
  obtain m1 where m1: "wr32 0 24 m = Some m1" "length m1 = length m"
    using wr32_total [of 0 m 24] assms(2) by auto
  obtain m2 where m2: "wr32 16 (of_nat off) m1 = Some m2" "length m2 = length m"
    using wr32_total [of 16 m1 "of_nat off"] assms(2) m1 by auto
  obtain m3 where m3: "wr32 20 (of_nat n) m2 = Some m3" "length m3 = length m"
    using wr32_total [of 20 m2 "of_nat n"] assms(2) m2 by auto
  have "rd32 0 m3 = Some 24"
    using rd32_other [OF m3(1), of 0] rd32_other [OF m2(1), of 0] rd32_wr32 [OF m1(1)] by simp
  moreover have "rd32 16 m3 = Some (of_nat off)"
    using rd32_other [OF m3(1), of 16] rd32_wr32 [OF m2(1)] by simp
  moreover have "rd32 20 m3 = Some (of_nat n)" by (rule rd32_wr32 [OF m3(1)])
  moreover have "MakePacket m full off n 1 = Some m3"
    using assms(1) m1 m2 m3 by (simp add: MakePacket_def)
  ultimately show ?thesis using m3(2) by (simp add: packet_has_def header_defs)
qed

text \<open>\<open>IsRequestPacket\<close> as arithmetic on naturals.\<close>

definition request_bound :: "nat \<Rightarrow> nat" where
  "request_bound n = (if n = 0 then 25 else if n < 2 ^ 31 then 24 + n
     else if n < 2 ^ 32 - 24 then 2 ^ 64 - 2 ^ 32 + 24 + n else n + 24 - 2 ^ 32)"

lemma uint_request_sum:
  "uint (24 + word_of_int (if slot = 0 then 1 else sint (slot :: u32)) :: u64) =
   int (request_bound (unat slot))"
proof -
  define n where "n = unat slot"
  have u: "uint slot = int n" by (simp add: n_def)
  have lt: "n < 4294967296" using unsigned_less [of slot, where 'a = nat] by (simp add: n_def)
  have z: "slot = 0 \<longleftrightarrow> n = 0" by (simp add: n_def unat_eq_zero)
  have s: "sint slot = (if n < 2147483648 then int n else int n - 4294967296)" by (simp add: sint_u32 u)
  consider "n = 0" | "n \<noteq> 0" "n < 2147483648" | "2147483648 \<le> n" "n < 4294967272" | "4294967272 \<le> n"
    by linarith
  then have "(24 + (if n = 0 then 1 else sint slot)) mod 2 ^ 64 = int (request_bound n)"
  proof cases
    case 1
    then show ?thesis by (simp add: request_bound_def)
  next
    case 2
    then have "(24 + int n) mod 2 ^ 64 = 24 + int n" by (intro mod_pos_pos_trivial) simp_all
    with 2 show ?thesis by (simp add: request_bound_def s)
  next
    case 3
    have "(24 + (int n - 4294967296)) mod 2 ^ 64 = ((24 + (int n - 4294967296)) + 2 ^ 64) mod 2 ^ 64"
      by (rule mod_add_self2 [symmetric])
    also have "\<dots> = 24 + (int n - 4294967296) + 2 ^ 64"
      using 3 by (intro mod_pos_pos_trivial) simp_all
    finally show ?thesis using 3 by (simp add: request_bound_def s)
  next
    case 4
    then have "(24 + (int n - 4294967296)) mod 2 ^ 64 = 24 + (int n - 4294967296)"
      using lt by (intro mod_pos_pos_trivial) simp_all
    with 4 show ?thesis by (simp add: request_bound_def s of_nat_diff)
  qed
  then show ?thesis by (simp add: uint_sum_u64 z n_def)
qed

lemma IsRequestPacket_eq:
  assumes "packet_has m len off slot"
  shows "IsRequestPacket m = Some (unat len < request_bound (unat slot))"
proof -
  let ?e = "if slot = 0 then 1 else sint slot"
  have "(ucast len :: u64) < 24 + word_of_int ?e \<longleftrightarrow> uint (ucast len :: u64) < uint (24 + word_of_int ?e :: u64)"
    by (rule word_less_def)
  also have "\<dots> \<longleftrightarrow> uint len < int (request_bound (unat slot))"
    unfolding uint_request_sum by (simp add: uint_up_ucast is_up)
  also have "\<dots> \<longleftrightarrow> unat len < request_bound (unat slot)"
    by (metis of_nat_less_iff uint_nat)
  finally show ?thesis using assms by (simp add: IsRequestPacket_def packet_has_def Let_def)
qed

lemma unat_small: "n < 2147483648 \<Longrightarrow> unat (of_nat n :: u32) = n"
  by (simp add: unat_of_nat)

lemma unat_small_packet: "n < 2147483648 \<Longrightarrow> unat (24 + of_nat n :: u32) = 24 + n"
proof -
  assume "n < 2147483648"
  then have "unat (of_nat (24 + n) :: u32) = 24 + n" by (simp only: unat_of_nat) simp
  then show ?thesis by simp
qed

lemma mem_read_whole [simp]: "length A = n \<Longrightarrow> mem_read 0 n A = Some A"
  by (simp add: mem_read_def)

lemma mem_write_whole [simp]: "length A = length B \<Longrightarrow> mem_write 0 A B = Some A"
  by (simp add: mem_write_def)

lemma apply_response:
  assumes "packet_has p (24 + of_nat n) 0 (of_nat n)" and "mem_read 24 n p = Some A"
    and "length A = n" "length B = n" "0 < n" "n < 2147483648"
  shows "ApplyPacket p B = Some (p, A, 0)"
proof -
  have "IsRequestPacket p = Some False"
    using IsRequestPacket_eq [OF assms(1)] assms(5,6) unat_small [OF assms(6)] unat_small_packet [OF assms(6)]
    by (simp add: request_bound_def)
  with assms show ?thesis by (simp add: ApplyPacket_def packet_has_def slot_place_def unat_small)
qed

lemma apply_request:
  assumes "packet_has q 24 0 (of_nat n)" and "24 + n \<le> length q" and "length A = n" "0 < n" "n < 2147483648"
  shows "\<exists>p. ApplyPacket q A = Some (p, A, 1)
    \<and> Option.bind (wr32 0 (24 + of_nat n) q) (mem_write 24 A) = Some p"
proof -
  have req: "IsRequestPacket q = Some True"
    using IsRequestPacket_eq [OF assms(1)] assms(4,5) unat_small [OF assms(5)] by (simp add: request_bound_def)
  obtain q1 where q1: "wr32 0 (24 + of_nat n) q = Some q1" "length q1 = length q"
    using wr32_total [of 0 q "24 + of_nat n"] assms(2) by auto
  obtain p where p: "mem_write 24 A q1 = Some p" using assms(2,3) q1 by (simp add: mem_write_def)
  have "ApplyPacket q A = Some (p, A, 1)"
    using req q1 p assms by (simp add: ApplyPacket_def packet_has_def slot_place_def unat_small)
  with q1(1) p show ?thesis by simp
qed

text \<open>A response is what a request for the same slot becomes when its length and its slot are filled in.\<close>

lemma response_of_request:
  assumes "length A = n" and "length B = n" and "MakePacket m B 0 n 1 = Some q"
  shows "MakePacket m A 0 n 0 = Option.bind (wr32 0 (24 + of_nat n) q) (mem_write 24 A)"
  using assms by (simp add: MakePacket_def bind_eq_Some_conv) auto

section \<open>Properties\<close>

text \<open>\<open>IsRequestPacket\<close> tells requests from responses by the length: for a slot of 1 to 2^31 - 1
  bytes a packet is a request exactly if it is shorter than header plus slot, and an empty slot
  counts as one byte. Beyond that the \<open>int\<close> conversion shows: a slot size from 2^31 to 2^32 - 25
  always makes a request, larger ones practically never.\<close>

theorem IsRequestPacket_spec:
  assumes "24 \<le> length m"
  shows "\<exists>len off slot. GetPacketLength m = Some len \<and> GetSlotOffset m = Some off \<and> GetSlotSize m = Some slot
    \<and> IsRequestPacket m = Some
        (if slot = 0 then unat len < 25
         else if unat slot < 2 ^ 31 then unat len < 24 + unat slot
         else if unat slot < 2 ^ 32 - 24 then True
         else unat len < unat slot + 24 - 2 ^ 32)"
proof -
  from assms obtain len off slot where h: "packet_has m len off slot"
    using rd32_total [of 0 m] rd32_total [of 16 m] rd32_total [of 20 m]
    by (auto simp: packet_has_def header_defs)
  have "unat len < 4294967296" using unsigned_less [of len, where 'a = nat] by simp
  with IsRequestPacket_eq [OF h] have "IsRequestPacket m = Some
      (if slot = 0 then unat len < 25 else if unat slot < 2 ^ 31 then unat len < 24 + unat slot
       else if unat slot < 2 ^ 32 - 24 then True else unat len < unat slot + 24 - 2 ^ 32)"
    by (simp add: request_bound_def unat_eq_zero)
  with h show ?thesis by (auto simp: packet_has_def)
qed

theorem IsRequestPacket_spec_witness:
  "\<exists>len off slot. GetPacketLength (replicate 24 0) = Some len \<and> GetSlotOffset (replicate 24 0) = Some off
    \<and> GetSlotSize (replicate 24 0) = Some slot"
  using IsRequestPacket_spec [of "replicate 24 0"] by auto

text \<open>C21: The protocol transfers a structure intact. A response that carries all of \<open>A\<close> has the length
  of header and slot, offset 0, the slot's size, the caller's device and code and the bytes of \<open>A\<close>;
  applied, it replaces the receiver's structure \<open>B\<close> by \<open>A\<close> and is left as it was. A request applied
  to \<open>A\<close> leaves \<open>A\<close> as it was and becomes, byte for byte, that response.\<close>

theorem packet_exchange:
  assumes "length A = n" and "length B = n" and "0 < n" and "n < 2 ^ 31" and "24 + n \<le> length m"
  shows "\<exists>p q. MakePacket m A 0 n 0 = Some p
    \<and> packet_has p (24 + of_nat n) 0 (of_nat n) \<and> mem_read 24 n p = Some A
    \<and> GetDeviceId p = GetDeviceId m \<and> GetPacketCode p = GetPacketCode m
    \<and> ApplyPacket p B = Some (p, A, 0)
    \<and> MakePacket m B 0 n 1 = Some q
    \<and> ApplyPacket q A = Some (p, A, 1)"
proof -
  have n: "n < 2147483648" using assms(4) by simp
  obtain p where p: "MakePacket m A 0 n 0 = Some p" "packet_has p (24 + of_nat n) 0 (of_nat n)"
    "mem_read 24 n p = Some A" "GetDeviceId p = GetDeviceId m" "GetPacketCode p = GetPacketCode m"
    using MakePacket_response [of 0 n A A m] assms by auto
  obtain q where q: "MakePacket m B 0 n 1 = Some q" "packet_has q 24 0 (of_nat n)" "length q = length m"
    using MakePacket_request [of 0 n B B m] assms by auto
  have "24 + n \<le> length q" using q(3) assms(5) by simp
  from apply_request [OF q(2) this assms(1,3) n] response_of_request [OF assms(1,2) q(1)] p(1)
  have "ApplyPacket q A = Some (p, A, 1)" by auto
  with p q(1) apply_response [OF p(2,3) assms(1,2,3) n] show ?thesis by blast
qed

theorem packet_exchange_witness:
  "\<exists>p q. MakePacket (replicate 40 0) [1, 2, 3] 0 3 0 = Some p
     \<and> packet_has p 27 0 3
     \<and> ApplyPacket p [7, 8, 9] = Some (p, [1, 2, 3], 0)
     \<and> MakePacket (replicate 40 0) [7, 8, 9] 0 3 1 = Some q
     \<and> ApplyPacket q [1, 2, 3] = Some (p, [1, 2, 3], 1)"
  using packet_exchange [of "[1, 2, 3]" 3 "[7, 8, 9]" "replicate 40 0"] by auto

text \<open>C34: A packet for a part of a structure that does not start at its beginning is always applied out
  of bounds, although \<open>MakePacket\<close> builds it and \<open>IsValidPacket\<close> accepts it (for the last part):
  the offset is scaled by the size of the structure.\<close>

theorem partial_packet_out_of_bounds:
  assumes "0 < off" and "0 < n" and "off + n \<le> length full" and "length full < 2 ^ 31"
    and "length full' = length full" and "24 + n \<le> length m"
  shows "\<exists>p. MakePacket m full off n 0 = Some p
    \<and> IsValidPacket p (length full) = Some (off + n = length full)
    \<and> ApplyPacket p full' = None"
proof -
  have sm: "n < 2147483648" "off < 2147483648" "off + n < 2147483648" "length full < 2147483648"
    using assms by simp_all
  obtain entry where e: "mem_read off n full = Some entry" "length entry = n"
    using assms(3) by (simp add: mem_read_def)
  obtain p where p: "MakePacket m full off n 0 = Some p" "packet_has p (24 + of_nat n) (of_nat off) (of_nat n)"
    "mem_read 24 n p = Some entry"
    using MakePacket_response [OF e(1) assms(6)] by auto
  have uo: "unat (of_nat off :: u32) = off" by (rule unat_small [OF sm(2)])
  have un: "unat (of_nat n :: u32) = n" by (rule unat_small [OF sm(1)])
  have "off * length full' + n > length full'" using assms(1,2,5) by (cases off) auto
  then have out: "mem_write (off * length full') entry full' = None" by (simp add: mem_write_def e(2))
  have "IsRequestPacket p = Some False"
    using IsRequestPacket_eq [OF p(2)] assms(2) sm(1) un unat_small_packet [OF sm(1)]
    by (simp add: request_bound_def)
  with p(2,3) uo un out have "ApplyPacket p full' = None"
    by (simp add: ApplyPacket_def packet_has_def slot_place_def)
  moreover have "sint (of_nat (off + n) :: u32) = int (off + n)"
  proof -
    have "uint (of_nat (off + n) :: u32) = int (off + n)" 
      using unat_small [OF sm(3)] by (metis uint_nat)
    then show ?thesis using sm(3) by (simp only: sint_u32) simp
  qed
  moreover have "to_int32 (int (length full)) = int (length full)"
  proof -
    have "uint (word_of_int (int (length full)) :: u32) = int (length full)"
      using unat_small [OF sm(4)] by (metis uint_nat of_int_of_nat_eq)
    then show ?thesis using sm(4) by (simp add: to_int32_def sint_u32)
  qed
  ultimately show ?thesis using p(1,2)
    by (auto simp: IsValidPacket_def packet_has_def simp flip: of_nat_add)
qed

theorem partial_packet_out_of_bounds_witness:
  "\<exists>p. MakePacket (replicate 40 0) [1, 2, 3, 4] 2 2 0 = Some p
     \<and> IsValidPacket p 4 = Some True \<and> ApplyPacket p [5, 6, 7, 8] = None"
proof -
  have len: "length [1, 2, 3, 4 :: 8 word] = 4" "length [5, 6, 7, 8 :: 8 word] = 4" by simp_all
  show ?thesis
    using partial_packet_out_of_bounds [of 2 2 "[1, 2, 3, 4]" "[5, 6, 7, 8]" "replicate 40 0"]
    unfolding len length_replicate by simp
qed

section \<open>Finding packets\<close>

text \<open>A frame at \<open>i\<close>: a known code and an accepted device.\<close>

definition frame_at :: "byte_seq \<Rightarrow> int \<Rightarrow> nat \<Rightarrow> bool" where
  "frame_at m device_id i \<longleftrightarrow> (case (rd32 (i + 8) m, rd32 (i + 4) m) of
      (Some c, Some d) \<Rightarrow> known_code c \<and> device_matches device_id d
    | _ \<Rightarrow> False)"

lemma rd32_drop: "rd32 p (drop i m) = rd32 (i + p) m" if "i \<le> length m"
  using that by (simp add: rd32_def mem_read_def add.commute le_diff_conv2 ac_simps)

lemma find_packet_in:
  "\<forall>i \<in> set is. i + 12 \<le> length m \<Longrightarrow> find_packet m d is = Some (find (frame_at m d) is)"
proof (induction m d "is" rule: find_packet.induct)
  case (2 m d i "is")
  then have i: "i + 12 \<le> length m" by simp
  then obtain c e where ce: "rd32 (i + 8) m = Some c" "rd32 (i + 4) m = Some e"
    using rd32_total [of "i + 8" m] rd32_total [of "i + 4" m] by auto
  have "IsIncludePacketCode (drop i m) = Some (known_code c)" "GetDeviceId (drop i m) = Some e"
    using i ce by (simp_all add: IsIncludePacketCode_def header_defs rd32_drop)
  with 2 ce show ?case by (auto simp: frame_at_def)
qed simp

lemma find_packet_append:
  "\<forall>i \<in> set is. i + 12 \<le> length m \<and> \<not> frame_at m d i \<Longrightarrow> find_packet m d (is @ js) = find_packet m d js"
proof (induction m d "is" rule: find_packet.induct)
  case (2 m d i "is")
  then have i: "i + 12 \<le> length m" "\<not> frame_at m d i" by simp_all
  then obtain c e where ce: "rd32 (i + 8) m = Some c" "rd32 (i + 4) m = Some e"
    using rd32_total [of "i + 8" m] rd32_total [of "i + 4" m] by auto
  have "IsIncludePacketCode (drop i m) = Some (known_code c)" "GetDeviceId (drop i m) = Some e"
    using i ce by (simp_all add: IsIncludePacketCode_def header_defs rd32_drop)
  with 2 i ce show ?case by (auto simp: frame_at_def)
qed simp

text \<open>C33: With three readable bytes behind the \<open>len\<close> bytes it is given, \<open>FindPacket\<close> returns, and it
  returns the first frame: the least offset below \<open>len - 8\<close> with a known packet code and a device
  id that is the wanted one, zero, or not checked; null exactly when there is none.\<close>

theorem FindPacket_first:
  assumes "len + 3 \<le> int (length m)"
  shows "\<exists>r. FindPacket m len device_id = Some r
    \<and> (case r of
         None \<Rightarrow> (\<nexists>i. int i < len - 8 \<and> frame_at m device_id i)
       | Some i \<Rightarrow> int i < len - 8 \<and> frame_at m device_id i \<and> (\<nexists>j. j < i \<and> frame_at m device_id j))"
proof -
  let ?is = "[0..<nat (len - 8)]"
  have run: "FindPacket m len device_id = Some (find (frame_at m device_id) ?is)"
    unfolding FindPacket_def by (rule find_packet_in) (use assms in auto)
  show ?thesis
  proof (cases "find (frame_at m device_id) ?is")
    case None
    with run show ?thesis by (auto simp: find_None_iff)
  next
    case (Some i)
    then obtain k where k: "k < nat (len - 8)" "i = k" "frame_at m device_id i"
      "\<forall>j < k. \<not> frame_at m device_id j"
      by (auto simp: find_Some_iff)
    with run Some show ?thesis by auto
  qed
qed

definition sample_buffer :: byte_seq where
  "sample_buffer = [0, 24, 0, 0, 0, 5, 0, 0, 0, 0x70, 0x74, 0x09, 0, 0, 0, 0, 0, 0, 0, 0, 0, 0, 0, 0]"

theorem FindPacket_first_witness:
  "\<exists>r. FindPacket sample_buffer 20 5 = Some r"
  using FindPacket_first [of 20 sample_buffer 5] by (auto simp: sample_buffer_def)

text \<open>\<open>FindPacket\<close> reads past the end of the data. Given a buffer of exactly \<open>len\<close> bytes (at least 11)
  in which no frame begins early enough to be read inside it, it reads the packet code at
  offset \<open>len - 11\<close>, whose last byte is outside.\<close>

theorem FindPacket_overread:
  assumes "int (length m) = len" and "11 \<le> len"
    and "\<forall>i < nat (len - 11). \<not> frame_at m device_id i"
  shows "FindPacket m len device_id = None"
proof -
  let ?k = "nat (len - 11)"
  have "[0..<nat (len - 8)] = [0..<?k] @ ?k # [Suc ?k..<nat (len - 8)]"
  proof -
    have "[0..<nat (len - 8)] = [0..<?k] @ [?k..<nat (len - 8)]"
      using assms(2) upt_add_eq_append [of 0 ?k "nat (len - 8) - ?k"] by simp
    moreover have "[?k..<nat (len - 8)] = ?k # [Suc ?k..<nat (len - 8)]"
      using assms(2) by (intro upt_conv_Cons) simp
    ultimately show ?thesis by simp
  qed
  then have "FindPacket m len device_id = find_packet m device_id (?k # [Suc ?k..<nat (len - 8)])"
    using assms by (simp only: FindPacket_def) (rule find_packet_append, auto)
  moreover have "rd32 (?k + 8) m = None" using assms(1,2) by (simp add: rd32_def mem_read_def)
  then have "IsIncludePacketCode (drop ?k m) = None"
    using assms(1,2) by (simp add: IsIncludePacketCode_def header_defs rd32_drop)
  ultimately show ?thesis by simp
qed

theorem FindPacket_overread_witness:
  "FindPacket [1, 2, 3, 4, 5, 6, 7, 8, 9, 10, 11] 11 0 = None"
  using FindPacket_overread [of "[1, 2, 3, 4, 5, 6, 7, 8, 9, 10, 11]" 11 0] by simp

end
