(* ===== verification/Vial.thy ===== *)
theory Vial
  imports Packet_Data
begin

text \<open>
  Vial positions (\<open>U_VIAL_POS_t\<close> and \<open>VIAL_POS_t\<close> in \<open>network/PacketData.h\<close>): validity in the
  configured trays, the packed 16-bit form, captions, the enumeration of the vials and the
  arithmetic of positions. The loops of \<open>TotalVial\<close> are partial functions (\<open>None\<close>: no end); that
  they end is a theorem.
\<close>

section \<open>Positions\<close>

record vial =
  v_tray :: u8
  v_etc :: u8
  v_x :: u8
  v_y :: u8

text \<open>The settings of \<open>SYSTEM_CONFIG_t\<close> that positions depend on, read from its memory.\<close>

record tray_config =
  trayLeft :: u32
  trayRight :: u32
  processType :: u32

definition tray_config_of :: "byte_seq \<Rightarrow> tray_config option" where
  "tray_config_of m =
     Option.bind (get_field SYSTEM_CONFIG_t ''trayLeft'' m) (\<lambda>l.
     Option.bind (get_field SYSTEM_CONFIG_t ''trayRight'' m) (\<lambda>r.
     Option.bind (get_field SYSTEM_CONFIG_t ''processType'' m) (\<lambda>p.
     Some \<lparr>trayLeft = of_nat l, trayRight = of_nat r, processType = of_nat p\<rparr>)))"

definition vial0 :: vial where
  "vial0 = \<lparr>v_tray = 0, v_etc = 0, v_x = 0, v_y = 0\<rparr>"

definition in_tray :: "u32 \<Rightarrow> vial \<Rightarrow> bool" where
  "in_tray kind v =
     (if kind = Tray40Vial then \<not> (3 < v_x v \<or> 9 < v_y v)
      else if kind = Tray60Vial then \<not> (4 < v_x v \<or> 11 < v_y v)
      else if kind = Tray96Plate then \<not> (7 < v_x v \<or> 11 < v_y v)
      else False)"

definition IsValid :: "tray_config \<Rightarrow> vial \<Rightarrow> bool" where
  "IsValid c v =
     (if v_tray v = 0 then in_tray (trayLeft c) v
      else if v_tray v = 1 then in_tray (trayRight c) v
      else if v_tray v = 2 then \<not> 4 < v_etc v
      else False)"

definition vial_eq :: "vial \<Rightarrow> vial \<Rightarrow> bool" where
  "vial_eq this v = (if v_tray this = 2 then v_etc this = v_etc v
     else v_tray this = v_tray v \<and> v_x this = v_x v \<and> v_y this = v_y v)"

section \<open>The packed form\<close>

definition vial_of_word :: "u16 \<Rightarrow> vial" where
  "vial_of_word w =
     (let etc = ucast (drop_bit 12 w AND 0x07) in
      \<lparr>v_tray = if etc \<noteq> 0 then 2 else ucast (drop_bit 15 w AND 0x1), v_etc = etc,
       v_x = ucast (drop_bit 6 w AND 0x3f), v_y = ucast (w AND 0x3f)\<rparr>)"

definition word_of_vial :: "vial \<Rightarrow> u16" where
  "word_of_vial v = push_bit 15 (ucast (v_tray v AND 0x1)) OR push_bit 12 (ucast (v_etc v AND 0x7))
     OR push_bit 6 (ucast (v_x v AND 0x3f)) OR ucast (v_y v AND 0x3f)"

text \<open>\<open>VIAL_POS_t\<close> keeps the four bytes of a position in an \<open>int\<close>, copied by \<open>memcpy\<close>.\<close>

definition vial_bytes :: "vial \<Rightarrow> byte_seq" where
  "vial_bytes v = [v_tray v, v_etc v, v_x v, v_y v]"

definition GetVial :: "u32 \<Rightarrow> vial" where
  "GetVial pos = (let bs = le_bytes 4 (unat pos) in
     \<lparr>v_tray = bs ! 0, v_etc = bs ! 1, v_x = bs ! 2, v_y = bs ! 3\<rparr>)"

definition SetVial :: "vial \<Rightarrow> u32" where
  "SetVial v = of_nat (le_value (vial_bytes v))"

section \<open>Captions\<close>

text \<open>A \<open>CString\<close> of the Unicode build as its list of code units.\<close>

type_synonym wide = "nat list"

definition wide_of :: "string \<Rightarrow> wide" where
  "wide_of t = map of_char t"

text \<open>\<open>Format(_T("L(%c%d)"), _T('A') + x, y + 1)\<close>\<close>

definition cell_caption :: "string \<Rightarrow> vial \<Rightarrow> wide" where
  "cell_caption pre v =
     wide_of pre @ [of_char CHR ''A'' + unat (v_x v)] @ wide_of (dec_nat (unat (v_y v) + 1)) @ wide_of '')''"

definition GetCaption :: "tray_config \<Rightarrow> vial \<Rightarrow> wide" where
  "GetCaption c v =
     (if v_tray v = 0 then cell_caption (if trayLeft c \<noteq> Tray96Plate then ''L('' else ''B('') v
      else if v_tray v = 1 then cell_caption (if trayRight c \<noteq> Tray96Plate then ''R('' else ''F('') v
      else if v_tray v = 2 then
        (if v_etc v = 1 then wide_of ''Waste'' else if v_etc v = 2 then wide_of ''Wash''
         else if v_etc v = 3 then wide_of ''Exchange'' else if v_etc v = 4 then wide_of ''Home''
         else wide_of ''Unknown'')
      else wide_of ''Unknown'')"

section \<open>Enumeration\<close>

definition tray_count :: "u32 \<Rightarrow> int" where
  "tray_count kind = (if kind = Tray40Vial then 40 else if kind = Tray60Vial then 60
     else if kind = Tray96Plate then 96 else 0)"

definition TotalVialCount :: "tray_config \<Rightarrow> int" where
  "TotalVialCount c = 0 + tray_count (trayLeft c) + tray_count (trayRight c)"

text \<open>The increments of the inner loop and after it.\<close>

definition step_next :: "tray_config \<Rightarrow> vial \<Rightarrow> vial" where
  "step_next c v = (if processType c = RowFirst then v\<lparr>v_x := v_x v + 1\<rparr> else v\<lparr>v_y := v_y v + 1\<rparr>)"

definition step_line :: "tray_config \<Rightarrow> vial \<Rightarrow> vial" where
  "step_line c v = (if processType c = RowFirst then v\<lparr>v_x := 0, v_y := v_y v + 1\<rparr>
     else v\<lparr>v_x := v_x v + 1, v_y := 0\<rparr>)"

partial_function (option) fill_line ::
  "tray_config \<Rightarrow> vial \<Rightarrow> vial list \<Rightarrow> (vial \<times> vial list) option" where
  "fill_line c v arr =
     (if IsValid c v then fill_line c (step_next c v) (arr @ [v]) else Some (v, arr))"

text \<open>The \<open>do\<close>-\<open>while\<close> loop.\<close>

partial_function (option) fill_tray ::
  "tray_config \<Rightarrow> vial \<Rightarrow> vial list \<Rightarrow> (vial \<times> vial list) option" where
  "fill_tray c v arr = Option.bind (fill_line c v arr) (\<lambda>r.
     if IsValid c (step_line c (fst r)) then fill_tray c (step_line c (fst r)) (snd r)
     else Some (step_line c (fst r), snd r))"

fun fill_trays :: "tray_config \<Rightarrow> vial \<Rightarrow> u8 list \<Rightarrow> vial list \<Rightarrow> vial list option" where
  "fill_trays c v [] arr = Some arr"
| "fill_trays c v (t # ts) arr = Option.bind (fill_tray c (v\<lparr>v_tray := t, v_x := 0, v_y := 0\<rparr>) arr)
     (\<lambda>(v', arr'). fill_trays c v' ts arr')"

definition TotalVial :: "tray_config \<Rightarrow> vial list \<Rightarrow> (int \<times> vial list) option" where
  "TotalVial c arr = map_option (\<lambda>arr'. (to_int32 (int (length arr')), arr'))
     (fill_trays c (vial_of_word 0) [0, 1] arr)"

section \<open>Arithmetic of positions\<close>

fun find_vial :: "vial \<Rightarrow> vial list \<Rightarrow> int \<Rightarrow> int" where
  "find_vial this [] i = - 1"
| "find_vial this (a # arr) i = (if vial_eq a this then i else find_vial this arr (i + 1))"

partial_function (option) lift_index :: "int \<Rightarrow> int \<Rightarrow> int option" where
  "lift_index n i = (if i < 0 then lift_index n (i + n) else Some i)"

text \<open>\<open>None\<close> also stands for the overflow of \<open>index += off\<close>.\<close>

definition OffsetTo :: "tray_config \<Rightarrow> int \<Rightarrow> vial \<Rightarrow> vial option" where
  "OffsetTo c off this = Option.bind (TotalVial c []) (\<lambda>(n, arr).
     let index = find_vial this arr 0 in
     if index = - 1 then Some this
     else if index + off \<ge> 2 ^ 31 then None
     else map_option (\<lambda>i. arr ! nat (i mod n)) (lift_index n (index + off)))"

fun offset_scan :: "vial \<Rightarrow> vial \<Rightarrow> vial list \<Rightarrow> int \<Rightarrow> int \<Rightarrow> int \<Rightarrow> int \<times> int" where
  "offset_scan this v [] i index base = (index, base)"
| "offset_scan this v (a # arr) i index base = offset_scan this v arr (i + 1)
     (if vial_eq a this then i else index) (if vial_eq a v then i else base)"

definition OffsetFrom :: "tray_config \<Rightarrow> vial \<Rightarrow> vial \<Rightarrow> int option" where
  "OffsetFrom c v this = Option.bind (TotalVial c []) (\<lambda>(n, arr).
     let (index, base) = offset_scan this v arr 0 (- 1) (- 1) in
     Some (if index = - 1 \<or> base = - 1 then 0 else index - base))"

declare fill_line.simps [code] fill_tray.simps [code] lift_index.simps [code]

section \<open>The enumeration, closed\<close>

text \<open>Columns and rows of a tray; lines are rows or columns, as the processing order says.\<close>

definition dims :: "u32 \<Rightarrow> nat \<times> nat" where
  "dims kind = (if kind = Tray40Vial then (4, 10) else if kind = Tray60Vial then (5, 12)
     else if kind = Tray96Plate then (8, 12) else (0, 0))"

definition tray_kind :: "tray_config \<Rightarrow> u8 \<Rightarrow> u32" where
  "tray_kind c t = (if t = 0 then trayLeft c else trayRight c)"

definition lines :: "tray_config \<Rightarrow> u8 \<Rightarrow> nat" where
  "lines c t = (if processType c = RowFirst then snd else fst) (dims (tray_kind c t))"

definition line_len :: "tray_config \<Rightarrow> u8 \<Rightarrow> nat" where
  "line_len c t = (if processType c = RowFirst then fst else snd) (dims (tray_kind c t))"

definition cell :: "tray_config \<Rightarrow> u8 \<Rightarrow> nat \<Rightarrow> nat \<Rightarrow> vial" where
  "cell c t i j = (if processType c = RowFirst
     then \<lparr>v_tray = t, v_etc = 0, v_x = of_nat j, v_y = of_nat i\<rparr>
     else \<lparr>v_tray = t, v_etc = 0, v_x = of_nat i, v_y = of_nat j\<rparr>)"

definition tray_vials :: "tray_config \<Rightarrow> u8 \<Rightarrow> vial list" where
  "tray_vials c t = concat (map (\<lambda>i. map (cell c t i) [0..<line_len c t]) [0..<lines c t])"

definition vials :: "tray_config \<Rightarrow> vial list" where
  "vials c = tray_vials c 0 @ tray_vials c 1"

lemma dims_small: "fst (dims k) \<le> 12" "snd (dims k) \<le> 12" "fst (dims k) = 0 \<longleftrightarrow> snd (dims k) = 0"
  by (simp_all add: dims_def)

lemma lines_small: "lines c t \<le> 12" "line_len c t \<le> 12" "lines c t = 0 \<longleftrightarrow> line_len c t = 0"
  using dims_small [of "tray_kind c t"] by (simp_all add: lines_def line_len_def)

lemma in_tray_dims: "in_tray k v \<longleftrightarrow> unat (v_x v) < fst (dims k) \<and> unat (v_y v) < snd (dims k)"
  by (auto simp: in_tray_def dims_def word_less_nat_alt not_less)

lemma unat_u8_small: "n < 256 \<Longrightarrow> unat (of_nat n :: u8) = n"
  by (simp add: unat_of_nat)

lemma IsValid_tray: "v_tray v = t \<Longrightarrow> t = 0 \<or> t = 1 \<Longrightarrow> IsValid c v \<longleftrightarrow> in_tray (tray_kind c t) v"
  by (auto simp: IsValid_def tray_kind_def)

lemma cell_fields [simp]: "v_tray (cell c t i j) = t" "v_etc (cell c t i j) = 0"
  by (simp_all add: cell_def)

lemma IsValid_cell:
  assumes "t = 0 \<or> t = 1" and "i \<le> 12" and "j \<le> 12"
  shows "IsValid c (cell c t i j) \<longleftrightarrow> i < lines c t \<and> j < line_len c t"
proof -
  have "v_tray (cell c t i j) = t" by (simp add: cell_def)
  then show ?thesis
    using assms by (auto simp: IsValid_tray in_tray_dims cell_def lines_def line_len_def unat_u8_small)
qed

lemma step_next_cell: "step_next c (cell c t i j) = cell c t i (Suc j)"
  by (simp add: step_next_def cell_def add.commute)

lemma step_line_cell: "step_line c (cell c t i j) = cell c t (Suc i) 0"
  by (simp add: step_line_def cell_def add.commute)

lemma fill_line_cell:
  assumes "t = 0 \<or> t = 1" and "i < lines c t" and "j \<le> line_len c t"
  shows "fill_line c (cell c t i j) arr
    = Some (cell c t i (line_len c t), arr @ map (cell c t i) [j..<line_len c t])"
  using assms(3)
proof (induction "line_len c t - j" arbitrary: j arr)
  case 0
  then have "j = line_len c t" by simp
  moreover have "\<not> IsValid c (cell c t i (line_len c t))"
    using assms lines_small(1,2) [of c t] by (simp add: IsValid_cell)
  ultimately show ?case by (subst fill_line.simps) simp
next
  case (Suc n)
  then have j: "j < line_len c t" by simp
  have "IsValid c (cell c t i j)"
    using assms j lines_small(1,2) [of c t] by (simp add: IsValid_cell)
  with j Suc.hyps(1) [of "Suc j" "arr @ [cell c t i j]"] Suc.hyps(2) show ?case
    by (subst fill_line.simps) (simp add: step_next_cell upt_rec [of j])
qed

lemma fill_tray_cell:
  assumes "t = 0 \<or> t = 1" and "i < lines c t"
  shows "\<exists>v. fill_tray c (cell c t i 0) arr = Some (v, arr @ concat (map (\<lambda>i. map (cell c t i)
    [0..<line_len c t]) [i..<lines c t])) \<and> v_etc v = 0"
  using assms(2)
proof (induction "lines c t - i" arbitrary: i arr)
  case (Suc n)
  let ?arr = "arr @ map (cell c t i) [0..<line_len c t]"
  have line: "fill_line c (cell c t i 0) arr = Some (cell c t i (line_len c t), ?arr)"
    using fill_line_cell [OF assms(1) Suc.prems, of 0] by simp
  have len: "0 < line_len c t" using Suc.prems lines_small(3) [of c t] by auto
  have next_line: "IsValid c (cell c t (Suc i) 0) \<longleftrightarrow> Suc i < lines c t"
    using assms(1) Suc.prems len lines_small(1) [of c t] by (simp add: IsValid_cell)
  show ?case
  proof (cases "Suc i < lines c t")
    case True
    with Suc.hyps obtain v where v: "v_etc v = 0" "fill_tray c (cell c t (Suc i) 0) ?arr
      = Some (v, ?arr @ concat (map (\<lambda>i. map (cell c t i) [0..<line_len c t]) [Suc i..<lines c t]))"
      by (metis Suc_diff_Suc diff_Suc_1 Suc.prems)
    with True line next_line show ?thesis
      by (subst fill_tray.simps) (simp add: step_line_cell upt_rec [of i])
  next
    case False
    with Suc.prems have "[i..<lines c t] = [i]" by (simp add: upt_rec)
    with False line next_line show ?thesis
      by (subst fill_tray.simps) (simp add: step_line_cell)
  qed
qed simp

lemma fill_tray_all:
  assumes "t = 0 \<or> t = 1"
  shows "\<exists>v. fill_tray c (cell c t 0 0) arr = Some (v, arr @ tray_vials c t) \<and> v_etc v = 0"
proof (cases "0 < lines c t")
  case True
  then show ?thesis using fill_tray_cell [OF assms True, of arr] by (simp add: tray_vials_def)
next
  case False
  then have no: "\<not> IsValid c (cell c t 0 0)" "\<not> IsValid c (cell c t (Suc 0) 0)"
    using assms by (simp_all add: IsValid_cell)
  then have "fill_line c (cell c t 0 0) arr = Some (cell c t 0 0, arr)" by (subst fill_line.simps) simp
  with no False show ?thesis
    by (subst fill_tray.simps) (simp add: step_line_cell tray_vials_def)
qed

lemma length_tray_vials: "length (tray_vials c t) = lines c t * line_len c t"
  by (simp add: tray_vials_def length_concat comp_def sum_list_triv)

lemma length_vials: "length (vials c) \<le> 192" "int (length (vials c)) = TotalVialCount c"
  by (simp_all add: vials_def length_tray_vials lines_def line_len_def tray_kind_def dims_def
      TotalVialCount_def tray_count_def)

lemma TotalVial_vials: "TotalVial c arr = Some (to_int32 (int (length (arr @ vials c))), arr @ vials c)"
proof -
  obtain v where v: "fill_tray c (cell c 0 0 0) arr = Some (v, arr @ tray_vials c 0)" "v_etc v = 0"
    using fill_tray_all [of 0] by auto
  obtain u where u: "fill_tray c (cell c 1 0 0) (arr @ tray_vials c 0) =
      Some (u, (arr @ tray_vials c 0) @ tray_vials c 1)"
    using fill_tray_all [of 1] by blast
  have "(vial_of_word 0)\<lparr>v_tray := 0, v_x := 0, v_y := 0\<rparr> = cell c 0 0 0"
    by (simp add: vial_of_word_def cell_def)
  moreover have "v\<lparr>v_tray := 1, v_x := 0, v_y := 0\<rparr> = cell c 1 0 0"
    using v(2) by (simp add: cell_def)
  ultimately show ?thesis using v u by (simp add: TotalVial_def vials_def)
qed

text \<open>Members of the enumeration.\<close>

definition tray_vial :: "tray_config \<Rightarrow> vial \<Rightarrow> bool" where
  "tray_vial c v \<longleftrightarrow> IsValid c v \<and> v_tray v < 2 \<and> v_etc v = 0"

lemma cell_inj: "i < 256 \<Longrightarrow> j < 256 \<Longrightarrow> i' < 256 \<Longrightarrow> j' < 256 \<Longrightarrow>
    cell c t i j = cell c t i' j' \<longleftrightarrow> i = i' \<and> j = j'"
  by (auto simp: cell_def split: if_splits dest: arg_cong [of _ _ unat] simp: unat_u8_small)

lemma u8_less_2: "(t :: u8) < 2 \<longleftrightarrow> t = 0 \<or> t = 1"
  by (auto simp: word_less_nat_alt word_unat_eq_iff)

lemma in_tray_vials: "t < 2 \<Longrightarrow> v \<in> set (tray_vials c t) \<longleftrightarrow> tray_vial c v \<and> v_tray v = t"
proof
  assume t: "t < 2" and "v \<in> set (tray_vials c t)"
  then obtain i j where "i < lines c t" "j < line_len c t" "v = cell c t i j"
    by (auto simp: tray_vials_def)
  with t show "tray_vial c v \<and> v_tray v = t"
    using lines_small(1,2) [of c t] by (simp add: tray_vial_def IsValid_cell u8_less_2)
next
  assume t: "t < 2" and v: "tray_vial c v \<and> v_tray v = t"
  let ?i = "unat (if processType c = RowFirst then v_y v else v_x v)"
  let ?j = "unat (if processType c = RowFirst then v_x v else v_y v)"
  have "v = cell c t ?i ?j"
    using v by (auto simp: cell_def tray_vial_def)
  moreover have "?i < lines c t" "?j < line_len c t"
    using v t by (auto simp: tray_vial_def u8_less_2 IsValid_tray in_tray_dims lines_def line_len_def)
  ultimately show "v \<in> set (tray_vials c t)" by (force simp: tray_vials_def)
qed

lemma distinct_tray_vials: "distinct (tray_vials c t)"
proof -
  have small: "lines c t \<le> 12" "line_len c t \<le> 12" by (rule lines_small)+
  have "distinct (concat (map (\<lambda>i. map (cell c t i) [0..<line_len c t]) is))"
    if "distinct is" "set is \<subseteq> {..12}" for "is"
    using that
  proof (induction "is")
    case (Cons i "is")
    then show ?case using small
      by (auto simp: distinct_map inj_on_def cell_inj)
  qed simp
  moreover have "set [0..<lines c t] \<subseteq> {..12}" using small(1) by auto
  ultimately show ?thesis by (simp add: tray_vials_def)
qed

lemma set_vials: "set (vials c) = {v. tray_vial c v}"
  by (auto simp: vials_def in_tray_vials u8_less_2 tray_vial_def)

lemma distinct_vials: "distinct (vials c)"
  by (auto simp: vials_def distinct_tray_vials in_tray_vials)

section \<open>The packed form, bit by bit\<close>

lemma masks: "w AND 0x3f = take_bit 6 w" "w AND 0x07 = take_bit 3 w" "w AND 0x1 = take_bit 1 w"
  for w :: "'a::len word"
  by (simp_all add: take_bit_eq_mask mask_eq_exp_minus_1)

lemma bit_word_of_vial: "bit (word_of_vial v) n \<longleftrightarrow>
    (n < 6 \<and> bit (v_y v) n) \<or> (6 \<le> n \<and> n < 12 \<and> bit (v_x v) (n - 6))
    \<or> (12 \<le> n \<and> n < 15 \<and> bit (v_etc v) (n - 12)) \<or> (n = 15 \<and> bit (v_tray v) 0)"
proof -
  consider "n < 6" | "6 \<le> n \<and> n < 12" | "12 \<le> n \<and> n < 15" | "n = 15" | "16 \<le> n" by linarith
  then show ?thesis by cases (auto simp: word_of_vial_def masks bit_simps intro: bit_0 [THEN iffD2])
qed

lemma word_of_vial_top: "odd (drop_bit 15 (word_of_vial v)) \<longleftrightarrow> odd (v_tray v)"
proof -
  have "bit (drop_bit 15 (word_of_vial v)) 0 \<longleftrightarrow> bit (v_tray v) 0"
    by (simp only: bit_drop_bit_eq comp_def bit_word_of_vial) simp
  then show ?thesis by (simp only: bit_0)
qed

lemma vial_of_word_of_vial: "vial_of_word (word_of_vial v) =
    \<lparr>v_tray = if take_bit 3 (v_etc v) \<noteq> 0 then 2 else take_bit 1 (v_tray v),
     v_etc = take_bit 3 (v_etc v), v_x = take_bit 6 (v_x v), v_y = take_bit 6 (v_y v)\<rparr>"
proof -
  have "ucast (take_bit 3 (drop_bit 12 (word_of_vial v))) = take_bit 3 (v_etc v)"
    "ucast (take_bit 6 (drop_bit 6 (word_of_vial v))) = take_bit 6 (v_x v)"
    "ucast (take_bit 6 (word_of_vial v)) = take_bit 6 (v_y v)"
    "ucast (take_bit 1 (drop_bit 15 (word_of_vial v))) = take_bit 1 (v_tray v)"
    by (auto intro!: bit_word_eqI simp: bit_simps bit_word_of_vial word_of_vial_top)
  then show ?thesis by (simp add: vial_of_word_def masks Let_def)
qed

section \<open>Positions as indices\<close>

lemma vial_eq_tray: "tray_vial c a \<Longrightarrow> tray_vial c v \<Longrightarrow> vial_eq a v \<longleftrightarrow> a = v"
  by (auto simp: vial_eq_def tray_vial_def)

lemma find_vial_nth:
  assumes "\<forall>a \<in> set arr. vial_eq a this \<longleftrightarrow> a = this" and "distinct arr" and "k < length arr" and "arr ! k = this"
  shows "find_vial this arr i = i + int k"
  using assms
proof (induction arr arbitrary: i k)
  case (Cons a arr)
  show ?case
  proof (cases k)
    case (Suc l)
    with Cons have "a \<noteq> this" by auto
    with Cons Suc show ?thesis by simp
  qed (use Cons in simp)
qed simp

lemma offset_scan_nth:
  assumes "\<forall>a \<in> set arr. (vial_eq a this \<longleftrightarrow> a = this) \<and> (vial_eq a v \<longleftrightarrow> a = v)" and "distinct arr"
  shows "offset_scan this v arr i index base =
    (if this \<in> set arr then find_vial this arr i else index, if v \<in> set arr then find_vial v arr i else base)"
  using assms by (induction arr arbitrary: i index base) auto

lemma lift_index_total:
  assumes "0 < n"
  shows "\<exists>i'. lift_index n i = Some i' \<and> i' mod n = i mod n"
proof (induction "nat (- i)" arbitrary: i rule: less_induct)
  case less
  show ?case
  proof (cases "i < 0")
    case True
    then have "nat (- (i + n)) < nat (- i)" using assms by simp
    from less [OF this] True show ?thesis by (subst lift_index.simps) simp
  qed (subst lift_index.simps, simp)
qed

lemma tray_vial_nth:
  assumes "tray_vial c v"
  obtains k where "k < length (vials c)" and "vials c ! k = v"
  using assms set_vials [of c] by (metis in_set_conv_nth mem_Collect_eq)

lemma nth_tray_vial: "k < length (vials c) \<Longrightarrow> tray_vial c (vials c ! k)"
  using set_vials [of c] nth_mem [of k "vials c"] by simp

lemma find_vial_vials:
  assumes "k < length (vials c)"
  shows "find_vial (vials c ! k) (vials c) 0 = int k"
proof -
  have "\<forall>a \<in> set (vials c). vial_eq a (vials c ! k) \<longleftrightarrow> a = vials c ! k"
    using nth_tray_vial [OF assms] set_vials [of c] by (auto simp: vial_eq_tray)
  then show ?thesis using find_vial_nth [OF _ distinct_vials assms] by simp
qed

lemma to_int32_small: "0 \<le> i \<Longrightarrow> i < 2 ^ 31 \<Longrightarrow> to_int32 i = i"
  by (simp add: to_int32_def signed_take_bit_int_eq_self sint_sbintrunc')

lemma OffsetTo_nth:
  assumes "k < length (vials c)" and "int k + off < 2 ^ 31"
  shows "OffsetTo c off (vials c ! k)
    = Some (vials c ! nat ((int k + off) mod int (length (vials c))))"
proof -
  let ?n = "int (length (vials c))"
  have "0 < length (vials c)" using assms(1) by linarith
  then have n: "0 < ?n" "to_int32 ?n = ?n" using length_vials(1) [of c] by (simp_all add: to_int32_small)
  obtain i where "lift_index ?n (int k + off) = Some i" "i mod ?n = (int k + off) mod ?n"
    using lift_index_total [OF n(1)] by blast
  with n assms show ?thesis
    by (simp add: OffsetTo_def TotalVial_vials find_vial_vials)
qed

lemma OffsetFrom_nth:
  assumes "k < length (vials c)" and "b < length (vials c)"
  shows "OffsetFrom c (vials c ! b) (vials c ! k) = Some (int k - int b)"
proof -
  have "\<forall>a \<in> set (vials c). (vial_eq a (vials c ! k) \<longleftrightarrow> a = vials c ! k) \<and> (vial_eq a (vials c ! b) \<longleftrightarrow> a = vials c ! b)"
    using nth_tray_vial assms set_vials [of c] by (auto simp: vial_eq_tray)
  from offset_scan_nth [OF this distinct_vials, of 0] assms show ?thesis
    by (simp add: OffsetFrom_def TotalVial_vials find_vial_vials)
qed

lemma GetVial_SetVial: "GetVial (SetVial v) = v"
proof -
  have "le_value (vial_bytes v) < 2 ^ 32" using le_value_less [of "vial_bytes v"] by (simp add: vial_bytes_def)
  then have "unat (SetVial v) = le_value (vial_bytes v)" by (simp add: SetVial_def unat_of_nat)
  moreover have "length (vial_bytes v) = 4" by (simp add: vial_bytes_def)
  ultimately have "le_bytes 4 (unat (SetVial v)) = vial_bytes v"
    using le_bytes_value [of "vial_bytes v"] by (simp only:)
  then show ?thesis by (simp only: GetVial_def Let_def) (simp add: vial_bytes_def)
qed

section \<open>Properties\<close>

text \<open>C38: \<open>TotalVial\<close> ends for every configuration and appends each vial of the configured trays exactly
  once: the positions in the trays that \<open>IsValid\<close> accepts, as many as \<open>TotalVialCount\<close> says, all
  of the left tray before the right one.\<close>

theorem TotalVial_enumerates:
  "\<exists>vs. TotalVial c arr = Some (to_int32 (int (length (arr @ vs))), arr @ vs) \<and> distinct vs
    \<and> set vs = {v. IsValid c v \<and> v_tray v < 2 \<and> v_etc v = 0} \<and> int (length vs) = TotalVialCount c
    \<and> sorted (map (\<lambda>v. unat (v_tray v)) vs)"
proof -
  have "map (\<lambda>v. unat (v_tray v)) (tray_vials c t) = map (\<lambda>_. unat t) (tray_vials c t)" for t
    by (rule map_cong) (auto simp: tray_vials_def)
  then have "sorted (map (\<lambda>v. unat (v_tray v)) (tray_vials c t))" for t
    by (simp add: map_replicate_const)
  moreover have "\<forall>v \<in> set (tray_vials c 0). unat (v_tray v) = 0" by (auto simp: tray_vials_def)
  ultimately have "sorted (map (\<lambda>v. unat (v_tray v)) (vials c))"
    by (simp add: vials_def sorted_append)
  then show ?thesis
    using TotalVial_vials [of c arr] distinct_vials [of c] set_vials [of c] length_vials [of c]
    by (auto simp: tray_vial_def)
qed

text \<open>C39: Moving in the tray is arithmetic modulo the number of vials: from a tray position \<open>OffsetTo\<close>
  returns a tray position for every offset, moves add up, and \<open>OffsetFrom\<close> gives an offset that is
  the one moved by modulo the number of vials and that leads back to the same position.\<close>

theorem vial_arithmetic:
  assumes "IsValid c v" and "v_tray v < 2" and "v_etc v = 0"
    and "\<bar>a\<bar> \<le> 2 ^ 30 - 192" and "\<bar>b\<bar> \<le> 2 ^ 30 - 192"
  shows "\<exists>w d. OffsetTo c a v = Some w \<and> IsValid c w \<and> v_tray w < 2
    \<and> OffsetTo c b w = OffsetTo c (a + b) v
    \<and> OffsetFrom c v w = Some d \<and> (d - a) mod TotalVialCount c = 0 \<and> \<bar>d\<bar> < TotalVialCount c
    \<and> OffsetTo c d v = Some w"
proof -
  let ?n = "int (length (vials c))"
  obtain k where k: "k < length (vials c)" "vials c ! k = v"
    using assms(1-3) by (auto simp: tray_vial_def intro: tray_vial_nth)
  define j where "j = nat ((int k + a) mod ?n)"
  have small: "?n \<le> 192" "a \<le> 1073741632" "b \<le> 1073741632" "(2 :: int) ^ 31 = 2147483648"
    using length_vials(1) [of c] assms(4,5) by simp_all
  have pos: "0 < ?n" using k(1) by linarith
  then have "0 \<le> (int k + a) mod ?n" "(int k + a) mod ?n < ?n" by simp_all
  then have j: "j < length (vials c)" "int j = (int k + a) mod ?n" unfolding j_def by linarith+
  have mv: "OffsetTo c x v = Some (vials c ! nat ((int k + x) mod ?n))" if "int k + x < 2 ^ 31" for x
    using OffsetTo_nth [OF k(1) that] k(2) by simp
  have "OffsetTo c a v = Some (vials c ! j)" unfolding j_def using k(1) small by (intro mv) linarith
  moreover have "OffsetTo c b (vials c ! j) = OffsetTo c (a + b) v"
  proof -
    have "OffsetTo c b (vials c ! j) = Some (vials c ! nat ((int j + b) mod ?n))"
      using j(1) small by (intro OffsetTo_nth) linarith+
    moreover have "(int j + b) mod ?n = (int k + (a + b)) mod ?n"
      using j(2) by (simp add: mod_simps add.assoc)
    ultimately show ?thesis using mv [of "a + b"] k(1) small by simp
  qed
  moreover have "OffsetFrom c v (vials c ! j) = Some (int j - int k)"
    using OffsetFrom_nth [OF j(1) k(1)] k(2) by simp
  moreover have "(int j - int k - a) mod ?n = 0"
    using j(2) by (simp add: mod_simps diff_diff_eq)
  moreover have "\<bar>int j - int k\<bar> < ?n" using j(1) k(1) by linarith
  moreover have "OffsetTo c (int j - int k) v = Some (vials c ! j)"
  proof -
    have "(int k + (int j - int k)) mod ?n = int j" using j(1) by simp
    then show ?thesis using mv [of "int j - int k"] j(1) small by simp
  qed
  ultimately show ?thesis
    using nth_tray_vial [OF j(1)] length_vials(2) [of c] by (auto simp: tray_vial_def)
qed

definition sample_trays :: tray_config where
  "sample_trays = \<lparr>trayLeft = Tray40Vial, trayRight = Tray96Plate, processType = ColumnFirst\<rparr>"

theorem vial_arithmetic_witness:
  "\<exists>w d. OffsetTo sample_trays (- 5) vial0 = Some w \<and> OffsetFrom sample_trays vial0 w = Some d
     \<and> (d + 5) mod 136 = 0 \<and> OffsetTo sample_trays 7 w = OffsetTo sample_trays 2 vial0"
  using vial_arithmetic [of sample_trays vial0 "- 5" 7]
  by (auto simp: sample_trays_def vial0_def IsValid_def in_tray_def trays TotalVialCount_def tray_count_def)

lemma nat_mod_eq_iff_less: "0 < n \<Longrightarrow> m mod n = m \<longleftrightarrow> m < (n :: nat)"
  by (metis mod_less mod_less_divisor)

text \<open>The packed form keeps exactly the canonical positions: a position in a tray with no other
  place, or another place of number 1 to 7, with coordinates below 64.\<close>

theorem vial_word_roundtrip:
  "vial_of_word (word_of_vial v) = v \<longleftrightarrow>
     (v_tray v < 2 \<and> v_etc v = 0 \<or> v_tray v = 2 \<and> v_etc v \<noteq> 0 \<and> v_etc v < 8)
     \<and> v_x v < 64 \<and> v_y v < 64"
proof -
  have less: "take_bit 3 (w :: u8) = w \<longleftrightarrow> w < 8" "take_bit 6 w = w \<longleftrightarrow> w < 64" "w mod 2 = w \<longleftrightarrow> w < 2" for w
    by (simp_all add: word_unat_eq_iff unsigned_take_bit_eq take_bit_nat_eq_self_iff word_less_nat_alt
        unat_mod nat_mod_eq_iff_less)
  show ?thesis
    by (cases v) (auto simp: vial_of_word_of_vial less less(1) [THEN iffD2])
qed

text \<open>The injector (other place 0) is a valid position that the type cannot keep apart: it is \<open>==\<close> to
  every tray position although no tray position is \<open>==\<close> to it, its packed form is one in the left
  tray, and it has no caption.\<close>

theorem injector_confused:
  assumes "v_tray p = 2" and "v_etc p = 0"
  shows "IsValid c p \<and> vial_eq p (cell c t i j) \<and> (t \<noteq> 2 \<longrightarrow> \<not> vial_eq (cell c t i j) p)
    \<and> v_tray (vial_of_word (word_of_vial p)) = 0 \<and> GetCaption c p = wide_of ''Unknown''"
  using assms by (auto simp: IsValid_def vial_eq_def vial_of_word_of_vial GetCaption_def)

theorem injector_confused_witness:
  "IsValid sample_trays (vial0\<lparr>v_tray := 2\<rparr>)
   \<and> vial_eq (vial0\<lparr>v_tray := 2\<rparr>) (cell sample_trays 1 3 4)"
  using injector_confused [of "vial0\<lparr>v_tray := 2\<rparr>" sample_trays 1 3 4] by (simp add: vial0_def)

lemma wide_of_inj [simp]: "wide_of s = wide_of t \<longleftrightarrow> s = t"
proof -
  have "inj (of_char :: char \<Rightarrow> nat)" by (rule inj_on_inverseI [of _ char_of]) simp
  then show ?thesis by (simp add: wide_of_def inj_map_eq_map)
qed

lemma cell_caption_inj:
  assumes "length p = length q"
  shows "cell_caption p v = cell_caption q u \<longleftrightarrow> p = q \<and> v_x v = v_x u \<and> v_y v = v_y u"
proof -
  have len: "length (wide_of p) = length (wide_of q)" using assms by (simp add: wide_of_def)
  have "cell_caption p v = cell_caption q u \<longleftrightarrow> p = q \<and> unat (v_x v) = unat (v_x u)
      \<and> unat (v_y v) + 1 = unat (v_y u) + 1"
    unfolding cell_caption_def append_eq_append_conv [OF disjI1, OF len] by simp
  then show ?thesis by (simp add: word_unat_eq_iff)
qed

lemma tray_prefixes: "length (if b then ''L('' else ''B('') = length (if d then ''R('' else ''F('')"
  "length (if b then ''L('' else ''B('') = length (if d then ''L('' else ''B('')"
  "length (if b then ''R('' else ''F('') = length (if d then ''R('' else ''F('')"
  "length (if b then ''R('' else ''F('') = length (if d then ''L('' else ''B('')"
  by simp_all

text \<open>Two positions in the trays have the same caption exactly when they are \<open>==\<close>.\<close>

theorem captions_distinct:
  assumes "v_tray v < 2" and "v_tray u < 2"
  shows "GetCaption c v = GetCaption c u \<longleftrightarrow> vial_eq v u"
  using assms unfolding u8_less_2
  by (elim disjE; (simp add: GetCaption_def vial_eq_def cell_caption_inj [OF tray_prefixes(1)]
      cell_caption_inj [OF tray_prefixes(2)] cell_caption_inj [OF tray_prefixes(3)]
      cell_caption_inj [OF tray_prefixes(4)] split del: if_split; auto?))

theorem captions_distinct_witness:
  "GetCaption sample_trays vial0 \<noteq> GetCaption sample_trays (vial0\<lparr>v_tray := 1\<rparr>)"
  using captions_distinct [of vial0 "vial0\<lparr>v_tray := 1\<rparr>" sample_trays] by (simp add: vial0_def vial_eq_def)

end
