(* ===== verification/Ip_Address.thy ===== *)
theory Ip_Address
  imports Sockets "HOL-Library.List_Lexorder" "HOL-Library.Product_Lexorder"
begin

text \<open>
  \<open>IPAddress\<close> of the POCO Net library (\<open>IPAddress.cpp\<close>, \<open>IPAddressImpl.cpp\<close>), the Windows
  variant: construction, parsing, printing, classification, masks, comparison and the binary form.
  The system's \<open>inet_addr\<close> and \<open>getaddrinfo\<close> are parameters.
\<close>

section \<open>Data\<close>

text \<open>
  An \<open>in_addr\<close> is its four bytes in memory, which are in network order; an \<open>in6_addr\<close> is its eight
  words as \<open>ByteOrder::fromNetwork\<close> gives them.
\<close>

datatype in_addr = In4 u8 u8 u8 u8

datatype in6_addr = In6 u16 u16 u16 u16 u16 u16 u16 u16

datatype family = AF_IPv4 | AF_IPv6

datatype ip_address = IPv4AddressImpl in_addr | IPv6AddressImpl in6_addr u32

text \<open>\<open>ntohl(_addr.s_addr)\<close> and its inverse.\<close>

fun ntohl :: "in_addr \<Rightarrow> u32" where
  "ntohl (In4 a b c d) =
     push_bit 24 (ucast a) OR push_bit 16 (ucast b) OR push_bit 8 (ucast c) OR ucast d"

definition to_network :: "u32 \<Rightarrow> in_addr" where
  "to_network w = In4 (ucast (drop_bit 24 w)) (ucast (drop_bit 16 w)) (ucast (drop_bit 8 w)) (ucast w)"

fun words6 :: "in6_addr \<Rightarrow> u16 list" where
  "words6 (In6 a b c d e f g h) = [a, b, c, d, e, f, g, h]"

fun in6_of :: "u16 list \<Rightarrow> in6_addr" where
  "in6_of [a, b, c, d, e, f, g, h] = In6 a b c d e f g h"
| "in6_of _ = In6 0 0 0 0 0 0 0 0"

definition word_bytes :: "u16 \<Rightarrow> u8 list" where
  "word_bytes w = [ucast (drop_bit 8 w), ucast w]"

definition empty4 :: in_addr where
  "empty4 = In4 0 0 0 0"

definition empty6 :: in6_addr where
  "empty6 = In6 0 0 0 0 0 0 0 0"

fun ip_family :: "ip_address \<Rightarrow> family" where
  "ip_family (IPv4AddressImpl _) = AF_IPv4"
| "ip_family (IPv6AddressImpl _ _) = AF_IPv6"

fun ip_scope :: "ip_address \<Rightarrow> u32" where
  "ip_scope (IPv4AddressImpl _) = 0"
| "ip_scope (IPv6AddressImpl _ s) = s"

text \<open>\<open>addr()\<close> with \<open>length()\<close>: the bytes of the address.\<close>

fun ip_addr :: "ip_address \<Rightarrow> u8 list" where
  "ip_addr (IPv4AddressImpl (In4 a b c d)) = [a, b, c, d]"
| "ip_addr (IPv6AddressImpl x _) = concat (map word_bytes (words6 x))"

fun ip_length :: "ip_address \<Rightarrow> nat" where
  "ip_length (IPv4AddressImpl _) = 4"
| "ip_length (IPv6AddressImpl _ _) = 16"

section \<open>Construction\<close>

definition IPAddress_family :: "family \<Rightarrow> ip_address" where
  "IPAddress_family f = (case f of AF_IPv4 \<Rightarrow> IPv4AddressImpl empty4 | AF_IPv6 \<Rightarrow> IPv6AddressImpl empty6 0)"

text \<open>The constructors from memory, of \<open>length\<close> bytes.\<close>

fun bytes_word :: "u8 \<Rightarrow> u8 \<Rightarrow> u16" where
  "bytes_word h l = push_bit 8 (ucast h) OR ucast l"

fun pair_words :: "u8 list \<Rightarrow> u16 list" where
  "pair_words (h # l # bs) = bytes_word h l # pair_words bs"
| "pair_words _ = []"

definition IPAddress_raw :: "u8 list \<Rightarrow> u32 \<Rightarrow> exn + ip_address" where
  "IPAddress_raw bs scope =
    (if length bs = 4 then Inr (IPv4AddressImpl (In4 (bs ! 0) (bs ! 1) (bs ! 2) (bs ! 3)))
     else if length bs = 16 then Inr (IPv6AddressImpl (in6_of (pair_words bs)) scope)
     else Inl (Poco InvalidArgumentException ''Invalid address length passed to IPAddress()'' 0))"

text \<open>The constructor from a prefix length. For IPv4 it is one shift of a 32-bit word.\<close>

definition IPv4_prefix :: "nat \<Rightarrow> in_addr" where
  "IPv4_prefix prefix = to_network (if prefix = 32 then 0xffffffff else NOT (drop_bit prefix 0xffffffff))"

text \<open>\<open>static_cast<UInt16>(~(0xffff >> prefix))\<close>: the shift is one of \<open>int\<close>.\<close>

definition prefix_word :: "nat \<Rightarrow> u16" where
  "prefix_word prefix = word_of_int (NOT (drop_bit prefix 0xffff))"

fun prefix_loop :: "nat \<Rightarrow> nat \<Rightarrow> u16 list" where
  "prefix_loop prefix i =
    (if 16 \<le> prefix then 0xffff # prefix_loop (prefix - 16) (i + 1)
     else if 0 < prefix then prefix_word prefix # replicate (8 - (i + 1)) 0
     else replicate (8 - i) 0)"

declare prefix_loop.simps [simp del]

definition IPv6_prefix :: "nat \<Rightarrow> in6_addr" where
  "IPv6_prefix prefix = in6_of (prefix_loop prefix 0)"

definition IPAddress_prefix :: "nat \<Rightarrow> family \<Rightarrow> exn + ip_address" where
  "IPAddress_prefix prefix f =
    (case f of
       AF_IPv4 \<Rightarrow> if prefix \<le> 32 then Inr (IPv4AddressImpl (IPv4_prefix prefix))
                else Inl (Poco InvalidArgumentException ''Invalid prefix length passed to IPAddress()'' 0)
     | AF_IPv6 \<Rightarrow> if prefix \<le> 128 then Inr (IPv6AddressImpl (IPv6_prefix prefix) 0)
                else Inl (Poco InvalidArgumentException ''Invalid prefix length passed to IPAddress()'' 0))"

text \<open>\<open>maskBits\<close>: the loop counts how often \<open>val\<close> can be halved.\<close>

function halvings :: "'a::len word \<Rightarrow> nat" where
  "halvings val = (if val = 0 then 0 else Suc (halvings (drop_bit 1 val)))"
  by pat_completeness auto
termination
proof (relation "measure unat")
  fix val :: "'a word" assume "val \<noteq> 0"
  then have "0 < unat val" by (simp add: unat_gt_0)
  then show "(drop_bit 1 val, val) \<in> measure unat" by (simp add: unat_drop_bit_eq drop_bit_eq_div unat_div)
qed simp

declare halvings.simps [simp del]

definition maskBits :: "'a::len word \<Rightarrow> nat \<Rightarrow> nat" where
  "maskBits val n = n - (if val \<noteq> 0 then halvings (drop_bit 1 (val XOR (val - 1))) else n)"

text \<open>The loop of \<open>prefixLength\<close> runs from the last word to the first.\<close>

fun prefix_scan :: "u16 list \<Rightarrow> nat \<Rightarrow> nat" where
  "prefix_scan [] bitPos = 0"
| "prefix_scan (w # ws) bitPos =
    (let bits = maskBits w 16 in
     if bits \<noteq> 0 then bitPos - (16 - bits) else prefix_scan ws (bitPos - 16))"

fun prefixLength :: "ip_address \<Rightarrow> nat" where
  "prefixLength (IPv4AddressImpl a) = maskBits (ntohl a) 32"
| "prefixLength (IPv6AddressImpl x _) = prefix_scan (rev (words6 x)) 128"

section \<open>Classification\<close>

text \<open>The predicates of \<open>IPv4AddressImpl\<close> on \<open>ntohl(_addr.s_addr)\<close>.\<close>

definition v4_isWildcard :: "in_addr \<Rightarrow> bool" where
  "v4_isWildcard a \<longleftrightarrow> ntohl a = 0"

definition v4_isBroadcast :: "in_addr \<Rightarrow> bool" where
  "v4_isBroadcast a \<longleftrightarrow> ntohl a = 0xffffffff"

definition v4_isLoopback :: "in_addr \<Rightarrow> bool" where
  "v4_isLoopback a \<longleftrightarrow> ntohl a AND 0xFF000000 = 0x7F000000"

definition v4_isMulticast :: "in_addr \<Rightarrow> bool" where
  "v4_isMulticast a \<longleftrightarrow> ntohl a AND 0xF0000000 = 0xE0000000"

definition v4_isLinkLocal :: "in_addr \<Rightarrow> bool" where
  "v4_isLinkLocal a \<longleftrightarrow> ntohl a AND 0xFFFF0000 = 0xA9FE0000"

definition v4_isSiteLocal :: "in_addr \<Rightarrow> bool" where
  "v4_isSiteLocal a \<longleftrightarrow> (let addr = ntohl a in
     addr AND 0xFF000000 = 0x0A000000 \<or> addr AND 0xFFFF0000 = 0xC0A80000
     \<or> (0xAC100000 \<le> addr \<and> addr \<le> 0xAC1FFFFF))"

definition v4_isWellKnownMC :: "in_addr \<Rightarrow> bool" where
  "v4_isWellKnownMC a \<longleftrightarrow> ntohl a AND 0xFFFFFF00 = 0xE0000000"

definition v4_isLinkLocalMC :: "in_addr \<Rightarrow> bool" where
  "v4_isLinkLocalMC a \<longleftrightarrow> ntohl a AND 0xFF000000 = 0xE0000000"

definition v4_isSiteLocalMC :: "in_addr \<Rightarrow> bool" where
  "v4_isSiteLocalMC a \<longleftrightarrow> ntohl a AND 0xFFFF0000 = 0xEFFF0000"

definition v4_isOrgLocalMC :: "in_addr \<Rightarrow> bool" where
  "v4_isOrgLocalMC a \<longleftrightarrow> ntohl a AND 0xFFFF0000 = 0xEFC00000"

definition v4_isGlobalMC :: "in_addr \<Rightarrow> bool" where
  "v4_isGlobalMC a \<longleftrightarrow> (let addr = ntohl a in 0xE0000100 \<le> addr \<and> addr \<le> 0xEE000000)"

text \<open>The predicates of \<open>IPv6AddressImpl\<close> on its words.\<close>

fun v6_isWildcard :: "in6_addr \<Rightarrow> bool" where
  "v6_isWildcard (In6 a b c d e f g h) \<longleftrightarrow>
     a = 0 \<and> b = 0 \<and> c = 0 \<and> d = 0 \<and> e = 0 \<and> f = 0 \<and> g = 0 \<and> h = 0"

fun v6_isLoopback :: "in6_addr \<Rightarrow> bool" where
  "v6_isLoopback (In6 a b c d e f g h) \<longleftrightarrow>
     a = 0 \<and> b = 0 \<and> c = 0 \<and> d = 0 \<and> e = 0 \<and> f = 0 \<and> g = 0 \<and> h = 1"

fun v6_isIPv4Compatible :: "in6_addr \<Rightarrow> bool" where
  "v6_isIPv4Compatible (In6 a b c d e f g h) \<longleftrightarrow> a = 0 \<and> b = 0 \<and> c = 0 \<and> d = 0 \<and> e = 0 \<and> f = 0"

fun v6_isIPv4Mapped :: "in6_addr \<Rightarrow> bool" where
  "v6_isIPv4Mapped (In6 a b c d e f g h) \<longleftrightarrow> a = 0 \<and> b = 0 \<and> c = 0 \<and> d = 0 \<and> e = 0 \<and> f = 0xFFFF"

text \<open>\<open>words[0]\<close>, which the other predicates test under a mask.\<close>

definition word0 :: "in6_addr \<Rightarrow> u16" where
  "word0 x = hd (words6 x)"

definition v6_isMulticast :: "in6_addr \<Rightarrow> bool" where
  "v6_isMulticast x \<longleftrightarrow> word0 x AND 0xFFE0 = 0xFF00"

definition v6_isLinkLocal :: "in6_addr \<Rightarrow> bool" where
  "v6_isLinkLocal x \<longleftrightarrow> word0 x AND 0xFFE0 = 0xFE80"

definition v6_isSiteLocal :: "in6_addr \<Rightarrow> bool" where
  "v6_isSiteLocal x \<longleftrightarrow> word0 x AND 0xFFE0 = 0xFEC0 \<or> word0 x AND 0xFF00 = 0xFC00"

definition v6_isWellKnownMC :: "in6_addr \<Rightarrow> bool" where
  "v6_isWellKnownMC x \<longleftrightarrow> word0 x AND 0xFFF0 = 0xFF00"

definition v6_isNodeLocalMC :: "in6_addr \<Rightarrow> bool" where
  "v6_isNodeLocalMC x \<longleftrightarrow> word0 x AND 0xFFEF = 0xFF01"

definition v6_isLinkLocalMC :: "in6_addr \<Rightarrow> bool" where
  "v6_isLinkLocalMC x \<longleftrightarrow> word0 x AND 0xFFEF = 0xFF02"

definition v6_isSiteLocalMC :: "in6_addr \<Rightarrow> bool" where
  "v6_isSiteLocalMC x \<longleftrightarrow> word0 x AND 0xFFEF = 0xFF05"

definition v6_isOrgLocalMC :: "in6_addr \<Rightarrow> bool" where
  "v6_isOrgLocalMC x \<longleftrightarrow> word0 x AND 0xFFEF = 0xFF08"

definition v6_isGlobalMC :: "in6_addr \<Rightarrow> bool" where
  "v6_isGlobalMC x \<longleftrightarrow> word0 x AND 0xFFEF = 0xFF0F"

text \<open>The predicates of \<open>IPAddress\<close>: calls of the virtual functions.\<close>

fun isWildcard :: "ip_address \<Rightarrow> bool" where
  "isWildcard (IPv4AddressImpl a) \<longleftrightarrow> v4_isWildcard a"
| "isWildcard (IPv6AddressImpl x _) \<longleftrightarrow> v6_isWildcard x"

fun isBroadcast :: "ip_address \<Rightarrow> bool" where
  "isBroadcast (IPv4AddressImpl a) \<longleftrightarrow> v4_isBroadcast a"
| "isBroadcast (IPv6AddressImpl _ _) \<longleftrightarrow> False"

fun isLoopback :: "ip_address \<Rightarrow> bool" where
  "isLoopback (IPv4AddressImpl a) \<longleftrightarrow> v4_isLoopback a"
| "isLoopback (IPv6AddressImpl x _) \<longleftrightarrow> v6_isLoopback x"

fun isMulticast :: "ip_address \<Rightarrow> bool" where
  "isMulticast (IPv4AddressImpl a) \<longleftrightarrow> v4_isMulticast a"
| "isMulticast (IPv6AddressImpl x _) \<longleftrightarrow> v6_isMulticast x"

definition isUnicast :: "ip_address \<Rightarrow> bool" where
  "isUnicast p \<longleftrightarrow> \<not> isWildcard p \<and> \<not> isBroadcast p \<and> \<not> isMulticast p"

fun isLinkLocal :: "ip_address \<Rightarrow> bool" where
  "isLinkLocal (IPv4AddressImpl a) \<longleftrightarrow> v4_isLinkLocal a"
| "isLinkLocal (IPv6AddressImpl x _) \<longleftrightarrow> v6_isLinkLocal x"

fun isSiteLocal :: "ip_address \<Rightarrow> bool" where
  "isSiteLocal (IPv4AddressImpl a) \<longleftrightarrow> v4_isSiteLocal a"
| "isSiteLocal (IPv6AddressImpl x _) \<longleftrightarrow> v6_isSiteLocal x"

fun isIPv4Compatible :: "ip_address \<Rightarrow> bool" where
  "isIPv4Compatible (IPv4AddressImpl _) \<longleftrightarrow> True"
| "isIPv4Compatible (IPv6AddressImpl x _) \<longleftrightarrow> v6_isIPv4Compatible x"

fun isIPv4Mapped :: "ip_address \<Rightarrow> bool" where
  "isIPv4Mapped (IPv4AddressImpl _) \<longleftrightarrow> True"
| "isIPv4Mapped (IPv6AddressImpl x _) \<longleftrightarrow> v6_isIPv4Mapped x"

fun isWellKnownMC :: "ip_address \<Rightarrow> bool" where
  "isWellKnownMC (IPv4AddressImpl a) \<longleftrightarrow> v4_isWellKnownMC a"
| "isWellKnownMC (IPv6AddressImpl x _) \<longleftrightarrow> v6_isWellKnownMC x"

fun isNodeLocalMC :: "ip_address \<Rightarrow> bool" where
  "isNodeLocalMC (IPv4AddressImpl a) \<longleftrightarrow> False"
| "isNodeLocalMC (IPv6AddressImpl x _) \<longleftrightarrow> v6_isNodeLocalMC x"

fun isLinkLocalMC :: "ip_address \<Rightarrow> bool" where
  "isLinkLocalMC (IPv4AddressImpl a) \<longleftrightarrow> v4_isLinkLocalMC a"
| "isLinkLocalMC (IPv6AddressImpl x _) \<longleftrightarrow> v6_isLinkLocalMC x"

fun isSiteLocalMC :: "ip_address \<Rightarrow> bool" where
  "isSiteLocalMC (IPv4AddressImpl a) \<longleftrightarrow> v4_isSiteLocalMC a"
| "isSiteLocalMC (IPv6AddressImpl x _) \<longleftrightarrow> v6_isSiteLocalMC x"

fun isOrgLocalMC :: "ip_address \<Rightarrow> bool" where
  "isOrgLocalMC (IPv4AddressImpl a) \<longleftrightarrow> v4_isOrgLocalMC a"
| "isOrgLocalMC (IPv6AddressImpl x _) \<longleftrightarrow> v6_isOrgLocalMC x"

fun isGlobalMC :: "ip_address \<Rightarrow> bool" where
  "isGlobalMC (IPv4AddressImpl a) \<longleftrightarrow> v4_isGlobalMC a"
| "isGlobalMC (IPv6AddressImpl x _) \<longleftrightarrow> v6_isGlobalMC x"

section \<open>Printing\<close>

fun IPv4_toString :: "in_addr \<Rightarrow> string" where
  "IPv4_toString (In4 a b c d) =
     dec_nat (unat a) @ ''.'' @ dec_nat (unat b) @ ''.'' @ dec_nat (unat c) @ ''.'' @ dec_nat (unat d)"

text \<open>\<open>NumberFormatter::appendHex\<close>: \<open>uIntToStr\<close> with base 16, upper case, no padding.\<close>

definition hex_char :: "nat \<Rightarrow> char" where
  "hex_char d = ''0123456789ABCDEF'' ! d"

fun hex_nat :: "nat \<Rightarrow> string" where
  "hex_nat n = (if n < 16 then [hex_char n] else hex_nat (n div 16) @ [hex_char (n mod 16)])"

declare hex_nat.simps [simp del]

definition Ascii_toLower :: "char \<Rightarrow> char" where
  "Ascii_toLower c = (if 65 \<le> (of_char c :: nat) \<and> (of_char c :: nat) \<le> 90
     then char_of (of_char c + 32 :: nat) else c)"

definition toLower :: "string \<Rightarrow> string" where
  "toLower s = map Ascii_toLower s"

text \<open>\<open>while (zi < 8 && words[zi] == 0) ++zi\<close>\<close>

function zero_end :: "u16 list \<Rightarrow> nat \<Rightarrow> nat" where
  "zero_end words zi = (if zi < 8 \<and> words ! zi = 0 then zero_end words (zi + 1) else zi)"
  by pat_completeness auto
termination by (relation "measure (\<lambda>(_, zi). 8 - zi)") auto

declare zero_end.simps [simp del]

lemma zero_end_ge: "i \<le> zero_end words i"
  by (induction words i rule: zero_end.induct) (subst zero_end.simps, auto)

text \<open>The loop over the words, from index \<open>i\<close>, and what it appends to \<open>result\<close>.\<close>

function v6_groups :: "u16 list \<Rightarrow> nat \<Rightarrow> bool \<Rightarrow> string" where
  "v6_groups words i zeroSequence =
    (if i < 8 then
       let zi = zero_end words i;
           skip = \<not> zeroSequence \<and> words ! i = 0 \<and> i + 1 < zi;
           j = (if skip then zi else i)
       in (if skip then '':'' else []) @ (if 0 < j then '':'' else [])
          @ (if j < 8 then hex_nat (unat (words ! j)) @ v6_groups words (j + 1) (zeroSequence \<or> skip)
             else [])
     else [])"
  by pat_completeness auto
termination
proof (relation "measure (\<lambda>(_, i, _). 8 - i)", simp)
  fix words :: "u16 list" and i z x xa xb
  assume a: "i < 8" "x = zero_end words i" "xb = (if xa then x else i)"
  then have "i \<le> xb" using zero_end_ge [of i words] by simp
  with a(1) show "((words, xb + 1, z \<or> xa), words, i, z) \<in> measure (\<lambda>(_, i, _). 8 - i)" by simp
qed

declare v6_groups.simps [simp del]

definition IPv6_toString :: "in6_addr \<Rightarrow> u32 \<Rightarrow> string" where
  "IPv6_toString x scope =
    (if (v6_isIPv4Compatible x \<and> \<not> v6_isLoopback x) \<or> v6_isIPv4Mapped x then
       (let bytes = concat (map word_bytes (words6 x)) in
        (if words6 x ! 5 = 0 then ''::'' else ''::ffff:'')
        @ (if bytes ! 12 \<noteq> 0 then dec_nat (unat (bytes ! 12)) @ ''.'' @ dec_nat (unat (bytes ! 13)) @ ''.''
             @ dec_nat (unat (bytes ! 14)) @ ''.'' @ dec_nat (unat (bytes ! 15)) else []))
     else toLower (v6_groups (words6 x) 0 False
        @ (if 0 < scope then ''%'' @ dec_nat (unat scope) else [])))"

fun IPAddress_toString :: "ip_address \<Rightarrow> string" where
  "IPAddress_toString (IPv4AddressImpl a) = IPv4_toString a"
| "IPAddress_toString (IPv6AddressImpl x scope) = IPv6_toString x scope"

section \<open>Parsing\<close>

text \<open>\<open>trim\<close> of \<open>String.h\<close> with \<open>Ascii::isSpace\<close>.\<close>

definition trim :: "string \<Rightarrow> string" where
  "trim s = rev (dropWhile isSpace (rev (dropWhile isSpace s)))"

text \<open>
  What the system offers: \<open>inet_addr\<close>, whose failure value \<open>INADDR_NONE\<close> is also the value of
  255.255.255.255, and \<open>getaddrinfo\<close> with \<open>AI_NUMERICHOST\<close> and no address family, which answers
  with an IPv4 or an IPv6 address.
\<close>

datatype addrinfo = AI_inet in_addr | AI_inet6 in6_addr u32

record resolver =
  inet_addr :: "string \<Rightarrow> in_addr"
  getaddrinfo_numeric :: "string \<Rightarrow> addrinfo option"

definition INADDR_NONE :: in_addr where
  "INADDR_NONE = In4 255 255 255 255"

definition IPv4_parse :: "resolver \<Rightarrow> string \<Rightarrow> in_addr" where
  "IPv4_parse R addr =
    (if addr = [] then empty4
     else let ia = inet_addr R addr in
       if ia = INADDR_NONE \<and> addr \<noteq> ''255.255.255.255'' then empty4 else ia)"

text \<open>
  \<open>ai_addr\<close> is read as a \<open>sockaddr_in6\<close> without a look at its family: a \<open>sockaddr_in\<close> has 16
  bytes, of which \<open>sin6_addr\<close> would be the bytes 8 to 23.
\<close>

definition IPv6_parse :: "resolver \<Rightarrow> string \<Rightarrow> exn + (in6_addr \<times> u32)" where
  "IPv6_parse R addr =
    (if addr = [] then Inr (empty6, 0)
     else (case getaddrinfo_numeric R addr of
             Some (AI_inet6 x scope) \<Rightarrow> Inr (x, scope)
           | Some (AI_inet _) \<Rightarrow> Inl (UB ''read past the end of a sockaddr_in'')
           | None \<Rightarrow> Inr (empty6, 0)))"

definition IPAddress_string :: "resolver \<Rightarrow> string \<Rightarrow> exn + ip_address" where
  "IPAddress_string R addr =
    (if addr = [] \<or> trim addr = ''0.0.0.0'' then Inr (IPv4AddressImpl empty4)
     else let addr4 = IPv4_parse R addr in
       if addr4 \<noteq> empty4 then Inr (IPv4AddressImpl addr4)
       else if trim addr = ''::'' then Inr (IPv6AddressImpl empty6 0)
       else (case IPv6_parse R addr of
               Inl e \<Rightarrow> Inl e
             | Inr (addr6, scope) \<Rightarrow>
                 if (addr6, scope) \<noteq> (empty6, 0) then Inr (IPv6AddressImpl addr6 scope)
                 else Inl (Poco InvalidAddressException addr 0)))"

definition IPAddress_string_family :: "resolver \<Rightarrow> string \<Rightarrow> family \<Rightarrow> exn + ip_address" where
  "IPAddress_string_family R addr f =
    (case f of
       AF_IPv4 \<Rightarrow> Inr (IPv4AddressImpl (IPv4_parse R addr))
     | AF_IPv6 \<Rightarrow> (case IPv6_parse R addr of
                    Inl e \<Rightarrow> Inl e
                  | Inr (x, scope) \<Rightarrow> Inr (IPv6AddressImpl x scope)))"

text \<open>\<open>tryParse\<close>: \<open>None\<close> is the answer \<open>false\<close>, which leaves the result alone.\<close>

definition tryParse :: "resolver \<Rightarrow> string \<Rightarrow> exn + ip_address option" where
  "tryParse R addr =
    (let impl4 = IPv4_parse R addr in
     if impl4 \<noteq> empty4 \<or> trim addr = ''0.0.0.0'' then Inr (Some (IPv4AddressImpl impl4))
     else (case IPv6_parse R addr of
             Inl e \<Rightarrow> Inl e
           | Inr (impl6, scope) \<Rightarrow>
               if (impl6, scope) \<noteq> (empty6, 0) then Inr (Some (IPv6AddressImpl impl6 scope))
               else Inr None))"

section \<open>Masks and bit operations\<close>

fun map4 :: "(u8 \<Rightarrow> u8 \<Rightarrow> u8) \<Rightarrow> in_addr \<Rightarrow> in_addr \<Rightarrow> in_addr" where
  "map4 op (In4 a b c d) (In4 a' b' c' d') = In4 (op a a') (op b b') (op c c') (op d d')"

definition IPv4_mask :: "in_addr \<Rightarrow> in_addr \<Rightarrow> in_addr \<Rightarrow> in_addr" where
  "IPv4_mask a m s = map4 (OR) (map4 (AND) a m) (map4 (\<lambda>x y. x AND NOT y) s m)"

text \<open>The member functions \<open>mask\<close>; an IPv6 address does not support them.\<close>

fun IPAddress_mask :: "ip_address \<Rightarrow> ip_address \<Rightarrow> ip_address \<Rightarrow> exn + ip_address" where
  "IPAddress_mask (IPv4AddressImpl a) (IPv4AddressImpl m) (IPv4AddressImpl s) =
     Inr (IPv4AddressImpl (IPv4_mask a m s))"
| "IPAddress_mask (IPv4AddressImpl _) _ _ =
     Inl (Poco AssertionViolationException ''pMask->af() == AF_INET && pSet->af() == AF_INET'' 0)"
| "IPAddress_mask (IPv6AddressImpl _ _) _ _ =
     Inl (Poco NotImplementedException ''mask() is only supported for IPv4 addresses'' 0)"

definition IPAddress_mask1 :: "ip_address \<Rightarrow> ip_address \<Rightarrow> exn + ip_address" where
  "IPAddress_mask1 p m = IPAddress_mask p m (IPv4AddressImpl empty4)"

fun map6 :: "(u16 \<Rightarrow> u16 \<Rightarrow> u16) \<Rightarrow> in6_addr \<Rightarrow> in6_addr \<Rightarrow> in6_addr" where
  "map6 op (In6 a b c d e f g h) (In6 a' b' c' d' e' f' g' h') =
     In6 (op a a') (op b b') (op c c') (op d d') (op e e') (op f f') (op g g') (op h h')"

definition scope_text :: string where
  "scope_text = ''Scope ID of passed IPv6 address does not match with the source one.''"

definition family_text :: string where
  "family_text = ''Invalid or unsupported address family passed to IPAddress()''"

fun IPAddress_and :: "ip_address \<Rightarrow> ip_address \<Rightarrow> exn + ip_address" where
  "IPAddress_and (IPv4AddressImpl a) (IPv4AddressImpl b) = Inr (IPv4AddressImpl (map4 (AND) a b))"
| "IPAddress_and (IPv6AddressImpl x s) (IPv6AddressImpl y t) =
     (if s \<noteq> t then Inl (Poco InvalidArgumentException scope_text 0)
      else Inr (IPv6AddressImpl (map6 (AND) x y) s))"
| "IPAddress_and _ _ = Inl (Poco InvalidArgumentException family_text 0)"

fun IPAddress_or :: "ip_address \<Rightarrow> ip_address \<Rightarrow> exn + ip_address" where
  "IPAddress_or (IPv4AddressImpl a) (IPv4AddressImpl b) = Inr (IPv4AddressImpl (map4 (OR) a b))"
| "IPAddress_or (IPv6AddressImpl x s) (IPv6AddressImpl y t) =
     (if s \<noteq> t then Inl (Poco InvalidArgumentException scope_text 0)
      else Inr (IPv6AddressImpl (map6 (OR) x y) s))"
| "IPAddress_or _ _ = Inl (Poco InvalidArgumentException family_text 0)"

text \<open>The message of \<open>^\<close> has one more blank.\<close>

fun IPAddress_xor :: "ip_address \<Rightarrow> ip_address \<Rightarrow> exn + ip_address" where
  "IPAddress_xor (IPv4AddressImpl a) (IPv4AddressImpl b) = Inr (IPv4AddressImpl (map4 (XOR) a b))"
| "IPAddress_xor (IPv6AddressImpl x s) (IPv6AddressImpl y t) =
     (if s \<noteq> t then Inl (Poco InvalidArgumentException
        ''Scope ID of passed IPv6 address does not match  with the source one.'' 0)
      else Inr (IPv6AddressImpl (map6 (XOR) x y) s))"
| "IPAddress_xor _ _ = Inl (Poco InvalidArgumentException family_text 0)"

fun IPAddress_not :: "ip_address \<Rightarrow> ip_address" where
  "IPAddress_not (IPv4AddressImpl a) = IPv4AddressImpl (map4 (XOR) a INADDR_NONE)"
| "IPAddress_not (IPv6AddressImpl x s) =
     IPv6AddressImpl (map6 (XOR) x (In6 0xffff 0xffff 0xffff 0xffff 0xffff 0xffff 0xffff 0xffff)) s"

section \<open>Comparison\<close>

fun memcmp :: "u8 list \<Rightarrow> u8 list \<Rightarrow> int" where
  "memcmp (x # xs) (y # ys) = (if x < y then - 1 else if y < x then 1 else memcmp xs ys)"
| "memcmp _ _ = 0"

definition ip_eq :: "ip_address \<Rightarrow> ip_address \<Rightarrow> bool" where
  "ip_eq p q = (if ip_length p = ip_length q then
       if ip_scope p \<noteq> ip_scope q then False else memcmp (ip_addr p) (ip_addr q) = 0
     else False)"

definition ip_less :: "ip_address \<Rightarrow> ip_address \<Rightarrow> bool" where
  "ip_less p q = (if ip_length p = ip_length q then
       if ip_scope p \<noteq> ip_scope q then ip_scope p < ip_scope q else memcmp (ip_addr p) (ip_addr q) < 0
     else ip_length p < ip_length q)"

definition ip_less_eq :: "ip_address \<Rightarrow> ip_address \<Rightarrow> bool" where
  "ip_less_eq p q \<longleftrightarrow> \<not> ip_less q p"

definition ip_greater :: "ip_address \<Rightarrow> ip_address \<Rightarrow> bool" where
  "ip_greater p q \<longleftrightarrow> ip_less q p"

definition ip_greater_eq :: "ip_address \<Rightarrow> ip_address \<Rightarrow> bool" where
  "ip_greater_eq p q \<longleftrightarrow> \<not> ip_less p q"

section \<open>The binary form\<close>

definition MAX_ADDRESS_LENGTH :: nat where
  "MAX_ADDRESS_LENGTH = 16"

definition write_ip :: "ip_address \<Rightarrow> u8 list" where
  "write_ip p = of_nat (ip_length p) # ip_addr p"

text \<open>
  The reader takes the length from the stream and reads that many bytes, or all there are, into a
  buffer of \<open>MAX_ADDRESS_LENGTH\<close>. A stream that ends early leaves the length or the buffer
  indeterminate.
\<close>

definition read_ip :: "u8 list \<Rightarrow> exn + ip_address \<times> u8 list" where
  "read_ip stream = (case stream of
       [] \<Rightarrow> Inl (UB ''use of an indeterminate length'')
     | l # rest \<Rightarrow>
         let n = unat l; got = min n (length rest) in
         if MAX_ADDRESS_LENGTH < got then Inl (UB ''write past the end of buf'')
         else if got < n \<and> (n = 4 \<or> n = 16) then Inl (UB ''use of indeterminate bytes'')
         else (case IPAddress_raw (take n rest @ replicate (n - got) 0) 0 of
                 Inl e \<Rightarrow> Inl e
               | Inr p \<Rightarrow> Inr (p, drop n rest)))"

section \<open>The order\<close>

lemma word_bytes_inject [simp]: "word_bytes v = word_bytes w \<longleftrightarrow> v = w"
proof
  assume a: "word_bytes v = word_bytes w"
  show "v = w"
  proof (rule bit_word_eqI)
    fix n assume "n < LENGTH(16)"
    moreover from a have "bit (ucast (drop_bit 8 v) :: u8) k = bit (ucast (drop_bit 8 w) :: u8) k"
      "bit (ucast v :: u8) k = bit (ucast w :: u8) k" for k by (simp_all add: word_bytes_def)
    ultimately show "bit v n = bit w n"
    proof (cases "n < 8")
      case True
      with \<open>bit (ucast v :: u8) n = bit (ucast w :: u8) n\<close> show ?thesis
        by (simp add: bit_simps)
    next
      case False
      then have "n - 8 < 8 \<longleftrightarrow> n < 16" "8 + (n - 8) = n" by auto
      with False \<open>bit (ucast (drop_bit 8 v) :: u8) (n - 8) = bit (ucast (drop_bit 8 w) :: u8) (n - 8)\<close>
        \<open>n < LENGTH(16)\<close> show ?thesis
        by (auto simp: bit_simps)
    qed
  qed
qed simp

lemma word_bytes_length [simp]: "length (word_bytes w) = 2"
  by (simp add: word_bytes_def)

lemma ip_addr_length [simp]: "length (ip_addr p) = ip_length p"
  by (cases p rule: ip_addr.cases; cases "case p of IPv6AddressImpl x _ \<Rightarrow> x" rule: words6.cases) auto

lemma words6_bytes:
  "concat (map word_bytes (words6 x)) = concat (map word_bytes (words6 y)) \<longleftrightarrow> x = y"
proof (cases x; cases y)
  fix a b c d e f g h a' b' c' d' e' f' g' h'
  assume "x = In6 a b c d e f g h" "y = In6 a' b' c' d' e' f' g' h'"
  then show ?thesis
    using word_bytes_inject [of a a'] word_bytes_inject [of b b'] word_bytes_inject [of c c']
      word_bytes_inject [of d d'] word_bytes_inject [of e e'] word_bytes_inject [of f f']
      word_bytes_inject [of g g'] word_bytes_inject [of h h']
    by (simp add: append_eq_append_conv)
qed

lemma memcmp_eq: "length xs = length ys \<Longrightarrow> memcmp xs ys = 0 \<longleftrightarrow> xs = ys"
  by (induction xs ys rule: memcmp.induct) auto

lemma memcmp_less: "length xs = length ys \<Longrightarrow> memcmp xs ys < 0 \<longleftrightarrow> xs < ys"
  by (induction xs ys rule: memcmp.induct) auto

text \<open>The key whose lexicographic order \<open>operator <\<close> is.\<close>

definition ip_key :: "ip_address \<Rightarrow> nat \<times> u32 \<times> u8 list" where
  "ip_key p = (ip_length p, ip_scope p, ip_addr p)"

lemma ip_key_inject [simp]: "ip_key p = ip_key q \<longleftrightarrow> p = q"
proof (cases p; cases q)
  fix a b assume "p = IPv4AddressImpl a" "q = IPv4AddressImpl b"
  then show ?thesis by (cases a; cases b) (simp add: ip_key_def)
qed (auto simp: ip_key_def words6_bytes)

lemma ip_less_key: "ip_less p q \<longleftrightarrow> ip_key p < ip_key q"
  by (auto simp: ip_less_def ip_key_def memcmp_less)

lemma ip_less_eq_key: "ip_less_eq p q \<longleftrightarrow> ip_key p \<le> ip_key q"
  by (auto simp: ip_less_eq_def ip_less_key)

instantiation ip_address :: linorder
begin

definition less_ip_address :: "ip_address \<Rightarrow> ip_address \<Rightarrow> bool" where
  "less_ip_address = ip_less"

definition less_eq_ip_address :: "ip_address \<Rightarrow> ip_address \<Rightarrow> bool" where
  "less_eq_ip_address = ip_less_eq"

instance
  by intro_classes
    (use linear in \<open>auto simp: less_ip_address_def less_eq_ip_address_def ip_less_key ip_less_eq_key
       less_le_not_le dest: order.antisym intro: order.trans\<close>)

end

text \<open>C36: The comparison operators of \<open>IPAddress\<close> agree with each other: \<open>==\<close> is equality of family,
  scope and bytes, \<open><\<close> is a strict total order and the other four are derived from it, so addresses can
  serve as keys; an IPv4 address is below every IPv6 address.\<close>

theorem ip_operators_consistent:
  "(ip_eq p q \<longleftrightarrow> p = q)
   \<and> (ip_less_eq p q \<longleftrightarrow> ip_less p q \<or> p = q) \<and> (ip_greater p q \<longleftrightarrow> ip_less q p)
   \<and> (ip_greater_eq p q \<longleftrightarrow> ip_less_eq q p)
   \<and> \<not> (ip_less p q \<and> ip_less q p) \<and> (ip_less p q \<or> p = q \<or> ip_less q p)
   \<and> \<not> (ip_less p q \<and> ip_less q r \<and> \<not> ip_less p r)
   \<and> ip_less (IPv4AddressImpl a) (IPv6AddressImpl x scope)"
proof -
  have "ip_eq p q \<longleftrightarrow> p = q"
    by (auto simp: ip_eq_def memcmp_eq ip_key_inject [symmetric] ip_key_def simp del: ip_key_inject)
  moreover have "ip_less_eq p q \<longleftrightarrow> ip_less p q \<or> p = q"
    using le_less [of "ip_key p" "ip_key q"] by (simp add: ip_less_key ip_less_eq_key)
  moreover have "\<not> (ip_less p q \<and> ip_less q p)" "\<not> (ip_less p q \<and> ip_less q r \<and> \<not> ip_less p r)"
    unfolding ip_less_key by (auto dest: order.strict_trans)
  moreover have "ip_less p q \<or> p = q \<or> ip_less q p"
    using less_linear [of "ip_key p" "ip_key q"] by (simp add: ip_less_key)
  moreover have "ip_less (IPv4AddressImpl a) (IPv6AddressImpl x scope)" by (simp add: ip_less_def)
  ultimately show ?thesis by (auto simp: ip_greater_def ip_greater_eq_def ip_less_eq_def)
qed

section \<open>Prefixes and masks\<close>

lemma prefix4_parts:
  "\<forall>n \<in> set [0..<11]. maskBits (ntohl (IPv4_prefix n)) 32 = n"
  "\<forall>n \<in> set [11..<18]. maskBits (ntohl (IPv4_prefix n)) 32 = n"
  "\<forall>n \<in> set [18..<26]. maskBits (ntohl (IPv4_prefix n)) 32 = n"
  "\<forall>n \<in> set [26..<33]. maskBits (ntohl (IPv4_prefix n)) 32 = n"
  by code_simp+

lemma prefix4_all: "\<forall>n \<in> set [0..<33]. maskBits (ntohl (IPv4_prefix n)) 32 = n"
proof
  fix n assume "n \<in> set [0..<33]"
  then have "n < 33" by simp
  then have "n \<in> set [0..<11] \<or> n \<in> set [11..<18] \<or> n \<in> set [18..<26] \<or> n \<in> set [26..<33]"
    unfolding set_upt atLeastLessThan_iff by presburger
  with prefix4_parts show "maskBits (ntohl (IPv4_prefix n)) 32 = n" by blast
qed

lemma prefix6_all: "\<forall>n \<in> set [0..<129]. prefix_scan (rev (words6 (IPv6_prefix n))) 128 = n"
  by code_simp

lemma prefix4_mask: "\<forall>n \<in> set [0..<33]. ntohl (IPv4_prefix n) = NOT (mask (32 - n))"
  by code_simp

text \<open>The prefix constructor and \<open>prefixLength\<close> are inverse: for each family every length up to the
  number of bits gives a mask whose prefix length is that length, a larger one throws.\<close>

theorem prefix_roundtrip:
  "map_sum id prefixLength (IPAddress_prefix n f) =
     (if n \<le> (case f of AF_IPv4 \<Rightarrow> 32 | AF_IPv6 \<Rightarrow> 128) then Inr n
      else Inl (Poco InvalidArgumentException ''Invalid prefix length passed to IPAddress()'' 0))"
proof (cases f)
  case AF_IPv4
  then show ?thesis using prefix4_all [rule_format, of n] by (simp add: IPAddress_prefix_def)
next
  case AF_IPv6
  then show ?thesis using prefix6_all [rule_format, of n] by (simp add: IPAddress_prefix_def)
qed

lemma ntohl_bit:
  "bit (ntohl (In4 a b c d)) k \<longleftrightarrow>
     (if k < 8 then bit d k else if k < 16 then bit c (k - 8) else if k < 24 then bit b (k - 16)
      else k < 32 \<and> bit a (k - 24))"
proof -
  have out: "8 \<le> j \<Longrightarrow> \<not> bit x j" for x :: u8 and j
    using bit_imp_le_length [of x j] by auto
  show ?thesis
    by (cases "k < 32") (auto simp: bit_simps out)
qed

lemma ntohl_map4:
  assumes "\<And>x y k. k < 8 \<Longrightarrow> bit (op x y) k = f (bit x k) (bit y k)"
    and "\<And>x y k. k < 32 \<Longrightarrow> bit (op' x y) k = f (bit x k) (bit y k)"
  shows "ntohl (map4 op a b) = op' (ntohl a) (ntohl b)"
proof (rule bit_word_eqI)
  fix k assume k: "k < LENGTH(32)"
  obtain a1 a2 a3 a4 b1 b2 b3 b4 where "a = In4 a1 a2 a3 a4" "b = In4 b1 b2 b3 b4"
    by (cases a; cases b)
  with k show "bit (ntohl (map4 op a b)) k = bit (op' (ntohl a) (ntohl b)) k"
    by (simp add: ntohl_bit assms del: ntohl.simps)
qed

lemma ntohl_bitwise:
  "ntohl (map4 (AND) a b) = ntohl a AND ntohl b"
  "ntohl (map4 (OR) a b) = ntohl a OR ntohl b"
  "ntohl (map4 (\<lambda>x y. x AND NOT y) a b) = ntohl a AND NOT (ntohl b)"
  by (rule ntohl_map4 [where f = "(\<and>)"]; simp add: bit_simps)
    (rule ntohl_map4 [where f = "(\<or>)"] ntohl_map4 [where f = "\<lambda>x y. x \<and> \<not> y"]; simp add: bit_simps)+

text \<open>\<open>mask\<close> is what its documentation says, on the value of the address, and with a prefix mask
  it keeps the network part: the first \<open>n\<close> bits stay, the others come from \<open>set\<close>, or are 0 for the
  overload without it.\<close>

theorem mask_network:
  assumes "n \<le> 32"
  shows "(\<exists>b. IPAddress_mask (IPv4AddressImpl a) (IPv4AddressImpl (IPv4_prefix n)) (IPv4AddressImpl s) =
       Inr (IPv4AddressImpl b)
     \<and> ntohl b = push_bit (32 - n) (drop_bit (32 - n) (ntohl a)) OR take_bit (32 - n) (ntohl s))
   \<and> (\<exists>b. IPAddress_mask1 (IPv4AddressImpl a) (IPv4AddressImpl (IPv4_prefix n)) = Inr (IPv4AddressImpl b)
     \<and> ntohl b = push_bit (32 - n) (drop_bit (32 - n) (ntohl a)))"
proof -
  have m: "ntohl (IPv4_prefix n) = NOT (mask (32 - n))"
    using prefix4_mask assms by simp
  have keep: "w AND NOT (mask k) = push_bit k (drop_bit k w)" "w AND mask k = take_bit k w"
    for w :: u32 and k
    by (auto intro!: bit_word_eqI simp: bit_simps)
  have "ntohl (IPv4_mask a (IPv4_prefix n) s) =
      push_bit (32 - n) (drop_bit (32 - n) (ntohl a)) OR take_bit (32 - n) (ntohl s)" for s
    by (simp add: IPv4_mask_def ntohl_bitwise m keep)
  moreover have "ntohl empty4 = 0" by (simp add: empty4_def)
  ultimately show ?thesis
    by (simp_all add: IPAddress_mask1_def)
qed

theorem mask_network_witness:
  "\<exists>b. IPAddress_mask1 (IPv4AddressImpl (In4 192 168 7 9)) (IPv4AddressImpl (IPv4_prefix 16)) =
      Inr (IPv4AddressImpl b) \<and> ntohl b = 0xC0A80000"
  using mask_network [of 16 "In4 192 168 7 9"] by simp

section \<open>The binary form, again\<close>

lemma bytes_word_bytes: "bytes_word (ucast (drop_bit 8 w)) (ucast w) = (w :: u16)"
  by (rule bit_word_eqI) (auto simp: bit_simps)

lemma in6_of_bytes: "in6_of (pair_words (concat (map word_bytes (words6 x)))) = x"
  by (cases x) (simp add: word_bytes_def bytes_word_bytes del: bytes_word.simps)

lemma raw_addr: "IPAddress_raw (ip_addr p) s =
  Inr (case p of IPv4AddressImpl a \<Rightarrow> p | IPv6AddressImpl x _ \<Rightarrow> IPv6AddressImpl x s)"
proof (cases p)
  case (IPv4AddressImpl a)
  then show ?thesis by (cases a) (simp add: IPAddress_raw_def)
next
  case (IPv6AddressImpl x t)
  then show ?thesis
    using ip_addr_length [of p] by (simp add: IPAddress_raw_def in6_of_bytes del: ip_addr_length)
qed

text \<open>The binary form of an address reads back as the address, without its scope, and the rest of
  the stream is left. But the reader trusts the length it reads: on a stream whose first byte is more
  than 16 and that holds more than 16 bytes after it, it writes past its buffer.\<close>

theorem ip_binary:
  "read_ip (write_ip p @ rest) =
     Inr (case p of IPv4AddressImpl a \<Rightarrow> p | IPv6AddressImpl x _ \<Rightarrow> IPv6AddressImpl x 0, rest)
   \<and> (16 < length data \<and> 16 < unat l \<longrightarrow> read_ip (l # data) = Inl (UB ''write past the end of buf''))"
proof -
  have "unat (of_nat (ip_length p) :: u8) = ip_length p" by (cases p) simp_all
  moreover have "ip_length p \<le> 16" by (cases p) simp_all
  ultimately show ?thesis
    by (simp add: read_ip_def write_ip_def MAX_ADDRESS_LENGTH_def raw_addr Let_def)
qed

theorem ip_binary_witness:
  "read_ip (17 # replicate 17 0) = Inl (UB ''write past the end of buf'')"
  using ip_binary [of undefined undefined "replicate 17 0" 17] by simp

section \<open>Dotted quads\<close>

text \<open>The parts of a text between separators.\<close>

fun tokens :: "char \<Rightarrow> string \<Rightarrow> string list" where
  "tokens sep [] = [[]]"
| "tokens sep (c # cs) =
    (if c = sep then [] # tokens sep cs else (c # hd (tokens sep cs)) # tl (tokens sep cs))"

lemma tokens_not_Nil [simp]: "tokens sep s \<noteq> []"
  by (cases s) simp_all

lemma tokens_sep: "sep \<notin> set x \<Longrightarrow> tokens sep (x @ sep # y) = x # tokens sep y"
  by (induction x) auto

lemma tokens_one: "sep \<notin> set x \<Longrightarrow> tokens sep x = [x]"
  by (induction x) auto

text \<open>
  The documented format that \<open>inet_addr\<close> reads: four decimal bytes between dots. A leading zero
  would make a part octal, so a part has none; other texts are left open.
\<close>

definition byte_text :: "string \<Rightarrow> bool" where
  "byte_text t \<longleftrightarrow> t \<noteq> [] \<and> list_all is_digit t \<and> (hd t = CHR ''0'' \<longrightarrow> t = ''0'') \<and> dec_value t \<le> 255"

definition reads_quads :: "resolver \<Rightarrow> bool" where
  "reads_quads R \<longleftrightarrow> (\<forall>a b c d. byte_text a \<and> byte_text b \<and> byte_text c \<and> byte_text d \<longrightarrow>
     inet_addr R (a @ ''.'' @ b @ ''.'' @ c @ ''.'' @ d) =
       In4 (of_nat (dec_value a)) (of_nat (dec_value b)) (of_nat (dec_value c)) (of_nat (dec_value d)))"

text \<open>An \<open>inet_addr\<close> that reads this format and nothing with a colon in it.\<close>

definition sample_inet_addr :: "string \<Rightarrow> in_addr" where
  "sample_inet_addr s = (if CHR '':'' \<in> set s then INADDR_NONE else
    case map dec_value (tokens CHR ''.'' s) of
      [a, b, c, d] \<Rightarrow> In4 (of_nat a) (of_nat b) (of_nat c) (of_nat d)
    | _ \<Rightarrow> INADDR_NONE)"

lemma digit_no_sep:
  assumes "list_all is_digit t"
  shows "CHR ''.'' \<notin> set t" "CHR '':'' \<notin> set t"
  using assms by (auto simp: list_all_iff is_digit_def)

lemma sample_reads_quads: "reads_quads (R\<lparr>inet_addr := sample_inet_addr\<rparr>)"
  unfolding reads_quads_def
proof (intro allI impI)
  fix a b c d
  assume "byte_text a \<and> byte_text b \<and> byte_text c \<and> byte_text d"
  then have t: "list_all is_digit a" "list_all is_digit b" "list_all is_digit c" "list_all is_digit d"
    by (simp_all add: byte_text_def)
  have "tokens CHR ''.'' (a @ ''.'' @ b @ ''.'' @ c @ ''.'' @ d) = [a, b, c, d]"
    using digit_no_sep(1) [OF t(1)] digit_no_sep(1) [OF t(2)] digit_no_sep(1) [OF t(3)] digit_no_sep(1) [OF t(4)]
    by (simp add: tokens_sep tokens_one)
  moreover have "CHR '':'' \<notin> set (a @ ''.'' @ b @ ''.'' @ c @ ''.'' @ d)"
    using t by (simp add: digit_no_sep(2))
  ultimately show "inet_addr (R\<lparr>inet_addr := sample_inet_addr\<rparr>) (a @ ''.'' @ b @ ''.'' @ c @ ''.'' @ d) =
      In4 (of_nat (dec_value a)) (of_nat (dec_value b)) (of_nat (dec_value c)) (of_nat (dec_value d))"
    by (simp add: sample_inet_addr_def)
qed

lemma dec_nat_no_zero: "hd (dec_nat n) = CHR ''0'' \<Longrightarrow> dec_nat n = ''0''"
proof (induction n rule: dec_nat.induct)
  case (1 n)
  show ?case
  proof (cases "n < 10")
    case True
    with "1.prems" show ?thesis by (simp add: dec_nat.simps [of n])
  next
    case False
    with 1 have "dec_nat (n div 10) = ''0''" by (simp add: dec_nat.simps [of n])
    then have "n div 10 = 0" using dec_value_dec_nat [of "n div 10"] by (simp add: dec_value_def del: dec_value_dec_nat)
    with False show ?thesis by simp
  qed
qed

lemma byte_text_dec: "byte_text (dec_nat (unat (b :: u8)))"
  using unsigned_less [of b, where 'a = nat] dec_nat_no_zero [of "unat b"] dec_nat_digit [of _ "unat b"]
  by (simp add: byte_text_def list_all_iff)

lemma reads_quads_text:
  assumes "reads_quads R"
  shows "inet_addr R (IPv4_toString a) = a"
proof (cases a)
  case (In4 b c d e)
  have "inet_addr R (dec_nat (unat b) @ ''.'' @ dec_nat (unat c) @ ''.'' @ dec_nat (unat d) @ ''.'' @ dec_nat (unat e)) =
      In4 (of_nat (dec_value (dec_nat (unat b)))) (of_nat (dec_value (dec_nat (unat c))))
        (of_nat (dec_value (dec_nat (unat d)))) (of_nat (dec_value (dec_nat (unat e))))"
    using assms byte_text_dec unfolding reads_quads_def by blast
  then show ?thesis by (simp add: In4)
qed

lemma trim_id:
  assumes "s \<noteq> []" and "\<not> isSpace (hd s)" and "\<not> isSpace (last s)"
  shows "trim s = s"
proof -
  have "dropWhile isSpace t = t" if "t \<noteq> []" "\<not> isSpace (hd t)" for t
    using that by (cases t) simp_all
  with assms show ?thesis by (simp add: trim_def hd_rev)
qed

lemma trim_quad: "trim (IPv4_toString a) = IPv4_toString a"
proof (cases a)
  case (In4 b c d e)
  show ?thesis
  proof (rule trim_id)
    show "\<not> isSpace (hd (IPv4_toString a))"
      using dec_not_space [OF hd_in_set [OF dec_nat_not_Nil]] by (simp add: In4)
    show "\<not> isSpace (last (IPv4_toString a))"
      using dec_not_space [OF last_in_set [OF dec_nat_not_Nil]] by (simp add: In4)
  qed (simp add: In4)
qed

lemma quad_zero: "IPv4_toString empty4 = ''0.0.0.0''"
  by code_simp

lemma quad_none: "IPv4_toString INADDR_NONE = ''255.255.255.255''"
  by code_simp

lemma quad_not_Nil [simp]: "IPv4_toString a \<noteq> []"
  by (cases a) simp

lemma IPv4_parse_quad:
  "inet_addr R (IPv4_toString a) = a \<Longrightarrow> IPv4_parse R (IPv4_toString a) = a"
  by (auto simp: IPv4_parse_def Let_def quad_none)

lemma tryParse_quad:
  "inet_addr R (IPv4_toString a) = a \<Longrightarrow> tryParse R (IPv4_toString a) = Inr (Some (IPv4AddressImpl a))"
  by (auto simp: tryParse_def IPv4_parse_quad trim_quad quad_zero)

text \<open>C35: If \<open>inet_addr\<close> reads the dotted-quad format (four decimal bytes in order, most significant
  first), every IPv4 address is read back from its text, by \<open>tryParse\<close> and by the constructor, also
  the two that need care: 255.255.255.255, whose value is the failure value of \<open>inet_addr\<close>, and
  0.0.0.0, whose value is the failure value of \<open>parse\<close>.\<close>

theorem IPv4_text_roundtrip:
  assumes "reads_quads R"
  shows "tryParse R (IPAddress_toString (IPv4AddressImpl a)) = Inr (Some (IPv4AddressImpl a))
     \<and> IPAddress_string R (IPAddress_toString (IPv4AddressImpl a)) = Inr (IPv4AddressImpl a)"
proof -
  have r: "inet_addr R (IPv4_toString a) = a" for a by (rule reads_quads_text [OF assms])
  then have "a = empty4" if "IPv4_toString a = ''0.0.0.0''" using that quad_zero by metis
  then show ?thesis
    using r [of a] by (auto simp: tryParse_quad IPAddress_string_def IPv4_parse_quad trim_quad quad_zero)
qed

theorem IPv4_text_roundtrip_witness:
  "tryParse \<lparr>inet_addr = sample_inet_addr, getaddrinfo_numeric = \<lambda>_. None\<rparr> ''127.0.0.1'' =
     Inr (Some (IPv4AddressImpl (In4 127 0 0 1)))"
proof -
  have "reads_quads \<lparr>inet_addr = sample_inet_addr, getaddrinfo_numeric = \<lambda>_. None\<rparr>"
    using sample_reads_quads [of "\<lparr>inet_addr = sample_inet_addr, getaddrinfo_numeric = \<lambda>_. None\<rparr>"] by simp
  moreover have "IPv4_toString (In4 127 0 0 1) = ''127.0.0.1''" by code_simp
  ultimately show ?thesis
    using IPv4_text_roundtrip [of "\<lparr>inet_addr = sample_inet_addr, getaddrinfo_numeric = \<lambda>_. None\<rparr>"
      "In4 127 0 0 1"] by simp
qed

end
