(* ===== verification/Ip_Ranges.thy ===== *)
theory Ip_Ranges
  imports Ip_Address
begin

text \<open>
  The classification of IPv4 addresses: the predicates, which test the address under a mask, as
  ranges of its bytes.
\<close>

section \<open>Bytes and value\<close>

lemma to_network_ntohl [simp]: "to_network (ntohl x) = x"
proof (cases x)
  case (In4 a b c d)
  have e: "k < 8 \<Longrightarrow> bit (drop_bit m (ntohl x)) k = bit (ntohl x) (m + k)" for m k
    by (simp add: bit_simps)
  have "ucast (drop_bit 24 (ntohl x)) = a" "ucast (drop_bit 16 (ntohl x)) = b"
    "ucast (drop_bit 8 (ntohl x)) = c" "ucast (ntohl x) = d"
    by (rule bit_word_eqI; auto simp: In4 bit_ucast_iff bit_drop_bit_eq ntohl_bit simp del: ntohl.simps)+
  then show ?thesis by (simp add: to_network_def In4)
qed

lemma ntohl_inject [simp]: "ntohl x = ntohl y \<longleftrightarrow> x = y"
  by (metis to_network_ntohl)

lemma nat_bytes:
  fixes w :: nat
  assumes "w < 2 ^ 32"
  shows "((w div 2 ^ 24 mod 256 * 256 + w div 2 ^ 16 mod 256) * 256 + w div 2 ^ 8 mod 256) * 256 + w mod 256 = w"
proof -
  have d: "w div 2 ^ 24 = w div 2 ^ 16 div 256" "w div 2 ^ 16 = w div 2 ^ 8 div 256" "w div 2 ^ 8 = w div 256"
    by (simp_all flip: div_mult2_eq)
  have "w div 2 ^ 24 < 256" using assms by (simp add: div_less_iff_less_mult)
  then have "w div 2 ^ 24 mod 256 * 256 + w div 2 ^ 16 mod 256 = w div 2 ^ 16"
    by (simp only: mod_less d(1) div_mult_mod_eq)
  then show ?thesis by (simp only: d(2,3) div_mult_mod_eq)
qed

lemma unat_ntohl: "unat (ntohl (In4 a b c d)) = ((unat a * 256 + unat b) * 256 + unat c) * 256 + unat d"
proof -
  let ?w = "ntohl (In4 a b c d)"
  have "unat a = unat ?w div 2 ^ 24 mod 256" "unat b = unat ?w div 2 ^ 16 mod 256"
    "unat c = unat ?w div 2 ^ 8 mod 256" "unat d = unat ?w mod 256"
    using to_network_ntohl [of "In4 a b c d"]
    by (auto simp: to_network_def unsigned_ucast_eq take_bit_eq_mod unsigned_drop_bit_eq drop_bit_eq_div
        unat_div simp del: ntohl.simps dest!: arg_cong [of _ _ unat])
  moreover have "unat ?w < 2 ^ 32" using unsigned_less [of ?w, where 'a = nat] by simp
  ultimately show ?thesis using nat_bytes [of "unat ?w"] by (simp only:)
qed

section \<open>The ranges\<close>

lemma class_bits:
  "(x :: u8) AND 240 = 224 \<longleftrightarrow> 224 \<le> unat x \<and> unat x \<le> 239"
proof -
  have "\<forall>n \<in> set [0..<256]. ((of_nat n :: u8) AND 240 = 224) = (224 \<le> n \<and> n \<le> 239)" by code_simp
  moreover have "unat x \<in> set [0..<256]" using unsigned_less [of x, where 'a = nat] by simp
  ultimately have "((of_nat (unat x) :: u8) AND 240 = 224) = (224 \<le> unat x \<and> unat x \<le> 239)" by blast
  then show ?thesis by simp
qed

lemma and_all [simp]: "(x :: u8) AND 255 = x"
proof -
  have "(255 :: u8) = - 1" by simp
  then show ?thesis by (simp only: and.right_neutral)
qed

lemma ntohl_masked:
  assumes "ntohl m = mw" and "ntohl k = kw"
  shows "ntohl x AND mw = kw \<longleftrightarrow> map4 (AND) x m = k"
  unfolding assms [symmetric] by (simp flip: ntohl_bitwise)

lemma unat_eq_lit: "(x :: u8) = numeral k \<longleftrightarrow> unat x = unat (numeral k :: u8)"
  by (simp add: word_unat_eq_iff)

lemma v4_masks:
  "ntohl (In4 a b c d) AND 0xFF000000 = 0x7F000000 \<longleftrightarrow> a = 127"
  "ntohl (In4 a b c d) AND 0xFF000000 = 0x0A000000 \<longleftrightarrow> a = 10"
  "ntohl (In4 a b c d) AND 0xFF000000 = 0xE0000000 \<longleftrightarrow> a = 224"
  "ntohl (In4 a b c d) AND 0xF0000000 = 0xE0000000 \<longleftrightarrow> 224 \<le> unat a \<and> unat a \<le> 239"
  "ntohl (In4 a b c d) AND 0xFFFF0000 = 0xA9FE0000 \<longleftrightarrow> a = 169 \<and> b = 254"
  "ntohl (In4 a b c d) AND 0xFFFF0000 = 0xC0A80000 \<longleftrightarrow> a = 192 \<and> b = 168"
  "ntohl (In4 a b c d) AND 0xFFFF0000 = 0xEFFF0000 \<longleftrightarrow> a = 239 \<and> b = 255"
  "ntohl (In4 a b c d) AND 0xFFFF0000 = 0xEFC00000 \<longleftrightarrow> a = 239 \<and> b = 192"
  "ntohl (In4 a b c d) AND 0xFFFFFF00 = 0xE0000000 \<longleftrightarrow> a = 224 \<and> b = 0 \<and> c = 0"
  by (subst ntohl_masked [of "In4 255 0 0 0" _ "In4 127 0 0 0"], simp, simp, simp)
    (subst ntohl_masked [of "In4 255 0 0 0" _ "In4 10 0 0 0"], simp, simp, simp,
     subst ntohl_masked [of "In4 255 0 0 0" _ "In4 224 0 0 0"], simp, simp, simp,
     subst ntohl_masked [of "In4 240 0 0 0" _ "In4 224 0 0 0"], simp, simp, simp add: class_bits,
     subst ntohl_masked [of "In4 255 255 0 0" _ "In4 169 254 0 0"], simp, simp, simp,
     subst ntohl_masked [of "In4 255 255 0 0" _ "In4 192 168 0 0"], simp, simp, simp,
     subst ntohl_masked [of "In4 255 255 0 0" _ "In4 239 255 0 0"], simp, simp, simp,
     subst ntohl_masked [of "In4 255 255 0 0" _ "In4 239 192 0 0"], simp, simp, simp,
     subst ntohl_masked [of "In4 255 255 255 0" _ "In4 224 0 0 0"], simp, simp, simp)

lemma byte_bounds: "unat (x :: u8) < 256"
  using unsigned_less [of x, where 'a = nat] by simp

lemma byte_pair:
  fixes x y k :: nat
  assumes "y < 256"
  shows "x * 256 + y = k * 256 \<longleftrightarrow> x = k \<and> y = 0"
proof
  assume eq: "x * 256 + y = k * 256"
  then have "x \<le> k" "k \<le> x" using assms by linarith+
  with eq show "x = k \<and> y = 0" by simp
qed simp

lemma v4_ranges:
  "0xAC100000 \<le> ntohl (In4 a b c d) \<and> ntohl (In4 a b c d) \<le> 0xAC1FFFFF \<longleftrightarrow> a = 172 \<and> 16 \<le> unat b \<and> unat b \<le> 31"
  "0xE0000100 \<le> ntohl (In4 a b c d) \<and> ntohl (In4 a b c d) \<le> 0xEE000000 \<longleftrightarrow>
     a = 224 \<and> \<not> (b = 0 \<and> c = 0) \<or> 225 \<le> unat a \<and> unat a \<le> 237 \<or> a = 238 \<and> b = 0 \<and> c = 0 \<and> d = 0"
proof -
  have z: "x = 0 \<longleftrightarrow> unat x = 0" for x :: u8 by (simp add: unat_eq_0)
  define l where "l = unat c * 256 + unat d"
  have l: "l < 65536" using byte_bounds [of c] byte_bounds [of d] by (simp add: l_def)
  define h where "h = unat a * 256 + unat b"
  have w: "unat (ntohl (In4 a b c d)) = h * 65536 + l" unfolding unat_ntohl h_def l_def by simp
  have "0xAC100000 \<le> ntohl (In4 a b c d) \<and> ntohl (In4 a b c d) \<le> 0xAC1FFFFF \<longleftrightarrow> 44048 \<le> h \<and> h \<le> 44063"
    unfolding word_le_nat_alt w using l by simp linarith
  also have "\<dots> \<longleftrightarrow> unat a = 172 \<and> 16 \<le> unat b \<and> unat b \<le> 31"
  proof
    assume r: "44048 \<le> h \<and> h \<le> 44063"
    then have "unat a \<le> 172" "172 \<le> unat a" using byte_bounds [of b] unfolding h_def by linarith+
    then have "unat a = 172" by simp
    with r [unfolded h_def] show "unat a = 172 \<and> 16 \<le> unat b \<and> unat b \<le> 31" unfolding h_def by simp
  qed (simp add: h_def)
  finally show "0xAC100000 \<le> ntohl (In4 a b c d) \<and> ntohl (In4 a b c d) \<le> 0xAC1FFFFF \<longleftrightarrow>
      a = 172 \<and> 16 \<le> unat b \<and> unat b \<le> 31"
    by (simp add: unat_eq_lit)
  have "0xE0000100 \<le> ntohl (In4 a b c d) \<and> ntohl (In4 a b c d) \<le> 0xEE000000 \<longleftrightarrow>
      h = 57344 \<and> 256 \<le> l \<or> 57345 \<le> h \<and> h \<le> 60927 \<or> h = 60928 \<and> l = 0"
    unfolding word_le_nat_alt w using l by simp linarith
  also have "\<dots> \<longleftrightarrow> unat a = 224 \<and> \<not> (unat b = 0 \<and> l < 256) \<or> 225 \<le> unat a \<and> unat a \<le> 237
      \<or> unat a = 238 \<and> unat b = 0 \<and> l = 0"
  proof -
    have "h = 57344 \<longleftrightarrow> unat a = 224 \<and> unat b = 0" "h = 60928 \<longleftrightarrow> unat a = 238 \<and> unat b = 0"
      using byte_pair [OF byte_bounds [of b], of "unat a" 224] byte_pair [OF byte_bounds [of b], of "unat a" 238]
      unfolding h_def by simp_all
    moreover have "57345 \<le> h \<and> h \<le> 60927 \<longleftrightarrow>
        unat a = 224 \<and> unat b \<noteq> 0 \<or> 225 \<le> unat a \<and> unat a \<le> 237"
    proof
      assume r: "57345 \<le> h \<and> h \<le> 60927"
      then have "unat a \<le> 237" "224 \<le> unat a" using byte_bounds [of b] unfolding h_def by linarith+
      with r [unfolded h_def] show "unat a = 224 \<and> unat b \<noteq> 0 \<or> 225 \<le> unat a \<and> unat a \<le> 237"
        unfolding h_def by auto
    next
      assume "unat a = 224 \<and> unat b \<noteq> 0 \<or> 225 \<le> unat a \<and> unat a \<le> 237"
      then show "57345 \<le> h \<and> h \<le> 60927" using byte_bounds [of b] unfolding h_def by auto
    qed
    ultimately show ?thesis using l by auto
  qed
  also have "l < 256 \<longleftrightarrow> unat c = 0" using byte_bounds [of d] unfolding l_def by presburger
  also have "l = 0 \<longleftrightarrow> unat c = 0 \<and> unat d = 0" unfolding l_def by presburger
  finally show "0xE0000100 \<le> ntohl (In4 a b c d) \<and> ntohl (In4 a b c d) \<le> 0xEE000000 \<longleftrightarrow>
     a = 224 \<and> \<not> (b = 0 \<and> c = 0) \<or> 225 \<le> unat a \<and> unat a \<le> 237 \<or> a = 238 \<and> b = 0 \<and> c = 0 \<and> d = 0"
    by (simp add: unat_eq_lit z)
qed

text \<open>The IPv4 predicates are the ranges of their documentation, read on the bytes \<open>a.b.c.d\<close>, for
  loopback, multicast, link-local, site-local, site-local and organisation-local multicast. The
  other three are not: well-known multicast is 224.0.0.0/24 and link-local multicast 224.0.0.0/8 (the
  documentation has the two lengths the other way round), and global multicast ends at 238.0.0.0
  and not at 238.255.255.255.\<close>

theorem IPv4_ranges:
  "(isLoopback (IPv4AddressImpl (In4 a b c d)) \<longleftrightarrow> a = 127)
   \<and> (isMulticast (IPv4AddressImpl (In4 a b c d)) \<longleftrightarrow> 224 \<le> unat a \<and> unat a \<le> 239)
   \<and> (isLinkLocal (IPv4AddressImpl (In4 a b c d)) \<longleftrightarrow> a = 169 \<and> b = 254)
   \<and> (isSiteLocal (IPv4AddressImpl (In4 a b c d)) \<longleftrightarrow>
        a = 10 \<or> a = 192 \<and> b = 168 \<or> a = 172 \<and> 16 \<le> unat b \<and> unat b \<le> 31)
   \<and> (isSiteLocalMC (IPv4AddressImpl (In4 a b c d)) \<longleftrightarrow> a = 239 \<and> b = 255)
   \<and> (isOrgLocalMC (IPv4AddressImpl (In4 a b c d)) \<longleftrightarrow> a = 239 \<and> b = 192)
   \<and> (isWellKnownMC (IPv4AddressImpl (In4 a b c d)) \<longleftrightarrow> a = 224 \<and> b = 0 \<and> c = 0)
   \<and> (isLinkLocalMC (IPv4AddressImpl (In4 a b c d)) \<longleftrightarrow> a = 224)
   \<and> (isGlobalMC (IPv4AddressImpl (In4 a b c d)) \<longleftrightarrow>
        a = 224 \<and> \<not> (b = 0 \<and> c = 0) \<or> 225 \<le> unat a \<and> unat a \<le> 237 \<or> a = 238 \<and> b = 0 \<and> c = 0 \<and> d = 0)"
  unfolding isLoopback.simps isMulticast.simps isLinkLocal.simps isSiteLocal.simps isSiteLocalMC.simps
    isOrgLocalMC.simps isWellKnownMC.simps isLinkLocalMC.simps isGlobalMC.simps
    v4_isLoopback_def v4_isMulticast_def v4_isLinkLocal_def v4_isSiteLocal_def v4_isSiteLocalMC_def
    v4_isOrgLocalMC_def v4_isWellKnownMC_def v4_isLinkLocalMC_def v4_isGlobalMC_def Let_def v4_masks v4_ranges
  by simp

end
