(* ===== verification/Ip_Text.thy ===== *)
theory Ip_Text
  imports Ip_Address
begin

text \<open>
  The text of IPv6 addresses. A reader for the notation of RFC 4291 says what a text means; the
  text that \<open>IPv6AddressImpl::toString\<close> prints for an ordinary address reads back as the address,
  the dotted forms of the IPv4-compatible and IPv4-mapped ranges do not always.
\<close>

section \<open>Words in the text\<close>

definition hex_lower :: "u16 \<Rightarrow> string" where
  "hex_lower w = toLower (hex_nat (unat w))"

definition hex_digit_value :: "char \<Rightarrow> nat" where
  "hex_digit_value c = (let n = of_char c in if n < 58 then n - 48 else if n < 71 then n - 55 else n - 87)"

definition hex_value :: "string \<Rightarrow> nat" where
  "hex_value t = foldl (\<lambda>a c. a * 16 + hex_digit_value c) 0 t"

lemma hex_char_ok:
  assumes "k < 16"
  shows "Ascii_toLower (hex_char k) \<in> set ''0123456789abcdef''"
    and "hex_digit_value (Ascii_toLower (hex_char k)) = k"
proof -
  have "\<forall>k \<in> set [0..<16]. Ascii_toLower (hex_char k) \<in> set ''0123456789abcdef''
      \<and> hex_digit_value (Ascii_toLower (hex_char k)) = k"
    by code_simp
  with assms show "Ascii_toLower (hex_char k) \<in> set ''0123456789abcdef''"
    and "hex_digit_value (Ascii_toLower (hex_char k)) = k" by auto
qed

lemma hex_nat_text:
  "set (toLower (hex_nat n)) \<subseteq> set ''0123456789abcdef'' \<and> hex_value (toLower (hex_nat n)) = n
   \<and> hex_nat n \<noteq> []"
proof (induction n rule: hex_nat.induct)
  case (1 n)
  show ?case
  proof (cases "n < 16")
    case True
    with hex_char_ok [of n] show ?thesis by (simp add: hex_nat.simps [of n] toLower_def hex_value_def)
  next
    case False
    with 1 hex_char_ok [of "n mod 16"] show ?thesis
      by (simp add: hex_nat.simps [of n] toLower_def hex_value_def)
  qed
qed

lemma hex_lower_value [simp]: "hex_value (hex_lower w) = unat w"
  by (simp add: hex_lower_def hex_nat_text)

lemma hex_lower_not_Nil [simp]: "hex_lower w \<noteq> []"
  using hex_nat_text [of "unat w"] by (simp add: hex_lower_def toLower_def)

lemma hex_lower_char: "c \<notin> set ''0123456789abcdef'' \<Longrightarrow> c \<notin> set (hex_lower w)"
  using hex_nat_text [of "unat w"] unfolding hex_lower_def by blast

section \<open>The loop\<close>

text \<open>Each word with a colon before it.\<close>

definition colon_words :: "u16 list \<Rightarrow> string" where
  "colon_words ws = concat (map (\<lambda>w. CHR '':'' # hex_nat (unat w)) ws)"

lemma colon_words_simps [simp]:
  "colon_words [] = []" "colon_words (w # ws) = CHR '':'' # hex_nat (unat w) @ colon_words ws"
  by (simp_all add: colon_words_def)

lemma v6_groups_end: "8 \<le> i \<Longrightarrow> v6_groups ws i z = []"
  by (subst v6_groups.simps) simp

lemma zero_end_end: "8 \<le> i \<Longrightarrow> zero_end ws i = i"
  by (subst zero_end.simps) simp

lemma v6_groups_after:
  "length ws = 8 \<Longrightarrow> 0 < i \<Longrightarrow> v6_groups ws i True = colon_words (drop i ws)"
proof (induction "8 - i" arbitrary: i)
  case 0
  then show ?case by (simp add: v6_groups_end)
next
  case (Suc n)
  then have "v6_groups ws (i + 1) True = colon_words (drop (i + 1) ws)" by simp
  moreover have "drop i ws = ws ! i # drop (i + 1) ws"
    using Suc.hyps Suc.prems by (simp add: Cons_nth_drop_Suc)
  ultimately show ?case using Suc.hyps Suc.prems by (simp add: v6_groups.simps [of ws i] Let_def)
qed

lemma zero_end_run:
  "length ws = 8 \<Longrightarrow> i \<le> 8 \<Longrightarrow>
   \<exists>k. zero_end ws i = i + k \<and> i + k \<le> 8 \<and> drop i ws = replicate k 0 @ drop (i + k) ws"
proof (induction "8 - i" arbitrary: i)
  case 0
  then show ?case by (intro exI [of _ 0]) (simp add: zero_end_end)
next
  case (Suc n)
  show ?case
  proof (cases "ws ! i = 0")
    case True
    have "n = 8 - (i + 1)" "i + 1 \<le> 8" using Suc.hyps(2) by linarith+
    from Suc.hyps(1) [OF this(1) Suc.prems(1) this(2)] obtain k where
      k: "zero_end ws (i + 1) = i + 1 + k" "i + 1 + k \<le> 8" "drop (i + 1) ws = replicate k 0 @ drop (i + 1 + k) ws"
      by blast
    have "drop i ws = ws ! i # drop (i + 1) ws"
      using Suc.hyps Suc.prems by (simp add: Cons_nth_drop_Suc)
    with k True Suc.hyps show ?thesis
      by (intro exI [of _ "Suc k"]) (simp add: zero_end.simps [of ws i])
  next
    case False
    then show ?thesis using Suc.prems by (intro exI [of _ 0]) (simp add: zero_end.simps [of ws i])
  qed
qed

text \<open>What follows a run of \<open>k\<close> zeros that the loop left out; no run if \<open>k\<close> is 0.\<close>

definition rest_text :: "nat \<Rightarrow> u16 list \<Rightarrow> string" where
  "rest_text k r = (if k = 0 then [] else CHR '':'' # (if r = [] then '':'' else colon_words r))"

lemma v6_groups_run:
  assumes "length ws = 8" and "i < 8" and "ws ! i = 0" and "i + 1 < zero_end ws i"
  shows "\<exists>k. 0 < k \<and> drop i ws = replicate k 0 @ drop (i + k) ws
    \<and> v6_groups ws i False = rest_text k (drop (i + k) ws)"
proof -
  obtain k where k: "zero_end ws i = i + k" "i + k \<le> 8" "drop i ws = replicate k 0 @ drop (i + k) ws"
    using zero_end_run [of ws i] assms by auto
  have "v6_groups ws i False = rest_text k (drop (i + k) ws)"
  proof (cases "i + k < 8")
    case True
    then have "drop (i + k) ws = ws ! (i + k) # drop (i + k + 1) ws"
      using assms(1) by (simp add: Cons_nth_drop_Suc)
    with True show ?thesis
      using assms k v6_groups_after [of ws "i + k + 1"]
      by (simp add: v6_groups.simps [of ws i] Let_def rest_text_def)
  next
    case False
    with assms k show ?thesis by (simp add: v6_groups.simps [of ws i] Let_def rest_text_def)
  qed
  with k assms(4) show ?thesis by (intro exI [of _ k]) simp
qed

lemma v6_groups_word:
  assumes "i < 8" and "\<not> (ws ! i = 0 \<and> i + 1 < zero_end ws i)"
  shows "v6_groups ws i False = (if 0 < i then '':'' else []) @ hex_nat (unat (ws ! i)) @ v6_groups ws (i + 1) False"
  using assms by (auto simp: v6_groups.simps [of ws i] Let_def)

lemma v6_groups_split:
  "length ws = 8 \<Longrightarrow> 0 < i \<Longrightarrow> i \<le> 8 \<Longrightarrow>
   \<exists>l k r. drop i ws = l @ replicate k 0 @ r \<and> v6_groups ws i False = colon_words l @ rest_text k r
     \<and> (k = 0 \<longrightarrow> r = [])"
proof (induction "8 - i" arbitrary: i)
  case 0
  then show ?case
    by (intro exI [of _ "[]"] exI [of _ 0]) (simp add: v6_groups_end rest_text_def)
next
  case (Suc n)
  then have i: "i < 8" by simp
  show ?case
  proof (cases "ws ! i = 0 \<and> i + 1 < zero_end ws i")
    case True
    with v6_groups_run [of ws i] Suc.prems i obtain k where
      "0 < k" "drop i ws = replicate k 0 @ drop (i + k) ws" "v6_groups ws i False = rest_text k (drop (i + k) ws)"
      by blast
    then show ?thesis by (intro exI [of _ "[]"] exI [of _ k] exI [of _ "drop (i + k) ws"]) simp
  next
    case False
    have "n = 8 - (i + 1)" "0 < i + 1" "i + 1 \<le> 8" using Suc.hyps(2) i by linarith+
    from Suc.hyps(1) [OF this(1) Suc.prems(1) this(2,3)] obtain l k r where
      *: "drop (i + 1) ws = l @ replicate k 0 @ r" "v6_groups ws (i + 1) False = colon_words l @ rest_text k r"
      "k = 0 \<longrightarrow> r = []"
      by blast
    have "drop i ws = ws ! i # drop (i + 1) ws" using Suc.prems i by (simp add: Cons_nth_drop_Suc)
    with * Suc.prems show ?thesis
      by (intro exI [of _ "ws ! i # l"] exI [of _ k] exI [of _ r]) (simp add: v6_groups_word [OF i False])
  qed
qed

lemma v6_groups_text:
  assumes "length ws = 8"
  shows "\<exists>l k r. ws = l @ replicate k 0 @ r \<and> v6_groups ws 0 False = tl (colon_words l) @ rest_text k r
    \<and> (k = 0 \<longrightarrow> r = [] \<and> l \<noteq> [])"
proof (cases "ws ! 0 = 0 \<and> 0 + 1 < zero_end ws 0")
  case True
  with v6_groups_run [of ws 0] assms obtain k where
    "0 < k" "ws = replicate k 0 @ drop k ws" "v6_groups ws 0 False = rest_text k (drop k ws)"
    by auto
  then show ?thesis by (intro exI [of _ "[]"] exI [of _ k] exI [of _ "drop k ws"]) simp
next
  case False
  from v6_groups_split [of ws 1] assms obtain l k r where
    *: "drop 1 ws = l @ replicate k 0 @ r" "v6_groups ws 1 False = colon_words l @ rest_text k r"
    "k = 0 \<longrightarrow> r = []"
    by auto
  have "ws = ws ! 0 # drop 1 ws" using assms by (cases ws) simp_all
  with * have "ws = (ws ! 0 # l) @ replicate k 0 @ r" by simp
  with * show ?thesis
    by (intro exI [of _ "ws ! 0 # l"] exI [of _ k] exI [of _ r]) (simp add: v6_groups_word [OF _ False])
qed

section \<open>A reader\<close>

text \<open>
  RFC 4291, 2.2, the hexadecimal forms: eight groups of one to four hexadecimal digits of either case
  between single colons, or fewer than eight of them around one \<open>::\<close>, which stands for the missing
  zero groups; behind a percent sign the scope, a decimal number. Everything else is refused.
\<close>

definition hex_group :: "string \<Rightarrow> bool" where
  "hex_group g \<longleftrightarrow> g \<noteq> [] \<and> length g \<le> 4 \<and> list_all (\<lambda>c. c \<in> set ''0123456789abcdefABCDEF'') g"

definition read_side :: "string \<Rightarrow> nat list option" where
  "read_side t =
    (if t = [] then Some []
     else if list_all hex_group (tokens CHR '':'' t) then Some (map hex_value (tokens CHR '':'' t))
     else None)"

text \<open>The text before and behind the first \<open>::\<close>.\<close>

fun gap :: "string \<Rightarrow> (string \<times> string) option" where
  "gap (c # d # t) =
    (if c = CHR '':'' \<and> d = CHR '':'' then Some ([], t) else map_option (apfst ((#) c)) (gap (d # t)))"
| "gap _ = None"

definition read_words :: "string \<Rightarrow> nat list option" where
  "read_words t = (case gap t of
      None \<Rightarrow> Option.bind (read_side t) (\<lambda>ws. if length ws = 8 then Some ws else None)
    | Some (a, b) \<Rightarrow>
        Option.bind (read_side a) (\<lambda>l.
        Option.bind (read_side b) (\<lambda>r.
        if length l + length r < 8 then Some (l @ replicate (8 - length l - length r) 0 @ r) else None)))"

definition read_scope :: "string \<Rightarrow> nat option" where
  "read_scope t =
    (if t = [] then Some 0
     else if tl t \<noteq> [] \<and> list_all is_digit (tl t) then Some (dec_value (tl t)) else None)"

definition read_ip6 :: "string \<Rightarrow> (nat list \<times> nat) option" where
  "read_ip6 t =
     Option.bind (read_words (takeWhile (\<lambda>c. c \<noteq> CHR ''%'') t)) (\<lambda>ws.
     Option.bind (read_scope (dropWhile (\<lambda>c. c \<noteq> CHR ''%'') t)) (\<lambda>scope.
     Some (ws, scope)))"

definition lower_words :: "u16 list \<Rightarrow> string" where
  "lower_words ws = concat (map (\<lambda>w. CHR '':'' # hex_lower w) ws)"

lemma lower_words_simps [simp]:
  "lower_words [] = []" "lower_words (w # ws) = CHR '':'' # hex_lower w @ lower_words ws"
  by (simp_all add: lower_words_def)

lemma toLower_hex [simp]: "toLower (hex_nat (unat w)) = hex_lower w"
  by (simp add: hex_lower_def)

lemma toLower_append [simp]: "toLower (s @ t) = toLower s @ toLower t"
  by (simp add: toLower_def)

lemma toLower_colon [simp]: "toLower (CHR '':'' # s) = CHR '':'' # toLower s"
  by (simp add: toLower_def Ascii_toLower_def)

lemma toLower_Nil [simp]: "toLower [] = []"
  by (simp add: toLower_def)

lemma toLower_tl: "toLower (tl s) = tl (toLower s)"
  by (simp add: toLower_def map_tl)

lemma toLower_words [simp]: "toLower (colon_words ws) = lower_words ws"
  by (induction ws) simp_all

lemma colon_not_hex [simp]: "CHR '':'' \<notin> set (hex_lower w)"
  by (rule hex_lower_char) simp

lemma tokens_words: "tokens CHR '':'' (hex_lower w @ lower_words ws) = map hex_lower (w # ws)"
  by (induction ws arbitrary: w) (simp_all add: tokens_sep tokens_one)

lemma gap_append: "CHR '':'' \<notin> set g \<Longrightarrow> gap (g @ u) = map_option (apfst ((@) g)) (gap u)"
proof (induction g)
  case Nil
  then show ?case by (cases "gap u") auto
next
  case (Cons c g)
  then show ?case by (cases "g @ u"; cases "gap u") auto
qed

lemma gap_colon: "d \<noteq> CHR '':'' \<Longrightarrow> gap (c # d # t) = map_option (apfst ((#) c)) (gap (d # t))"
  by simp

lemma gap_lower_words: "gap (lower_words ws @ u) = map_option (apfst ((@) (lower_words ws))) (gap u)"
proof (induction ws)
  case Nil
  then show ?case by (cases "gap u") auto
next
  case (Cons w ws)
  obtain d g where g: "hex_lower w = d # g" "d \<noteq> CHR '':''"
    using colon_not_hex [of w] hex_lower_not_Nil [of w] by (cases "hex_lower w") auto
  have "gap (CHR '':'' # hex_lower w @ lower_words ws @ u) =
      map_option (apfst ((#) CHR '':'')) (gap (hex_lower w @ lower_words ws @ u))"
    using gap_colon [OF g(2), of "CHR '':''" "g @ lower_words ws @ u"] by (simp add: g(1))
  also have "gap (hex_lower w @ lower_words ws @ u) =
      map_option (apfst ((@) (hex_lower w))) (gap (lower_words ws @ u))"
    by (rule gap_append) simp
  finally show ?case by (cases "gap u") (auto simp: Cons)
qed

lemma gap_words: "gap (tl (lower_words ws) @ u) = map_option (apfst ((@) (tl (lower_words ws)))) (gap u)"
proof (cases ws)
  case Nil
  then show ?thesis by (cases "gap u") auto
next
  case (Cons w vs)
  then show ?thesis by (cases "gap u") (auto simp: gap_append gap_lower_words)
qed

lemma hex_nat_length: "n < 16 ^ Suc k \<Longrightarrow> length (hex_nat n) \<le> Suc k"
proof (induction k arbitrary: n)
  case (Suc k)
  have "n div 16 < 16 ^ Suc k" using Suc.prems by (simp add: div_less_iff_less_mult)
  with Suc.IH [of "n div 16"] show ?case by (simp add: hex_nat.simps [of n])
qed (simp add: hex_nat.simps)

lemma hex_group_lower: "hex_group (hex_lower w)"
proof -
  have "unat w < 16 ^ Suc 3" using unsigned_less [of w, where 'a = nat] by simp
  from hex_nat_length [OF this] have "length (hex_lower w) \<le> 4" by (simp add: hex_lower_def toLower_def)
  moreover have "set (hex_lower w) \<subseteq> set ''0123456789abcdef''"
    using hex_nat_text [of "unat w"] unfolding hex_lower_def by blast
  moreover have "set ''0123456789abcdef'' \<subseteq> set ''0123456789abcdefABCDEF''" by simp
  ultimately have "list_all (\<lambda>c. c \<in> set ''0123456789abcdefABCDEF'') (hex_lower w)"
    unfolding list_all_iff by (meson subsetD)
  with \<open>length (hex_lower w) \<le> 4\<close> show ?thesis unfolding hex_group_def by simp
qed

lemma read_side_words: "read_side (tl (lower_words ws)) = Some (map unat ws)"
proof (cases ws)
  case (Cons w vs)
  then show ?thesis
    by (simp add: read_side_def tokens_words hex_group_lower list_all_iff)
qed (simp add: read_side_def)

lemma rest_text_lower: "toLower (rest_text k r) = (if k = 0 then [] else ''::'' @ tl (lower_words r))"
  by (cases r) (simp_all add: rest_text_def)

lemma read_words_text:
  assumes "length (l @ replicate k 0 @ r) = 8" and "k = 0 \<longrightarrow> r = [] \<and> l \<noteq> []"
  shows "read_words (toLower (tl (colon_words l) @ rest_text k r)) = Some (map unat (l @ replicate k 0 @ r))"
proof (cases "k = 0")
  case True
  with assms gap_words [of l "[]"] show ?thesis
    by (simp add: rest_text_lower toLower_tl read_words_def read_side_words)
next
  case False
  have "gap (tl (lower_words l) @ ''::'' @ tl (lower_words r)) = Some (tl (lower_words l), tl (lower_words r))"
    using gap_words [of l "''::'' @ tl (lower_words r)"] by simp
  moreover have "8 - length l - length r = k" "length l + length r < 8" using assms(1) False by simp_all
  ultimately show ?thesis
    using False by (simp add: rest_text_lower toLower_tl read_words_def read_side_words)
qed

section \<open>Reading back\<close>

lemma words6_length [simp]: "length (words6 x) = 8"
  by (cases x) simp

lemma no_percent:
  assumes "set t \<subseteq> set '':0123456789abcdef''"
  shows "takeWhile (\<lambda>c. c \<noteq> CHR ''%'') (t @ u) = t @ takeWhile (\<lambda>c. c \<noteq> CHR ''%'') u"
    and "dropWhile (\<lambda>c. c \<noteq> CHR ''%'') (t @ u) = dropWhile (\<lambda>c. c \<noteq> CHR ''%'') u"
proof -
  have "\<And>c. c \<in> set t \<Longrightarrow> c \<noteq> CHR ''%''" using assms by auto
  then show "takeWhile (\<lambda>c. c \<noteq> CHR ''%'') (t @ u) = t @ takeWhile (\<lambda>c. c \<noteq> CHR ''%'') u"
    and "dropWhile (\<lambda>c. c \<noteq> CHR ''%'') (t @ u) = dropWhile (\<lambda>c. c \<noteq> CHR ''%'') u"
    by (auto simp: takeWhile_append2 dropWhile_append2)
qed

lemma lower_words_chars: "set (lower_words ws) \<subseteq> set '':0123456789abcdef''"
proof (induction ws)
  case (Cons w ws)
  have "set (hex_lower w) \<subseteq> set ''0123456789abcdef''"
    using hex_nat_text [of "unat w"] unfolding hex_lower_def by blast
  also have "\<dots> \<subseteq> set '':0123456789abcdef''" by simp
  finally show ?case using Cons by simp
qed simp

lemma rest_text_chars: "set (toLower (rest_text k r)) \<subseteq> set '':0123456789abcdef''"
  using lower_words_chars [of r] by (auto simp: rest_text_def)

lemma tl_chars: "set t \<subseteq> S \<Longrightarrow> set (tl t) \<subseteq> S"
  by (cases t) auto

lemma v6_text_chars:
  "length ws = 8 \<Longrightarrow> set (toLower (v6_groups ws 0 False)) \<subseteq> set '':0123456789abcdef''"
  using v6_groups_text [of ws] rest_text_chars tl_chars [OF lower_words_chars]
  by (fastforce simp: toLower_tl)

lemma toLower_scope: "toLower (''%'' @ dec_nat n) = CHR ''%'' # dec_nat n"
proof -
  have "Ascii_toLower c = c" if "c \<in> set ''0123456789''" for c
  proof -
    have "\<forall>c \<in> set ''0123456789''. Ascii_toLower c = c" by code_simp
    with that show ?thesis by blast
  qed
  then have "map Ascii_toLower (dec_nat n) = dec_nat n"
    using dec_digits [of n] by (intro map_idI) blast
  then show ?thesis by (simp add: toLower_def Ascii_toLower_def)
qed

lemma read_ip6_text:
  assumes "v6_isIPv4Compatible x \<longrightarrow> v6_isLoopback x" and "\<not> v6_isIPv4Mapped x"
  shows "read_ip6 (IPv6_toString x scope) = Some (map unat (words6 x), unat scope)"
proof -
  let ?t = "toLower (v6_groups (words6 x) 0 False)"
  have chars: "set ?t \<subseteq> set '':0123456789abcdef''" by (rule v6_text_chars) simp
  obtain l k r where t: "words6 x = l @ replicate k 0 @ r"
    "v6_groups (words6 x) 0 False = tl (colon_words l) @ rest_text k r" "k = 0 \<longrightarrow> r = [] \<and> l \<noteq> []"
    using v6_groups_text [OF words6_length] by blast
  have "length (l @ replicate k 0 @ r) = 8" by (simp only: t(1) [symmetric] words6_length)
  then have "read_words ?t = Some (map unat (l @ replicate k 0 @ r))"
    unfolding t(2) by (rule read_words_text) (rule t(3))
  then have "read_words ?t = Some (map unat (words6 x))" by (simp only: t(1))
  moreover have "IPv6_toString x scope =
      ?t @ (if 0 < scope then CHR ''%'' # dec_nat (unat scope) else [])"
    using assms by (auto simp: IPv6_toString_def toLower_scope [simplified])
  moreover have "list_all is_digit (dec_nat (unat scope))" using dec_nat_digit by (auto simp: list_all_iff)
  ultimately show ?thesis
    by (auto simp: read_ip6_def read_scope_def no_percent [OF chars] no_percent [OF chars, of "[]", simplified]
        word_gt_0)
qed

text \<open>C24: The text of an IPv6 address is in the notation of RFC 4291 and means the address: for every
  address outside the IPv4-compatible range (the loopback address counts as outside) and the
  IPv4-mapped range, a reader that accepts nothing but that notation accepts the printed text and
  gets the eight words and the scope, whatever runs of zeros the address has and wherever they are.\<close>

theorem IPv6_text_reads_back:
  assumes "v6_isIPv4Compatible x \<longrightarrow> v6_isLoopback x" and "\<not> v6_isIPv4Mapped x"
  shows "read_ip6 (IPAddress_toString (IPv6AddressImpl x scope)) = Some (map unat (words6 x), unat scope)"
  using read_ip6_text [OF assms] by simp

lemma sample_v6_text: "IPv6_toString (In6 1 0 0 0 0 2 0 5) 7 = ''1::2:0:5%7''"
proof -
  have "toLower (v6_groups [1, 0, 0, 0, 0, 2, 0, 5] 0 False) = ''1::2:0:5''" "dec_nat 7 = ''7''"
    by code_simp+
  then show ?thesis using toLower_scope [of 7] by (simp add: IPv6_toString_def)
qed

theorem IPv6_text_reads_back_witness:
  "read_ip6 ''1::2:0:5%7'' = Some ([1, 0, 0, 0, 0, 2, 0, 5], 7)"
  using IPv6_text_reads_back [of "In6 1 0 0 0 0 2 0 5" 7] sample_v6_text by simp

text \<open>What the reader refuses: a third colon, a second gap, a colon at an end, a ninth group, five digits.\<close>

lemma read_ip6_refuses:
  "map read_ip6 ['':::'', ''1:::2'', ''1::2::3'', '':1::2'', ''1:2:3:4:5:6:7:'', ''1:2:3:4:5:6:7:8:9'',
     ''12345::'', ''1::2%'', ''1::2%x''] = replicate 9 None"
  by code_simp

text \<open>In the two dotted ranges the text does not determine the address: every address of \<open>::/96\<close>
  other than the loopback address whose low 32 bits start with a zero byte is printed as \<open>::\<close>, like
  the wildcard address, and every such address of \<open>::ffff:0:0/96\<close> as \<open>::ffff:\<close>. And \<open>::\<close> itself is read
  by the constructor but not by \<open>tryParse\<close>, which takes the address for its failure value; so a
  \<open>SocketAddress\<close> for it goes to name resolution.\<close>

theorem IPv6_text_lossy:
  assumes "inet_addr R ''::'' = INADDR_NONE" and "getaddrinfo_numeric R ''::'' = Some (AI_inet6 empty6 0)"
    and "(b :: u8) \<noteq> 0 \<or> h \<noteq> 1"
  shows "IPAddress_toString (IPv6AddressImpl (In6 0 0 0 0 0 0 (ucast b) h) s) = ''::''
    \<and> IPAddress_toString (IPv6AddressImpl (In6 0 0 0 0 0 0xffff (ucast b) h) s) = ''::ffff:''
    \<and> IPAddress_string R ''::'' = Inr (IPv6AddressImpl empty6 0) \<and> tryParse R ''::'' = Inr None"
proof -
  have u: "unat (ucast b :: u16) = unat b" 
    using unsigned_less [of b, where 'a = nat] by (simp add: unsigned_ucast_eq take_bit_eq_mod)
  then have g: "(ucast b :: u16) \<noteq> 0 \<or> h \<noteq> 1" using assms(3) by (metis unat_0 unat_eq_0)
  have z: "ucast (drop_bit 8 (ucast b :: u16)) = (0 :: u8)"
    by (rule bit_word_eqI) (auto simp: bit_simps dest: bit_imp_le_length)
  have "trim ''::'' = ''::''" "''::'' \<noteq> ''255.255.255.255''" "trim ''::'' \<noteq> ''0.0.0.0''"
    by (simp_all add: trim_def isSpace_def)
  then have "IPAddress_string R ''::'' = Inr (IPv6AddressImpl empty6 0)" "tryParse R ''::'' = Inr None"
    using assms(1,2) by (simp_all add: IPAddress_string_def tryParse_def IPv4_parse_def IPv6_parse_def)
  moreover have "bytes6 ! 12 = 0" if "bytes6 = concat (map word_bytes (words6 (In6 0 0 0 0 0 f (ucast b) h)))" for bytes6 f
    by (simp add: that word_bytes_def z)
  then have "IPAddress_toString (IPv6AddressImpl (In6 0 0 0 0 0 0 (ucast b) h) s) = ''::''"
    "IPAddress_toString (IPv6AddressImpl (In6 0 0 0 0 0 0xffff (ucast b) h) s) = ''::ffff:''"
    using g by (auto simp: IPv6_toString_def)
  ultimately show ?thesis by simp
qed

theorem IPv6_text_lossy_witness:
  "IPAddress_toString (IPv6AddressImpl (In6 0 0 0 0 0 0 5 0x102) 0) = ''::''
   \<and> tryParse \<lparr>inet_addr = \<lambda>_. INADDR_NONE, getaddrinfo_numeric = \<lambda>_. Some (AI_inet6 empty6 0)\<rparr> ''::'' = Inr None"
  using IPv6_text_lossy [of "\<lparr>inet_addr = \<lambda>_. INADDR_NONE, getaddrinfo_numeric = \<lambda>_. Some (AI_inet6 empty6 0)\<rparr>"
    5 "0x102" 0] by simp

end
