(* ===== verification/Socket_Address.thy ===== *)
theory Socket_Address
  imports Ip_Text Session
begin

text \<open>
  \<open>SocketAddress\<close> of the POCO Net library (\<open>SocketAddress.cpp\<close>, \<open>SocketAddressImpl.cpp\<close>) and the
  integer parser it reads port numbers with (\<open>NumericString.h\<close>). The proxy resolves the address
  of the back end with it.
\<close>

section \<open>\<open>strToInt\<close> for an unsigned type, base 10\<close>

text \<open>
  \<open>limitCheck\<close> is the largest value of the type; a digit is refused when the product could exceed
  it, the sum is checked at the end. The text ends at its first zero character, where the
  string's \<open>c_str()\<close> ends.
\<close>

fun strToInt_loop :: "u64 \<Rightarrow> string \<Rightarrow> u64 \<Rightarrow> u64 option" where
  "strToInt_loop limit [] result = Some result"
| "strToInt_loop limit (c # cs) result =
    (if c = CHR 0x00 then Some result
     else if limit div 10 < result then None
     else if is_digit c then
       (let add = of_nat (of_char c - 48) in
        if limit - result < add then None else strToInt_loop limit cs (result * 10 + add))
     else if c = CHR '','' then strToInt_loop limit cs result
     else None)"

definition strToInt :: "u64 \<Rightarrow> string \<Rightarrow> u64 option" where
  "strToInt limit s =
    (case dropWhile isSpace s of
       [] \<Rightarrow> None
     | c # cs \<Rightarrow>
         if c = CHR 0x00 then None
         else if c = CHR ''-'' then None
         else (case strToInt_loop limit (if c = CHR ''+'' then cs else c # cs) 0 of
                 None \<Rightarrow> None
               | Some r \<Rightarrow> if limit < r then None else Some r))"

definition tryParseUnsigned :: "string \<Rightarrow> u32 option" where
  "tryParseUnsigned s = map_option ucast (strToInt 0xFFFFFFFF s)"

section \<open>Addresses\<close>

text \<open>The address structure holds the port in network order; \<open>sa_port\<close> is \<open>ntohs\<close> of it.\<close>

record socket_address =
  sa_host :: ip_address
  sa_port :: u16

definition sa_family :: "socket_address \<Rightarrow> family" where
  "sa_family a = ip_family (sa_host a)"

definition SocketAddress_ip :: "ip_address \<Rightarrow> u16 \<Rightarrow> socket_address" where
  "SocketAddress_ip h p = \<lparr>sa_host = h, sa_port = p\<rparr>"

definition SocketAddress_default :: socket_address where
  "SocketAddress_default = SocketAddress_ip (IPv4AddressImpl empty4) 0"

definition SocketAddress_port :: "u16 \<Rightarrow> socket_address" where
  "SocketAddress_port p = SocketAddress_ip (IPv4AddressImpl empty4) p"

definition SocketAddress_family :: "family \<Rightarrow> u16 \<Rightarrow> socket_address" where
  "SocketAddress_family f p = SocketAddress_ip (IPAddress_family f) p"

definition SocketAddress_toString :: "socket_address \<Rightarrow> string" where
  "SocketAddress_toString a = (case sa_host a of
      IPv4AddressImpl h \<Rightarrow> IPv4_toString h @ '':'' @ dec_nat (unat (sa_port a))
    | IPv6AddressImpl x s \<Rightarrow> ''['' @ IPv6_toString x s @ '']:'' @ dec_nat (unat (sa_port a)))"

definition SocketAddress_eq :: "socket_address \<Rightarrow> socket_address \<Rightarrow> bool" where
  "SocketAddress_eq a b \<longleftrightarrow> ip_eq (sa_host a) (sa_host b) \<and> sa_port a = sa_port b"

fun family_less :: "family \<Rightarrow> family \<Rightarrow> bool" where
  "family_less AF_IPv4 AF_IPv6 \<longleftrightarrow> True"
| "family_less _ _ \<longleftrightarrow> False"

definition SocketAddress_less :: "socket_address \<Rightarrow> socket_address \<Rightarrow> bool" where
  "SocketAddress_less a b =
    (if family_less (sa_family a) (sa_family b) then True
     else if family_less (sa_family b) (sa_family a) then False
     else if ip_less (sa_host a) (sa_host b) then True
     else if ip_greater (sa_host a) (sa_host b) then False
     else sa_port a < sa_port b)"

section \<open>Resolution\<close>

text \<open>
  Besides the system's parsers: \<open>DNS::hostByName\<close>, which gives a list of addresses or throws, and
  \<open>getservbyname\<close>.
\<close>

record net = resolver +
  hostByName :: "string \<Rightarrow> exn + ip_address list"
  getservbyname :: "string \<Rightarrow> u16 option"

definition SocketAddress_host :: "net \<Rightarrow> string \<Rightarrow> u16 \<Rightarrow> exn + socket_address" where
  "SocketAddress_host N host p =
    (case tryParse (resolver.truncate N) host of
       Inl e \<Rightarrow> Inl e
     | Inr (Some ip) \<Rightarrow> Inr (SocketAddress_ip ip p)
     | Inr None \<Rightarrow>
         (case hostByName N host of
            Inl e \<Rightarrow> Inl e
          | Inr addresses \<Rightarrow>
              if 0 < length addresses then Inr (SocketAddress_ip (addresses ! 0) p)
              else Inl (Poco HostNotFoundException (''No address found for host: '' @ host) 0)))"

definition SocketAddress_host_family :: "net \<Rightarrow> family \<Rightarrow> string \<Rightarrow> u16 \<Rightarrow> exn + socket_address" where
  "SocketAddress_host_family N f host p =
    (case tryParse (resolver.truncate N) host of
       Inl e \<Rightarrow> Inl e
     | Inr (Some ip) \<Rightarrow>
         if ip_family ip \<noteq> f then Inl (Poco AddressFamilyMismatchException host 0)
         else Inr (SocketAddress_ip ip p)
     | Inr None \<Rightarrow>
         (case hostByName N host of
            Inl e \<Rightarrow> Inl e
          | Inr addresses \<Rightarrow>
              if 0 < length addresses then
                (case List.find (\<lambda>addr. ip_family addr = f) addresses of
                   Some addr \<Rightarrow> Inr (SocketAddress_ip addr p)
                 | None \<Rightarrow> Inl (Poco AddressFamilyMismatchException host 0))
              else Inl (Poco HostNotFoundException (''No address found for host: '' @ host) 0)))"

definition resolveService :: "net \<Rightarrow> string \<Rightarrow> exn + u16" where
  "resolveService N service =
    (case tryParseUnsigned service of
       Some port \<Rightarrow>
         if port \<le> 0xFFFF then Inr (ucast port)
         else (case getservbyname N service of
                 Some p \<Rightarrow> Inr p | None \<Rightarrow> Inl (Poco ServiceNotFoundException service 0))
     | None \<Rightarrow> (case getservbyname N service of
                 Some p \<Rightarrow> Inr p | None \<Rightarrow> Inl (Poco ServiceNotFoundException service 0)))"

text \<open>The scan of \<open>host:port\<close> and \<open>[host]:port\<close>; both overloads of \<open>init\<close> contain it.\<close>

definition split_host_port :: "string \<Rightarrow> exn + string \<times> string" where
  "split_host_port s =
    (let bracket = (s \<noteq> [] \<and> hd s = CHR ''['');
         body = (if bracket then tl s else s);
         stop = (if bracket then CHR '']'' else CHR '':'');
         host = takeWhile (\<lambda>c. c \<noteq> stop) body;
         it = dropWhile (\<lambda>c. c \<noteq> stop) body
     in if bracket \<and> it = [] then Inl (Poco InvalidArgumentException ''Malformed IPv6 address'' 0)
        else let it = (if bracket then tl it else it) in
          if it \<noteq> [] \<and> hd it = CHR '':'' then Inr (host, tl it)
          else Inl (Poco InvalidArgumentException ''Missing port number'' 0))"

definition SocketAddress_strings :: "net \<Rightarrow> string \<Rightarrow> string \<Rightarrow> exn + socket_address" where
  "SocketAddress_strings N host port =
    (case resolveService N port of Inl e \<Rightarrow> Inl e | Inr p \<Rightarrow> SocketAddress_host N host p)"

definition SocketAddress_string :: "net \<Rightarrow> string \<Rightarrow> exn + socket_address" where
  "SocketAddress_string N hostAndPort =
    (if hostAndPort = [] then Inl (Poco AssertionViolationException ''!hostAndPort.empty()'' 0)
     else case split_host_port hostAndPort of
       Inl e \<Rightarrow> Inl e
     | Inr (host, port) \<Rightarrow> SocketAddress_strings N host port)"

definition SocketAddress_family_string :: "net \<Rightarrow> family \<Rightarrow> string \<Rightarrow> exn + socket_address" where
  "SocketAddress_family_string N f address =
    (if address = [] then Inl (UB ''dereference of an end iterator'')
     else case split_host_port address of
       Inl e \<Rightarrow> Inl e
     | Inr (host, port) \<Rightarrow>
         (case resolveService N port of Inl e \<Rightarrow> Inl e | Inr p \<Rightarrow> SocketAddress_host_family N f host p))"

section \<open>Numbers\<close>

text \<open>The loop on digits, over natural numbers: it refuses what exceeds the limit by more than a digit.\<close>

lemma strToInt_digits:
  assumes "\<And>c. c \<in> set s \<Longrightarrow> is_digit c \<and> c \<noteq> CHR 0x00"
    and "r < 2 ^ 33" and "limit = 0xFFFFFFFF"
  shows "case strToInt_loop limit s (of_nat r) of
      None \<Rightarrow> unat limit < foldl (\<lambda>a c. a * 10 + (of_char c - 48)) r s
    | Some v \<Rightarrow> unat v = foldl (\<lambda>a c. a * 10 + (of_char c - 48)) r s"
  using assms(1,2)
proof (induction s arbitrary: r)
  case Nil
  then show ?case by (simp add: unat_of_nat take_bit_eq_mod)
next
  case (Cons c cs)
  let ?f = "\<lambda>(a :: nat) c. a * 10 + (of_char c - 48)"
  have mono: "r \<le> foldl ?f r t" for r t
  proof (induction t arbitrary: r)
    case (Cons c t)
    have "r \<le> ?f r c" by simp
    also have "\<dots> \<le> foldl ?f (?f r c) t" by (rule Cons)
    finally show ?case by simp
  qed simp
  have c: "c \<noteq> CHR 0x00" "is_digit c" using Cons.prems(1) by simp_all
  let ?d = "of_char c - 48 :: nat"
  have d: "?d \<le> 9" using c(2) by (auto simp: is_digit_def Let_def)
  have r: "unat (of_nat r :: u64) = r" using Cons.prems(2) by (simp add: unat_of_nat take_bit_eq_mod)
  have lim: "unat limit = 4294967295" by (simp add: assms(3))
  have big: "limit div 10 < of_nat r \<longleftrightarrow> 429496729 < r"
    by (simp add: word_less_nat_alt unat_div lim r)
  show ?case
  proof (cases "429496729 < r")
    case True
    have "4294967295 < ?f r c" using True by simp
    then have "unat limit < foldl ?f r (c # cs)" using mono [of "?f r c" cs] lim by simp
    with True c big show ?thesis by simp
  next
    case False
    have "\<not> limit - of_nat r < of_nat ?d"
    proof -
      have "of_nat r \<le> limit" using False by (simp add: word_le_nat_alt lim r)
      then have "unat (limit - of_nat r) = 4294967295 - r" by (simp add: unat_sub lim r)
      moreover have "unat (of_nat ?d :: u64) = ?d" using d by (simp add: unat_of_nat take_bit_eq_mod)
      ultimately show ?thesis using d False by (simp add: word_less_nat_alt)
    qed
    moreover have "of_nat r * 10 + of_nat ?d = (of_nat (?f r c) :: u64)" by simp
    moreover have "?f r c < 2 ^ 33" using False d by simp
    ultimately have step: "strToInt_loop limit (c # cs) (of_nat r) = strToInt_loop limit cs (of_nat (?f r c))"
      and "?f r c < 2 ^ 33"
      using c False big by (simp_all add: Let_def del: of_nat_add of_nat_mult)
    then show ?thesis unfolding step foldl_Cons using Cons.IH [of "?f r c"] Cons.prems(1) by simp
  qed
qed

lemma tryParseUnsigned_dec:
  "tryParseUnsigned (dec_nat n) = (if n \<le> 0xFFFFFFFF then Some (of_nat n) else None)"
proof -
  obtain c cs where s: "dec_nat n = c # cs" by (cases "dec_nat n") auto
  have c: "is_digit c" "c \<noteq> CHR 0x00" using dec_nat_digit [of c n] s by simp_all
  then have "\<not> isSpace c" "c \<noteq> CHR ''-''" "c \<noteq> CHR ''+''" by (auto simp: is_digit_def isSpace_def Let_def)
  then have i: "strToInt limit (dec_nat n) = (case strToInt_loop limit (dec_nat n) (of_nat 0) of
      None \<Rightarrow> None | Some r \<Rightarrow> if limit < r then None else Some r)" for limit
    using c by (simp add: strToInt_def s)
  have loop: "case strToInt_loop 0xFFFFFFFF (dec_nat n) (of_nat 0) of None \<Rightarrow> 0xFFFFFFFF < n | Some v \<Rightarrow> unat v = n"
    using strToInt_digits [of "dec_nat n" 0 "0xFFFFFFFF"] dec_nat_digit [of _ n] dec_value_dec_nat [of n]
    by (simp add: dec_value_def del: dec_value_dec_nat split: option.splits)
  show ?thesis
  proof (cases "strToInt_loop 0xFFFFFFFF (dec_nat n) (of_nat 0)")
    case None
    with loop i show ?thesis by (simp add: tryParseUnsigned_def)
  next
    case (Some v)
    with loop have "unat v = n" by simp
    then have "v = of_nat n" "0xFFFFFFFF < v \<longleftrightarrow> 0xFFFFFFFF < n" by (auto simp: word_less_nat_alt)
    moreover have "ucast (of_nat n :: u64) = (of_nat n :: u32)" if "n \<le> 0xFFFFFFFF"
      using that by (simp add: word_unat_eq_iff unsigned_ucast_eq unat_of_nat take_bit_eq_mod)
    ultimately show ?thesis using Some i by (auto simp: tryParseUnsigned_def)
  qed
qed

lemma resolve_dec:
  "resolveService N (dec_nat n) =
     (if n \<le> 65535 then Inr (of_nat n)
      else case getservbyname N (dec_nat n) of
        Some p \<Rightarrow> Inr p | None \<Rightarrow> Inl (Poco ServiceNotFoundException (dec_nat n) 0))"
proof -
  have u: "unat (of_nat n :: u32) = n" if "n \<le> 0xFFFFFFFF"
    using that by (simp add: unat_of_nat take_bit_eq_mod)
  have "ucast (of_nat n :: u32) = (of_nat n :: u16)" if "n \<le> 65535"
    using that by (simp add: word_unat_eq_iff unsigned_ucast_eq unat_of_nat take_bit_eq_mod)
  then show ?thesis
    using u by (auto simp: resolveService_def tryParseUnsigned_dec word_le_nat_alt split: option.split)
qed

text \<open>C37: \<open>resolveService\<close> takes a decimal number for a port exactly up to 65535, whatever its length: no
  number that exceeds the range wraps around to a port. A larger one is looked up as a
  service name.\<close>

theorem resolveService_number:
  "resolveService N (dec_nat n) =
     (if n \<le> 65535 then Inr (of_nat n)
      else case getservbyname N (dec_nat n) of
        Some p \<Rightarrow> Inr p | None \<Rightarrow> Inl (Poco ServiceNotFoundException (dec_nat n) 0))"
  by (rule resolve_dec)

section \<open>The text of an address\<close>

lemma set_trim: "c \<in> set s \<Longrightarrow> \<not> isSpace c \<Longrightarrow> c \<in> set (trim s)"
proof -
  have "c \<in> set t \<Longrightarrow> \<not> isSpace c \<Longrightarrow> c \<in> set (dropWhile isSpace t)" for t
    by (induction t) auto
  from this [of s] this [of "rev (dropWhile isSpace s)"]
  show "c \<in> set s \<Longrightarrow> \<not> isSpace c \<Longrightarrow> c \<in> set (trim s)" by (simp add: trim_def)
qed

lemma IPv6_text_colon: "CHR '':'' \<in> set (IPv6_toString x s)"
proof (cases "(v6_isIPv4Compatible x \<and> \<not> v6_isLoopback x) \<or> v6_isIPv4Mapped x")
  case True
  then show ?thesis by (simp add: IPv6_toString_def Let_def)
next
  case False
  obtain l k r where t: "words6 x = l @ replicate k 0 @ r"
    "v6_groups (words6 x) 0 False = tl (colon_words l) @ rest_text k r" "k = 0 \<longrightarrow> r = [] \<and> l \<noteq> []"
    using v6_groups_text [OF words6_length] by blast
  have "CHR '':'' \<in> set (toLower (v6_groups (words6 x) 0 False))"
  proof (cases "k = 0")
    case True
    with t have "length l = 8" using words6_length [of x] by simp
    then obtain v w ws where "l = v # w # ws" by (cases l; cases "tl l") auto
    then show ?thesis unfolding t(2) by (simp add: toLower_tl)
  next
    case False
    then show ?thesis unfolding t(2) by (simp add: rest_text_def)
  qed
  then show ?thesis using False unfolding IPv6_toString_def if_not_P [OF False] by simp
qed

lemma dec_bracket [simp]: "CHR '']'' \<notin> set (dec_nat n)" "CHR '':'' \<notin> set (dec_nat n)" "CHR ''['' \<notin> set (dec_nat n)"
  by (simp_all add: dec_char)

lemma IPv6_text_bracket: "CHR '']'' \<notin> set (IPv6_toString x s)"
proof (cases "(v6_isIPv4Compatible x \<and> \<not> v6_isLoopback x) \<or> v6_isIPv4Mapped x")
  case True
  then show ?thesis by (simp add: IPv6_toString_def Let_def)
next
  case False
  have "CHR '']'' \<notin> set (toLower (v6_groups (words6 x) 0 False))"
    using v6_text_chars [OF words6_length [of x]] by auto
  then show ?thesis
    using toLower_scope [of "unat s"] unfolding IPv6_toString_def if_not_P [OF False] by auto
qed

lemma IPv4_text_chars: "CHR '':'' \<notin> set (IPv4_toString a)" "IPv4_toString a \<noteq> []" "hd (IPv4_toString a) \<noteq> CHR ''[''"
proof -
  obtain b c d e where a: "a = In4 b c d e" by (cases a)
  show "CHR '':'' \<notin> set (IPv4_toString a)" by (simp add: a)
  show "IPv4_toString a \<noteq> []" by simp
  show "hd (IPv4_toString a) \<noteq> CHR ''[''"
    using hd_in_set [OF dec_nat_not_Nil [of "unat b"]] dec_bracket(3) [of "unat b"] by (metis a IPv4_toString.simps dec_nat_not_Nil hd_append2)
qed

text \<open>
  What the system is documented to do with an IPv6 text in the notation of RFC 4291: \<open>getaddrinfo\<close>
  reads it as the address it stands for, and \<open>inet_addr\<close> refuses it.
\<close>

definition reads_ip6 :: "resolver \<Rightarrow> bool" where
  "reads_ip6 R \<longleftrightarrow> (\<forall>t x s. read_ip6 t = Some (map unat (words6 x), unat s) \<longrightarrow>
     getaddrinfo_numeric R t = Some (AI_inet6 x s) \<and> inet_addr R t = INADDR_NONE)"

text \<open>IPv4 addresses, and IPv6 addresses outside the ranges that are printed in dotted form.\<close>

fun plain_host :: "ip_address \<Rightarrow> bool" where
  "plain_host (IPv4AddressImpl a) \<longleftrightarrow> True"
| "plain_host (IPv6AddressImpl x s) \<longleftrightarrow> (v6_isIPv4Compatible x \<longrightarrow> v6_isLoopback x) \<and> \<not> v6_isIPv4Mapped x"

lemma tryParse_text:
  assumes "reads_quads R" and "reads_ip6 R" and "plain_host h"
  shows "tryParse R (IPAddress_toString h) = Inr (Some h)"
proof (cases h)
  case (IPv4AddressImpl a)
  with reads_quads_text [OF assms(1)] show ?thesis by (simp add: tryParse_quad)
next
  case (IPv6AddressImpl x s)
  have c: "CHR '':'' \<in> set (IPv6_toString x s)" by (rule IPv6_text_colon)
  then have "IPv6_toString x s \<noteq> []" "IPv6_toString x s \<noteq> ''255.255.255.255''" by auto
  moreover have "CHR '':'' \<in> set (trim (IPv6_toString x s))"
    using c by (rule set_trim) (simp add: isSpace_def)
  then have "trim (IPv6_toString x s) \<noteq> ''0.0.0.0''" by auto
  moreover have "getaddrinfo_numeric R (IPv6_toString x s) = Some (AI_inet6 x s)"
    "inet_addr R (IPv6_toString x s) = INADDR_NONE"
    using assms(2,3) read_ip6_text [of x s] IPv6AddressImpl by (auto simp: reads_ip6_def)
  moreover have "x \<noteq> empty6" using assms(3) IPv6AddressImpl by (auto simp: empty6_def)
  ultimately show ?thesis
    using IPv6AddressImpl by (auto simp: tryParse_def IPv4_parse_def IPv6_parse_def empty4_def INADDR_NONE_def)
qed

lemma split_text:
  "split_host_port (SocketAddress_toString a) = Inr (IPAddress_toString (sa_host a), dec_nat (unat (sa_port a)))"
proof (cases "sa_host a")
  case (IPv4AddressImpl h)
  have "takeWhile (\<lambda>c. c \<noteq> CHR '':'') (IPv4_toString h @ CHR '':'' # t) = IPv4_toString h"
    "dropWhile (\<lambda>c. c \<noteq> CHR '':'') (IPv4_toString h @ CHR '':'' # t) = CHR '':'' # t" for t
    using IPv4_text_chars(1) [of h] by (subst takeWhile_append2 dropWhile_append2; auto)+
  with IPv4AddressImpl IPv4_text_chars [of h] show ?thesis
    by (simp add: split_host_port_def SocketAddress_toString_def)
next
  case (IPv6AddressImpl x s)
  have "takeWhile (\<lambda>c. c \<noteq> CHR '']'') (IPv6_toString x s @ CHR '']'' # t) = IPv6_toString x s"
    "dropWhile (\<lambda>c. c \<noteq> CHR '']'') (IPv6_toString x s @ CHR '']'' # t) = CHR '']'' # t" for t
    using IPv6_text_bracket [of x s] by (subst takeWhile_append2 dropWhile_append2; auto)+
  with IPv6AddressImpl show ?thesis
    by (simp add: split_host_port_def SocketAddress_toString_def)
qed

text \<open>C23: With a system that reads dotted quads and RFC 4291 texts, a \<open>SocketAddress\<close> is read back from
  its text, \<open>host:port\<close> or \<open>[host]:port\<close>, and the constructor from a host text and a port, which the
  proxy uses for the back end, gives that address without asking for the host's name: for every
  port and every IPv4 host, and every IPv6 host outside the IPv4-compatible range (the loopback
  address counts as outside, the wildcard address does not) and the IPv4-mapped range.\<close>

theorem SocketAddress_text_roundtrip:
  assumes "reads_quads (resolver.truncate N)" and "reads_ip6 (resolver.truncate N)" and "plain_host (sa_host a)"
  shows "SocketAddress_string N (SocketAddress_toString a) = Inr a
    \<and> SocketAddress_host N (IPAddress_toString (sa_host a)) (sa_port a) = Inr a"
proof -
  have h: "SocketAddress_host N (IPAddress_toString (sa_host a)) (sa_port a) = Inr a"
    by (simp add: SocketAddress_host_def tryParse_text [OF assms] SocketAddress_ip_def)
  have "SocketAddress_toString a \<noteq> []"
    by (cases "sa_host a") (simp_all add: SocketAddress_toString_def)
  moreover have "resolveService N (dec_nat (unat (sa_port a))) = Inr (sa_port a)"
    using unsigned_less [of "sa_port a", where 'a = nat] by (simp add: resolve_dec)
  ultimately show ?thesis
    using h by (simp add: SocketAddress_string_def split_text SocketAddress_strings_def)
qed

text \<open>A system that reads both notations and knows no names.\<close>

definition sample_getaddrinfo :: "string \<Rightarrow> addrinfo option" where
  "sample_getaddrinfo t = map_option (\<lambda>(ws, s). AI_inet6 (in6_of (map of_nat ws)) (of_nat s)) (read_ip6 t)"

definition sample_net :: net where
  "sample_net = \<lparr>inet_addr = sample_inet_addr, getaddrinfo_numeric = sample_getaddrinfo,
     hostByName = \<lambda>_. Inl (Poco DNSException [] 0), getservbyname = \<lambda>_. None\<rparr>"

lemma gap_has_colon: "gap t \<noteq> None \<Longrightarrow> CHR '':'' \<in> set t"
  by (induction t rule: gap.induct) (auto split: if_splits)

lemma read_words_has_colon: "read_words t = Some ws \<Longrightarrow> CHR '':'' \<in> set t"
proof (rule ccontr)
  assume r: "read_words t = Some ws" and c: "CHR '':'' \<notin> set t"
  then have "gap t = None" using gap_has_colon by blast
  with r c show False by (auto simp: read_words_def read_side_def tokens_one bind_eq_Some_conv split: if_splits)
qed

lemma sample_reads:
  "reads_quads (resolver.truncate sample_net)" "reads_ip6 (resolver.truncate sample_net)"
proof -
  show "reads_quads (resolver.truncate sample_net)"
    using sample_reads_quads [of "resolver.truncate sample_net"] by (simp add: sample_net_def resolver.truncate_def)
  have "in6_of (map of_nat (map unat (words6 x))) = x" for x by (cases x) simp
  moreover have "sample_inet_addr t = INADDR_NONE" if "read_ip6 t = Some v" for t v
  proof -
    have "CHR '':'' \<in> set t"
      using that read_words_has_colon [of "takeWhile (\<lambda>c. c \<noteq> CHR ''%'') t"]
      by (auto simp: read_ip6_def bind_eq_Some_conv dest: set_takeWhileD)
    then show ?thesis by (simp add: sample_inet_addr_def)
  qed
  ultimately show "reads_ip6 (resolver.truncate sample_net)"
    by (auto simp: reads_ip6_def sample_net_def resolver.truncate_def sample_getaddrinfo_def)
qed

theorem SocketAddress_text_roundtrip_witness:
  "SocketAddress_string sample_net ''127.0.0.1:4242'' = Inr \<lparr>sa_host = IPv4AddressImpl (In4 127 0 0 1), sa_port = 4242\<rparr>
   \<and> SocketAddress_host sample_net ''127.0.0.1'' 4242 = Inr \<lparr>sa_host = IPv4AddressImpl (In4 127 0 0 1), sa_port = 4242\<rparr>
   \<and> SocketAddress_string sample_net ''[1::2:0:5%7]:4242'' =
       Inr \<lparr>sa_host = IPv6AddressImpl (In6 1 0 0 0 0 2 0 5) 7, sa_port = 4242\<rparr>
   \<and> SocketAddress_host sample_net ''1::2:0:5%7'' 4242 =
       Inr \<lparr>sa_host = IPv6AddressImpl (In6 1 0 0 0 0 2 0 5) 7, sa_port = 4242\<rparr>"
proof -
  let ?a = "\<lparr>sa_host = IPv4AddressImpl (In4 127 0 0 1), sa_port = 4242\<rparr>"
  let ?b = "\<lparr>sa_host = IPv6AddressImpl (In6 1 0 0 0 0 2 0 5) 7, sa_port = 4242\<rparr>"
  have "IPv4_toString (In4 127 0 0 1) = ''127.0.0.1''" by code_simp
  then have "SocketAddress_toString ?a = ''127.0.0.1:4242''" "IPAddress_toString (sa_host ?a) = ''127.0.0.1''"
    by (simp_all add: SocketAddress_toString_def dec_nat_ports del: IPv4_toString.simps)
  moreover have "SocketAddress_toString ?b = ''[1::2:0:5%7]:4242''"
    by (simp add: SocketAddress_toString_def sample_v6_text dec_nat_ports)
  moreover have "IPAddress_toString (sa_host ?b) = ''1::2:0:5%7''" by (simp add: sample_v6_text)
  moreover have "plain_host (sa_host ?a)" "plain_host (sa_host ?b)" "sa_port ?a = 4242" "sa_port ?b = 4242"
    by simp_all
  ultimately show ?thesis
    using SocketAddress_text_roundtrip [OF sample_reads, of ?a] SocketAddress_text_roundtrip [OF sample_reads, of ?b]
    by metis
qed

text \<open>The comparison of socket addresses is the lexicographic one of family, host and port.\<close>

lemma SocketAddress_order:
  "SocketAddress_less a b \<longleftrightarrow> ip_less (sa_host a) (sa_host b) \<or> sa_host a = sa_host b \<and> sa_port a < sa_port b"
proof -
  have f: "family_less (ip_family h) (ip_family k) \<Longrightarrow> ip_less h k" for h k
    by (cases h; cases k) (simp_all add: ip_less_def)
  show ?thesis
    using f [of "sa_host a" "sa_host b"] f [of "sa_host b" "sa_host a"]
      less_linear [of "ip_key (sa_host a)" "ip_key (sa_host b)"] less_not_sym [of "ip_key (sa_host a)" "ip_key (sa_host b)"]
    by (auto simp: SocketAddress_less_def sa_family_def ip_greater_def ip_less_key)
qed

text \<open>What the sockets of the proxy see of an address.\<close>

definition to_addr :: "socket_address \<Rightarrow> addr" where
  "to_addr a = \<lparr>a_host = (case sa_host a of
      IPv4AddressImpl h \<Rightarrow> IPv4_toString h | IPv6AddressImpl x s \<Rightarrow> ''['' @ IPv6_toString x s @ '']''),
    a_port = sa_port a\<rparr>"

lemma to_addr_text: "addr_toString (to_addr a) = SocketAddress_toString a"
  by (cases "sa_host a") (simp_all add: addr_toString_def to_addr_def SocketAddress_toString_def)

end
