(* ===== verification/Spec2Isabelle.thy ===== *)
theory Spec2Isabelle
  imports Leftover_Sessions Settings Inner_Thread Packet_Config Vial Util_System Util_Wnd Ip_Ranges Socket_Address
begin

text \<open>
  Verification of the Emulator of POCOProxyServer: a Windows program whose dialog starts and stops
  a TCP proxy. Paths are relative to \<open>src/Emulator\<close>.

  \<^bold>\<open>The program.\<close> The dialog (\<open>EmulatorDlg.cpp\<close>) owns a \<open>CPOCOProxyServer\<close> (\<open>CPOCOProxyServer.cpp\<close>).
  \<open>Activate\<close> starts a worker thread, whose \<open>ThreadLoop\<close> makes a \<open>SocketReactor\<close>, a server socket and
  an acceptor and runs the reactor until \<open>Deactivate\<close> stops it. For each accepted (front) connection
  the acceptor makes a \<open>ProxySession\<close> with a service handler, connects a back socket without waiting
  and registers seven callbacks at the reactor. The by-pass handler sends what arrives at one
  socket to the other. A session ends with \<open>Close\<close>, which destroys the object itself. The parts of
  POCO Net underneath are in the repository (\<open>poco/Net\<close>, \<open>poco/Foundation\<close>). The log is plog with the
  project's own appenders; \<open>SettingIni\<close> installs it when there is a settings file. \<open>network/\<close> holds
  the packets and data structures of the auto sampler protocol, \<open>common/\<close> utilities.

  \<^bold>\<open>Theories and code, bottom up.\<close>
  \<^item> \<open>Prelude\<close>: words, decimal text, C++ computations as state transformers that return or throw
    (\<open>Poco\<close> exceptions can be caught; undefined behaviour \<open>UB\<close> and \<open>Diverge\<close> cannot), the calculi
    \<open>valid\<close>/\<open>keeps\<close>/\<open>returns\<close>/\<open>preserves\<close> with their rules in collections, the rules
    \<open>eval\<close> that run a computation on a concrete state, \<open>std::map\<close> as an association list.
  \<^item> \<open>Sockets\<close>, \<open>Socket_Impl\<close> (\<open>poco/Net/src/SocketImpl.cpp\<close>, \<open>StreamSocketImpl.cpp\<close>, \<open>ServerSocket.cpp\<close>):
    one definition per member function over the record \<open>sock_world\<close> (the socket objects and the wire,
    the sequence of bytes accepted and received and of descriptors closed). The system calls are the
    record \<open>os\<close>: a function of the number of calls made so far, so any behaviour is possible.
    \<open>Stream_Send\<close>: \<open>sendBytes\<close> accepts a prefix, and everything on a blocking socket.
  \<^item> \<open>Notifications\<close> (\<open>Observer.h\<close>, \<open>NotificationCenter.cpp\<close>, \<open>SocketNotifier.cpp\<close>), \<open>Poll_Set\<close>
    (\<open>PollSet.cpp\<close>; the contract of the registrations is the locale \<open>poll_registry\<close>, interpreted by the
    two implementations), \<open>Reactor\<close> (\<open>SocketReactor.cpp\<close>, \<open>SocketAcceptor.h\<close>), \<open>Reactor_Client\<close> (the
    locale \<open>reactor_client\<close>: what callbacks must keep for the event loop to be safe).
  \<^item> \<open>Session\<close>: \<open>ProxySession\<close>, the handlers and the acceptor over the record \<open>world\<close>, which adds a heap
    of sessions and the acceptor. \<open>Session_Safety\<close>: the lifetime invariant \<open>lifetime_ok\<close> (every
    enabled observer names a live object at its place) is kept by every operation, and the
    interpretation \<open>proxy\<close> of \<open>reactor_client\<close>. \<open>Session_Life\<close>: what \<open>Close\<close> does, with and without
    logging. \<open>Session_Start\<close>: what accepting a connection makes. \<open>Session_End\<close>: the callbacks that
    tell of the end of a connection destroy the session. \<open>Relay\<close>: which bytes
    pass, in which order. \<open>Server\<close>: \<open>ThreadLoop\<close> is memory safe and
    leaves no acceptor, server socket, handler and observer.
    \<open>Reactor_Life\<close>: reference counts of the notifications, the poll set as a map from descriptors to
    modes, and what \<open>Close\<close> leaves in it. \<open>Session_Leak\<close>: a second invariant of the event loop (the
    interpretation \<open>leak\<close> of \<open>reactor_client\<close>): a session that no observer refers to is never reached.
  \<^item> \<open>Server_Threads\<close>: \<open>Activate\<close>, \<open>Deactivate\<close> and the worker, one statement a step, as a step relation with
    its invariant, and the locale \<open>server_client\<close> of programs that own a server. \<open>Dialog\<close>: the dialog's
    members, texts and handlers (\<open>EmulatorDlg.cpp\<close>), composed with the two threads to the step relation
    \<open>app_step\<close>, which interprets the locale. \<open>Proxy_System\<close>: the whole program, in which the worker
    executes the statements of \<open>ThreadLoop\<close> on the proxy's state between the steps of the other thread;
    its runs project to runs of \<open>Dialog\<close>, whose invariants carry over, and what a worker has done when
    it is finished is \<open>ThreadLoop\<close>. \<open>Isolation\<close>: a
    third invariant of the event loop (the interpretation \<open>data_path\<close> of \<open>reactor_client\<close>), lifted to
    every reachable state of the program: a session relays what it received, in order and without
    repetition, and shares no socket with another. \<open>Leftover_Sessions\<close>: \<open>leak\<close> lifted in the same way: a
    session that is left when a worker has ended is never reached again.
  \<^item> \<open>Logging\<close> (\<open>plog/include/plog\<close>): records as text, files, \<open>OneDayFileAppender\<close>, \<open>WinConsoleAppender\<close>.
    \<open>Settings\<close> (\<open>common/WinIniParser.cpp\<close>, \<open>SettingIni.cpp\<close>): the settings file, the logger it installs and
    what that means for the sessions' \<open>Close\<close>.
  \<^item> \<open>Layout\<close>, \<open>Packet_Data\<close>, \<open>Packet_Config\<close>, \<open>Vial\<close> (\<open>network/PacketData.h\<close>, \<open>network/PacketConfig.h\<close>): memory
    images of structures as the compiler lays them out; packets in byte buffers, where \<open>None\<close> is an
    access outside; positions of vials in trays.
  \<^item> \<open>Ip_Address\<close>, \<open>Ip_Text\<close>, \<open>Ip_Ranges\<close>, \<open>Socket_Address\<close> (\<open>poco/Net/src/IPAddress.cpp\<close>,
    \<open>IPAddressImpl.cpp\<close>, \<open>SocketAddress.cpp\<close>, \<open>SocketAddressImpl.cpp\<close>; \<open>NumericString.h\<close>): addresses and
    their texts. What the system's parsers do is assumed only for the documented formats: dotted quads
    (\<open>reads_quads\<close>) and the hexadecimal notation of RFC 4291, for which \<open>Ip_Text\<close> has a strict reader
    (\<open>read_ip6\<close>, \<open>reads_ip6\<close>).
  \<^item> \<open>Util_Text\<close>, \<open>Util_System\<close> (\<open>common/Util.cpp\<close>), \<open>Util_Wnd\<close> (\<open>common/UtilWnd.cpp\<close>), \<open>Inner_Thread\<close>
    (\<open>common/InnerThread.cpp\<close>).

  \<^bold>\<open>What the properties say.\<close> The worker thread uses no destroyed object, whatever the peers, the
  resolver and the system do, and can be started again; sessions pass bytes in order, in one
  direction completely; accepting a connection whose back connection begins makes one session with
  all its callbacks; \<open>Close\<close>, when its log line does not throw, and with it the callbacks for the end
  of a connection destroy a session and all references to it; notifications are released as often
  as they are duplicated; there is never more than one worker, none when the button is off, and a
  \<open>Deactivate\<close> that finds the reactor returns within seven steps; on a disk that refuses nothing the
  log holds every record of a day; packets, addresses and texts survive their round trips. Where the
  code does not do what it means to, the property or a lemma states what it does: a log line that
  throws or a back connection refused at once leaks the session, also beyond the end of the worker,
  bytes that a slow back end does not take are lost, \<open>Deactivate\<close> can wait for ever or call through a
  null pointer, the dialog's timer overwrites what is typed, a log file that cannot be opened is
  given up for the day, packets with an offset are written outside their structure.

  \<^bold>\<open>Bounds and fuel.\<close> Loops that retry an interrupted system call (\<open>poll\<close>, \<open>connect\<close>, \<open>accept\<close>, \<open>send\<close>,
  \<open>recv\<close>) and the send loop run on \<open>os_fuel\<close> rounds and end in \<open>Diverge\<close> beyond them; \<open>Diverge\<close> is
  never confused with a return. \<open>sendBytes_total\<close> proves that more rounds than bytes are enough for a
  system that makes progress; properties that say that something returns prove it (\<open>Close\<close> and the
  ends of connections use one round). The event loop runs a number of turns (\<open>turns\<close>), as the code
  does until its stop flag is set; its properties hold for every number. Loops of the utilities and
  of \<open>TotalVial\<close> that need not end are partial functions with \<open>None\<close> for no end. Ports are 16, sizes 64
  bits wide, C++ \<open>int\<close> is reduced to 32 bits wherever the code converts.

  \<^bold>\<open>Not modelled.\<close> The Linux variants of the network code (the project is built for Windows: WSAPoll,
  Winsock). Datagram and multicast sockets, vector buffers, name servers and services (the resolver
  is a parameter), and the rest of POCO, which the program does not reach. MFC, the system menu,
  painting and bitmaps; \<open>DDX_Text\<close> for \<open>int\<close> is a parameter of the dialog. Functions over floating-point
  numbers. \<open>PingTest\<close> and \<open>StringSplit\<close> of \<open>UtilWnd.cpp\<close> (the ICMP service and ATL's tokenizer),
  fmt, and the parts of plog that the program does not
  install. The interleaving of the two threads covers the members the two share; what the reactor
  does inside the worker is sequential, since only the worker calls it; \<open>wakeUp\<close> and \<open>trySleep\<close> of the
  reactor, which act on nothing that is modelled, are left out.

  \<^bold>\<open>Undefined behaviour outside the model.\<close> Undefined behaviour here is the use of a destroyed session,
  acceptor or notifier, a call through a null pointer, and an access outside a buffer. Two kinds
  that the program has are not among them: \<open>Close\<close> deletes the service through
  \<open>CPOCOProxyHandler\<close>, whose destructor is not virtual, and is taken for an ordinary deletion; the
  threads access \<open>m_reactor\<close> without synchronisation, and are taken to interleave statement by
  statement. Sizes are those of the 64-bit build; the Win32 build wraps \<open>size_t\<close> sums at 2^32.
\<close>

end
